(* ===== verification/Prelude.thy ===== *)
theory Prelude
  imports Main "HOL-Library.Word" "HOL-Library.Log_Nat" "HOL-Library.Multiset"
begin

text \<open>
  Shared vocabulary of the SwapDApp development: the byte type of buffers and
  seeds, the collections of evaluation and invariant rules the component
  theories add to, and generic lemmas on lists, characters and sums that the
  component proofs use through these collections.
\<close>

section \<open>Types and rule collections\<close>

type_synonym byte = "8 word"

named_theorems js_eval
  \<open>definitions of the JavaScript runtime model unfolded to evaluate a concrete input\<close>

named_theorems inv_rules
  \<open>one-step preservation lemmas of the page invariants\<close>

section \<open>Fallible computations\<close>

text \<open>
  A computation that may throw is a value of \<open>'e + 'a\<close>; \<open>sum_bind\<close> runs the
  next step on success and passes the first error on, as an exception does.
\<close>

definition sum_bind :: "'e + 'a \<Rightarrow> ('a \<Rightarrow> 'e + 'b) \<Rightarrow> 'e + 'b" where
  "sum_bind m f = (case m of Inl e \<Rightarrow> Inl e | Inr a \<Rightarrow> f a)"

lemma sum_bind_Inl [simp]: "sum_bind (Inl e) f = Inl e"
  by (simp add: sum_bind_def)

lemma sum_bind_Inr [simp]: "sum_bind (Inr a) f = f a"
  by (simp add: sum_bind_def)

section \<open>Characters\<close>

text \<open>Decimal digits are the characters with codes 48 to 57.\<close>

definition is_dec_digit :: "char \<Rightarrow> bool" where
  "is_dec_digit c \<longleftrightarrow> 48 \<le> (of_char c :: nat) \<and> (of_char c :: nat) \<le> 57"

definition dec_digit_char :: "nat \<Rightarrow> char" where
  "dec_digit_char d = char_of (48 + d)"

lemma of_char_dec_digit_char [simp]:
  "d < 10 \<Longrightarrow> (of_char (dec_digit_char d) :: nat) = 48 + d"
  by (simp add: dec_digit_char_def)

lemma is_dec_digit_dec_digit_char [simp]:
  "d < 10 \<Longrightarrow> is_dec_digit (dec_digit_char d)"
  by (simp add: is_dec_digit_def)

section \<open>Lists\<close>

lemma takeWhile_all_eq [simp]:
  "list_all P xs \<Longrightarrow> takeWhile P xs = xs"
  by (simp add: list_all_iff takeWhile_eq_all_conv)

lemma dropWhile_all_eq [simp]:
  "list_all P xs \<Longrightarrow> dropWhile P xs = []"
  by (simp add: list_all_iff)

lemma takeWhile_append_stop:
  "list_all P xs \<Longrightarrow> \<not> P y \<Longrightarrow> takeWhile P (xs @ y # ys) = xs"
  by (simp add: list_all_iff takeWhile_append2)

section \<open>Sums over a finite set of accounts\<close>

text \<open>
  Moving an amount between two distinct points of a function keeps its sum
  over any finite set holding both points: the bookkeeping fact behind every
  token transfer.
\<close>

lemma sum_upd_point:
  fixes f :: "'a \<Rightarrow> nat"
  assumes "finite S" "a \<in> S"
  shows "(\<Sum>x\<in>S. (f(a := v)) x) + f a = (\<Sum>x\<in>S. f x) + v"
proof -
  have "(\<Sum>x\<in>S - {a}. (f(a := v)) x) = (\<Sum>x\<in>S - {a}. f x)"
    by (rule sum.cong) auto
  with assms show ?thesis
    by (simp add: sum.remove)
qed

lemma sum_move:
  fixes f :: "'a \<Rightarrow> nat"
  assumes "finite S" "a \<in> S" "b \<in> S" "a \<noteq> b" "k \<le> f a"
  shows "(\<Sum>x\<in>S. (f(a := f a - k, b := f b + k)) x) = (\<Sum>x\<in>S. f x)"
proof -
  let ?g = "f(a := f a - k)"
  have 1: "(\<Sum>x\<in>S. (?g(b := f b + k)) x) + ?g b = (\<Sum>x\<in>S. ?g x) + (f b + k)"
    using assms(1,3) by (rule sum_upd_point)
  have 2: "(\<Sum>x\<in>S. ?g x) + f a = (\<Sum>x\<in>S. f x) + (f a - k)"
    using assms(1,2) by (rule sum_upd_point)
  from 1 2 assms(4,5) show ?thesis by simp
qed

end
