(* ===== verification/Js_Number.thy ===== *)
theory Js_Number
  imports Prelude
begin

text \<open>
  The ECMAScript Number semantics that the swap form relies on: the IEEE-754
  binary64 rounding of an exact rational (the spec's \<open>\<bbbF>(x)\<close>), Number
  multiplication, \<open>ToBoolean\<close>, \<open>parseInt\<close> and \<open>parseFloat\<close> without radix,
  and the decimal rendering of integral Numbers.  A Number is \<open>NaN\<close>, an
  infinity or a finite value; a finite value is held as the exact rational it
  denotes.  Negative zero is not distinguished from zero: every use of a
  Number in the program (\<open>new BN\<close>, \<open>!x\<close>) treats the two alike.
\<close>

section \<open>Numbers\<close>

datatype js_num = NaN | PosInf | NegInf | Fin rat

subsection \<open>Rounding to binary64\<close>

text \<open>Round to the nearest integer, ties to even.\<close>

definition round_half_even :: "rat \<Rightarrow> int" where
  "round_half_even x =
     (let f = \<lfloor>x\<rfloor>; d = x - of_int f in
      if d < 1/2 then f else if 1/2 < d then f + 1 else if even f then f else f + 1)"

text \<open>
  \<open>\<lfloor>log\<^sub>2 q\<rfloor>\<close> of a positive rational \<open>a / b\<close>: the difference of the bit
  lengths of \<open>a\<close> and \<open>b\<close> is the answer or one more.
\<close>

definition ilog2_rat :: "rat \<Rightarrow> int" where
  "ilog2_rat q =
     (let (a, b) = quotient_of q; k = bitlen a - bitlen b in
      if q < power_int 2 k then k - 1 else k)"

text \<open>
  The exponent of the last mantissa bit: 52 bits below the leading one, but
  never below the subnormal quantum \<open>2\<^sup>-\<^sup>1\<^sup>0\<^sup>7\<^sup>4\<close>.
\<close>

definition quantum_exp :: "rat \<Rightarrow> int" where
  "quantum_exp q = max (ilog2_rat \<bar>q\<bar> - 52) (-1074)"

definition round_binary64 :: "rat \<Rightarrow> rat" where
  "round_binary64 q =
     (if q = 0 then 0
      else let e = quantum_exp q in of_int (round_half_even (q / power_int 2 e)) * power_int 2 e)"

text \<open>
  The Number value of an exact rational: rounded to binary64, and an infinity
  when the rounded magnitude reaches \<open>2\<^sup>1\<^sup>0\<^sup>2\<^sup>4\<close> (round to nearest overflows
  exactly there).
\<close>

definition number_value :: "rat \<Rightarrow> js_num" where
  "number_value q =
     (let r = round_binary64 q in
      if 2 ^ 1024 \<le> \<bar>r\<bar> then (if 0 < q then PosInf else NegInf) else Fin r)"

definition MAX_SAFE_INTEGER :: nat where
  "MAX_SAFE_INTEGER = 2 ^ 53 - 1"

subsection \<open>Operations\<close>

text \<open>\<open>Number::multiply\<close> (ECMAScript 6.1.6.1.4).\<close>

fun js_mul :: "js_num \<Rightarrow> js_num \<Rightarrow> js_num" where
  "js_mul NaN y = NaN"
| "js_mul x NaN = NaN"
| "js_mul (Fin x) (Fin y) = number_value (x * y)"
| "js_mul PosInf (Fin y) = (if y = 0 then NaN else if 0 < y then PosInf else NegInf)"
| "js_mul NegInf (Fin y) = (if y = 0 then NaN else if 0 < y then NegInf else PosInf)"
| "js_mul (Fin x) PosInf = (if x = 0 then NaN else if 0 < x then PosInf else NegInf)"
| "js_mul (Fin x) NegInf = (if x = 0 then NaN else if 0 < x then NegInf else PosInf)"
| "js_mul PosInf PosInf = PosInf"
| "js_mul PosInf NegInf = NegInf"
| "js_mul NegInf PosInf = NegInf"
| "js_mul NegInf NegInf = PosInf"

text \<open>\<open>ToBoolean\<close> of a Number: \<open>NaN\<close> and zero are falsy.\<close>

fun js_truthy :: "js_num \<Rightarrow> bool" where
  "js_truthy NaN = False"
| "js_truthy (Fin x) = (x \<noteq> 0)"
| "js_truthy PosInf = True"
| "js_truthy NegInf = True"

text \<open>
  \<open>ToBoolean\<close> of a \<open>number | null\<close> React state: \<open>null\<close> is falsy, so
  \<open>!offerId\<close> holds for \<open>null\<close>, \<open>0\<close> and \<open>NaN\<close>.
\<close>

definition nullable_truthy :: "js_num option \<Rightarrow> bool" where
  "nullable_truthy v = (case v of None \<Rightarrow> False | Some x \<Rightarrow> js_truthy x)"

section \<open>Decimal strings\<close>

fun nat_to_dec :: "nat \<Rightarrow> string" where
  "nat_to_dec n =
     (if n < 10 then [dec_digit_char n] else nat_to_dec (n div 10) @ [dec_digit_char (n mod 10)])"

declare nat_to_dec.simps [simp del]

text \<open>The value of a string of digits in a radix, most significant first.\<close>

definition radix_digit :: "nat \<Rightarrow> char \<Rightarrow> nat option" where
  "radix_digit r c =
     (let n = (of_char c :: nat);
          d = (if 48 \<le> n \<and> n \<le> 57 then n - 48
               else if 97 \<le> n \<and> n \<le> 122 then n - 87
               else if 65 \<le> n \<and> n \<le> 90 then n - 55 else 36)
      in if d < r then Some d else None)"

definition radix_value :: "nat \<Rightarrow> string \<Rightarrow> nat" where
  "radix_value r ds = foldl (\<lambda>acc c. r * acc + (case radix_digit r c of Some d \<Rightarrow> d | None \<Rightarrow> 0)) 0 ds"

text \<open>
  \<open>Number::toString\<close> for the Numbers the page renders: an integral value below
  \<open>10\<^sup>2\<^sup>1\<close> prints as its decimal digits; other finite values print in a
  shortest-round-trip form this model does not compute (\<open>None\<close>).
\<close>

definition number_to_string :: "js_num \<Rightarrow> string option" where
  "number_to_string v =
     (case v of
        NaN \<Rightarrow> Some ''NaN''
      | PosInf \<Rightarrow> Some ''Infinity''
      | NegInf \<Rightarrow> Some ''-Infinity''
      | Fin x \<Rightarrow>
          if x = of_int \<lfloor>x\<rfloor> \<and> \<bar>x\<bar> < 10 ^ 21
          then Some ((if x < 0 then ''-'' else []) @ nat_to_dec (nat \<bar>\<lfloor>x\<rfloor>\<bar>))
          else None)"

section \<open>parseInt and parseFloat\<close>

text \<open>
  \<open>StrWhiteSpaceChar\<close> restricted to the one-byte characters: tab, line feed,
  vertical tab, form feed, carriage return and space.
\<close>

definition js_space :: "char \<Rightarrow> bool" where
  "js_space c \<longleftrightarrow> (of_char c :: nat) \<in> {9, 10, 11, 12, 13, 32}"

definition trim_start :: "string \<Rightarrow> string" where
  "trim_start s = dropWhile js_space s"

text \<open>A leading sign: \<open>True\<close> for minus, and the rest of the string.\<close>

definition strip_sign :: "string \<Rightarrow> bool \<times> string" where
  "strip_sign s =
     (case s of
        c # t \<Rightarrow> if c = CHR ''-'' then (True, t) else if c = CHR ''+'' then (False, t) else (False, s)
      | [] \<Rightarrow> (False, []))"

text \<open>
  \<open>parseInt(string)\<close> with no radix (ECMAScript 19.2.5): trim, take the sign,
  strip a \<open>0x\<close> or \<open>0X\<close> prefix and read hexadecimal, else decimal; the longest
  run of digits of the radix is the value, \<open>NaN\<close> when it is empty.
\<close>

definition js_parse_int :: "string \<Rightarrow> js_num" where
  "js_parse_int str =
     (let (neg, s) = strip_sign (trim_start str);
          (r, s') = (if take 2 s = ''0x'' \<or> take 2 s = ''0X'' then (16, drop 2 s) else (10, s));
          z = takeWhile (\<lambda>c. radix_digit r c \<noteq> None) s'
      in if z = [] then NaN
         else number_value ((if neg then -1 else 1) * of_nat (radix_value r z)))"

text \<open>The exponent of \<open>StrDecimalLiteral\<close>: \<open>e\<close> or \<open>E\<close>, a sign, digits.\<close>

definition exponent_part :: "string \<Rightarrow> int" where
  "exponent_part s =
     (case s of
        c # t \<Rightarrow>
          if c = CHR ''e'' \<or> c = CHR ''E'' then
            (let (neg, u) = strip_sign t; ds = takeWhile is_dec_digit u in
             if ds = [] then 0
             else (if neg then - int (radix_value 10 ds) else int (radix_value 10 ds)))
          else 0
      | [] \<Rightarrow> 0)"

text \<open>
  \<open>parseFloat(string)\<close> (ECMAScript 19.2.4): the longest prefix of the trimmed
  string that is a \<open>StrDecimalLiteral\<close>, rounded to a Number; \<open>NaN\<close> when no
  prefix is one.
\<close>

definition js_parse_float :: "string \<Rightarrow> js_num" where
  "js_parse_float str =
     (let (neg, s) = strip_sign (trim_start str) in
      if take 8 s = ''Infinity'' then (if neg then NegInf else PosInf)
      else
        let d1 = takeWhile is_dec_digit s;
            r1 = dropWhile is_dec_digit s;
            (d2, r2) = (case r1 of
                          c # t \<Rightarrow> if c = CHR ''.'' then (takeWhile is_dec_digit t, dropWhile is_dec_digit t)
                                   else ([], r1)
                        | [] \<Rightarrow> ([], []))
        in if d1 = [] \<and> d2 = [] then NaN
           else number_value ((if neg then -1 else 1) * of_nat (radix_value 10 (d1 @ d2))
                              / 10 ^ length d2 * power_int 10 (exponent_part r2)))"

section \<open>Binary64 rounding: bounds and exactness\<close>

lemma pow2_le_iff [simp]: "power_int (2::rat) m \<le> power_int 2 n \<longleftrightarrow> m \<le> n"
proof
  assume "power_int (2::rat) m \<le> power_int 2 n"
  then show "m \<le> n"
    using power_int_strict_increasing [of n m "2::rat"] by (meson linorder_not_le one_less_numeral_iff semiring_norm(76) order.strict_iff_not)
next
  assume "m \<le> n"
  then show "power_int (2::rat) m \<le> power_int 2 n"
    by (rule power_int_increasing) simp
qed

lemma pow2_less_iff [simp]: "power_int (2::rat) m < power_int 2 n \<longleftrightarrow> m < n"
  by (meson linorder_not_le pow2_le_iff)

lemma pow2_of_int: "0 \<le> k \<Longrightarrow> power_int (2::rat) k = 2 ^ nat k"
  by (rule power_int_nonneg_exp)

lemma ilog2_rat_bounds:
  assumes "0 < q"
  shows "power_int 2 (ilog2_rat q) \<le> q \<and> q < power_int 2 (ilog2_rat q + 1)"
proof -
  obtain a b where ab: "quotient_of q = (a, b)" by (cases "quotient_of q")
  have b0: "0 < b" using ab by (rule quotient_of_denom_pos)
  have qab: "q = of_int a / of_int b" using ab by (rule quotient_of_div)
  have a0: "0 < a" using assms b0 qab by (simp add: zero_less_divide_iff)
  define la where "la = bitlen a"
  define lb where "lb = bitlen b"
  have la1: "1 \<le> la" using a0 by (simp add: la_def bitlen_alt_def)
  have lb1: "1 \<le> lb" using b0 by (simp add: lb_def bitlen_alt_def)
  have "2 ^ nat (la - 1) \<le> a \<and> a < 2 ^ nat la" using bitlen_bounds [OF a0] by (simp add: la_def)
  then have A: "power_int 2 (la - 1) \<le> (of_int a :: rat)" "(of_int a :: rat) < power_int 2 la"
    using la1 by (simp_all add: pow2_of_int)
  have "2 ^ nat (lb - 1) \<le> b \<and> b < 2 ^ nat lb" using bitlen_bounds [OF b0] by (simp add: lb_def)
  then have B: "power_int 2 (lb - 1) \<le> (of_int b :: rat)" "(of_int b :: rat) < power_int 2 lb"
    using lb1 by (simp_all add: pow2_of_int)
  have bpos: "(0::rat) < of_int b" using b0 by simp
  have lo: "power_int 2 (la - lb - 1) < q"
  proof -
    have "power_int 2 (la - lb - 1) * of_int b < power_int 2 (la - lb - 1) * power_int (2::rat) lb"
      using B(2) by simp
    also have "\<dots> = power_int 2 (la - 1)" by (simp flip: power_int_add)
    also have "\<dots> \<le> of_int a" by (rule A(1))
    finally show ?thesis using bpos qab by (simp add: pos_less_divide_eq)
  qed
  have hi: "q < power_int 2 (la - lb + 1)"
  proof -
    have "of_int a < power_int (2::rat) la" by (rule A(2))
    also have "\<dots> = power_int 2 (la - lb + 1) * power_int 2 (lb - 1)" by (simp flip: power_int_add)
    also have "\<dots> \<le> power_int 2 (la - lb + 1) * of_int b" using B(1) by simp
    finally show ?thesis using bpos qab by (simp add: divide_less_eq)
  qed
  show ?thesis
    using lo hi by (auto simp: ilog2_rat_def ab la_def lb_def Let_def)
qed


lemma round_half_even_err: "\<bar>of_int (round_half_even x) - x\<bar> \<le> 1 / 2"
proof -
  have f: "of_int \<lfloor>x\<rfloor> \<le> x" "x < of_int \<lfloor>x\<rfloor> + 1" by linarith+
  then show ?thesis by (auto simp: round_half_even_def Let_def abs_if; linarith)
qed

lemma round_half_even_of_int [simp]: "round_half_even (of_int n) = n"
  by (simp add: round_half_even_def)

lemma ilog2_rat_unique:
  assumes "power_int 2 k \<le> q" "q < power_int 2 (k + 1)"
  shows "ilog2_rat q = k"
proof -
  have q0: "0 < q" using assms(1) by (meson less_le_trans zero_less_numeral zero_less_power_int)
  from ilog2_rat_bounds [OF q0] assms
  have "power_int 2 (ilog2_rat q) < power_int (2::rat) (k + 1)" "power_int 2 k < power_int (2::rat) (ilog2_rat q + 1)"
    by linarith+
  then show ?thesis by simp
qed

lemma round_binary64_exact:
  assumes "q / power_int 2 (quantum_exp q) = of_int m"
  shows "round_binary64 q = q"
proof -
  have "q = of_int m * power_int 2 (quantum_exp q)"
    using assms by (simp add: divide_eq_eq)
  then show ?thesis
    unfolding round_binary64_def Let_def assms by simp
qed

lemma round_binary64_err:
  "\<bar>round_binary64 q - q\<bar> \<le> power_int 2 (quantum_exp q) / 2"
proof (cases "q = 0")
  case True then show ?thesis by (simp add: round_binary64_def)
next
  case False
  define p where "p = power_int (2::rat) (quantum_exp q)"
  have p0: "0 < p" by (simp add: p_def)
  have "round_binary64 q - q = (of_int (round_half_even (q / p)) - q / p) * p"
    using False p0 by (simp add: round_binary64_def Let_def p_def algebra_simps)
  then have "\<bar>round_binary64 q - q\<bar> = \<bar>of_int (round_half_even (q / p)) - q / p\<bar> * p"
    using p0 by (simp add: abs_mult)
  also have "\<dots> \<le> 1 / 2 * p"
    using p0 by (intro mult_right_mono round_half_even_err) simp
  finally show ?thesis by (simp add: p_def)
qed

lemma round_binary64_rel_err:
  assumes "power_int 2 (-1022) \<le> \<bar>q\<bar>"
  shows "\<bar>round_binary64 q - q\<bar> \<le> \<bar>q\<bar> / 2 ^ 53"
proof -
  have q0: "0 < \<bar>q\<bar>" using assms by (meson less_le_trans zero_less_numeral zero_less_power_int)
  define L where "L = ilog2_rat \<bar>q\<bar>"
  have bnd: "power_int 2 L \<le> \<bar>q\<bar>" "\<bar>q\<bar> < power_int 2 (L + 1)"
    using ilog2_rat_bounds [OF q0] by (simp_all add: L_def)
  have "power_int 2 (-1022) < power_int (2::rat) (L + 1)" using assms bnd(2) by linarith
  then have "-1022 < L + 1" by (simp only: pow2_less_iff)
  then have "-1022 \<le> L" by simp
  then have e: "quantum_exp q = L - 52" by (simp add: quantum_exp_def L_def)
  have "\<bar>round_binary64 q - q\<bar> \<le> power_int 2 (L - 52) / 2"
    using round_binary64_err [of q] by (simp add: e)
  also have "power_int 2 (L - 52) / 2 = power_int (2::rat) L / 2 ^ 53"
    by (simp add: power_int_diff)
  also have "\<dots> \<le> \<bar>q\<bar> / 2 ^ 53"
    using bnd(1) by (simp add: divide_right_mono)
  finally show ?thesis .
qed


lemma ilog2_rat_int_range:
  assumes "n \<noteq> 0" "\<bar>n\<bar> \<le> 2 ^ 53"
  shows "0 \<le> ilog2_rat \<bar>of_int n\<bar> \<and> ilog2_rat \<bar>of_int n\<bar> \<le> 53"
proof -
  define L where "L = ilog2_rat \<bar>of_int n :: rat\<bar>"
  have q0: "(0::rat) < \<bar>of_int n\<bar>" using assms(1) by simp
  have bnd: "power_int 2 L \<le> \<bar>of_int n :: rat\<bar>" "\<bar>of_int n :: rat\<bar> < power_int 2 (L + 1)"
    using ilog2_rat_bounds [OF q0] by (simp_all add: L_def)
  have "\<bar>of_int n :: rat\<bar> \<le> power_int 2 53" using assms(2) by simp
  with bnd(1) have "power_int 2 L \<le> power_int (2::rat) 53" by linarith
  then have hi: "L \<le> 53" by (simp only: pow2_le_iff)
  have "(1::rat) \<le> \<bar>of_int n\<bar>" using assms(1) by simp
  with bnd(2) have "power_int 2 0 < power_int (2::rat) (L + 1)" by simp
  then have "0 < L + 1" by (simp only: pow2_less_iff)
  with hi show ?thesis by (simp add: L_def)
qed

lemma round_binary64_int:
  assumes "\<bar>n\<bar> \<le> 2 ^ 53"
  shows "round_binary64 (of_int n) = of_int n"
proof (cases "n = 0")
  case True then show ?thesis by (simp add: round_binary64_def)
next
  case False
  define L where "L = ilog2_rat \<bar>of_int n :: rat\<bar>"
  have L: "0 \<le> L" "L \<le> 53" using ilog2_rat_int_range [OF False assms] by (simp_all add: L_def)
  have e: "quantum_exp (of_int n :: rat) = L - 52" using L by (simp add: quantum_exp_def L_def)
  show ?thesis
  proof (cases "L \<le> 52")
    case True
    have "L - 52 = - int (nat (52 - L))" using True by simp
    then have "power_int (2::rat) (L - 52) = inverse (2 ^ nat (52 - L))"
      by (simp only: power_int_minus power_int_of_nat)
    then have "of_int n / power_int 2 (quantum_exp (of_int n :: rat)) = (of_int (n * 2 ^ nat (52 - L)) :: rat)"
      by (simp add: e divide_inverse)
    then show ?thesis by (rule round_binary64_exact)
  next
    case False
    then have L53: "L = 53" using L by simp
    have "power_int 2 L \<le> \<bar>of_int n :: rat\<bar>"
      using ilog2_rat_bounds [of "\<bar>of_int n :: rat\<bar>"] \<open>n \<noteq> 0\<close> by (simp add: L_def)
    then have "2 ^ 53 \<le> \<bar>n\<bar>" using L53 by simp
    with assms have "\<bar>n\<bar> = 2 ^ 53" by simp
    then have "n = 2 ^ 53 \<or> n = - (2 ^ 53)" by linarith
    then have "n = 2 * (n div 2)" by auto
    then have "(of_int n :: rat) = 2 * of_int (n div 2)" by (metis of_int_mult of_int_numeral)
    then have "of_int n / power_int 2 (quantum_exp (of_int n :: rat)) = (of_int (n div 2) :: rat)"
      using L53 e by simp
    then show ?thesis by (rule round_binary64_exact)
  qed
qed

lemma number_value_int:
  assumes "\<bar>n\<bar> \<le> 2 ^ 53"
  shows "number_value (of_int n) = Fin (of_int n)"
proof -
  have "\<bar>of_int n :: rat\<bar> < 2 ^ 1024"
    using assms by simp
  then show ?thesis
    using round_binary64_int [OF assms] by (simp add: number_value_def Let_def)
qed

section \<open>Decimal rendering read back by parseInt\<close>

lemma radix_digit_dec [simp]: "d < 10 \<Longrightarrow> radix_digit r (dec_digit_char d) = (if d < r then Some d else None)"
  by (simp add: radix_digit_def)

lemma nat_to_dec_digits: "set (nat_to_dec n) \<subseteq> dec_digit_char ` {..<10}"
  by (induction n rule: nat_to_dec.induct) (subst nat_to_dec.simps, auto)

lemma radix_value_snoc: "radix_value r (ds @ [c]) = r * radix_value r ds + (case radix_digit r c of Some d \<Rightarrow> d | None \<Rightarrow> 0)"
  by (simp add: radix_value_def)

lemma radix_value_nat_to_dec [simp]: "radix_value 10 (nat_to_dec n) = n"
proof (induction n rule: nat_to_dec.induct)
  case (1 n)
  show ?case
  proof (cases "n < 10")
    case True then show ?thesis by (subst nat_to_dec.simps) (simp add: radix_value_def)
  next
    case False
    with "1.IH" show ?thesis by (subst nat_to_dec.simps) (simp add: radix_value_snoc)
  qed
qed

lemma nat_to_dec_ne [simp]: "nat_to_dec n \<noteq> []"
  by (subst nat_to_dec.simps) simp

lemma nat_to_dec_char_code:
  "c \<in> set (nat_to_dec n) \<Longrightarrow> 48 \<le> (of_char c :: nat) \<and> (of_char c :: nat) \<le> 57"
  using nat_to_dec_digits [of n] by auto

lemma nat_to_dec_radix10: "list_all (\<lambda>c. radix_digit 10 c \<noteq> None) (nat_to_dec n)"
  using nat_to_dec_digits [of n] by (auto simp: list_all_iff)

lemma nat_to_dec_trim [simp]: "trim_start (nat_to_dec n) = nat_to_dec n"
proof -
  obtain c t where ct: "nat_to_dec n = c # t" by (cases "nat_to_dec n") auto
  then have "\<not> js_space c" using nat_to_dec_char_code [of c n] by (auto simp: js_space_def)
  then show ?thesis by (simp add: trim_start_def ct)
qed

lemma nat_to_dec_sign [simp]: "strip_sign (nat_to_dec n) = (False, nat_to_dec n)"
proof -
  obtain c t where ct: "nat_to_dec n = c # t" by (cases "nat_to_dec n") auto
  then have "c \<noteq> CHR ''-''" "c \<noteq> CHR ''+''" using nat_to_dec_char_code [of c n] by auto
  then show ?thesis by (simp add: strip_sign_def ct)
qed

lemma nat_to_dec_no_hex: "take 2 (nat_to_dec n) \<noteq> ''0x'' \<and> take 2 (nat_to_dec n) \<noteq> ''0X''"
proof -
  have "CHR ''x'' \<notin> set (nat_to_dec n)" "CHR ''X'' \<notin> set (nat_to_dec n)"
    using nat_to_dec_char_code [of "CHR ''x''" n] nat_to_dec_char_code [of "CHR ''X''" n] by auto
  then show ?thesis by (metis in_set_takeD list.set_intros(1) list.set_intros(2))
qed

lemma js_parse_int_nat_to_dec:
  "js_parse_int (nat_to_dec n) = number_value (of_nat n)"
  using nat_to_dec_no_hex [of n] nat_to_dec_radix10 [of n]
  by (simp add: js_parse_int_def)

lemma number_value_nat:
  "n \<le> 2 ^ 53 \<Longrightarrow> number_value (of_nat n) = Fin (of_nat n)"
  using number_value_int [of "int n"] by simp

lemma trim_start_minus [simp]: "trim_start (CHR ''-'' # t) = CHR ''-'' # t"
  by (simp add: trim_start_def js_space_def)

lemma js_parse_int_neg_dec:
  "js_parse_int (CHR ''-'' # nat_to_dec n) = number_value (- of_nat n)"
  using nat_to_dec_no_hex [of n] nat_to_dec_radix10 [of n]
  by (simp add: js_parse_int_def strip_sign_def)

lemma parse_int_number_to_string:
  assumes "number_to_string (Fin (of_int k)) = Some t" "\<bar>k\<bar> \<le> 2 ^ 53"
  shows "js_parse_int t = Fin (of_int k)"
proof (cases "k < 0")
  case True
  then have "t = CHR ''-'' # nat_to_dec (nat (- k))" using assms(1)
    by (simp add: number_to_string_def split: if_splits)
  moreover have "number_value (- of_nat (nat (- k))) = Fin (of_int k)"
    using number_value_int [of k] assms(2) True by simp
  ultimately show ?thesis by (simp add: js_parse_int_neg_dec)
next
  case False
  then have "t = nat_to_dec (nat k)" using assms(1)
    by (simp add: number_to_string_def split: if_splits)
  moreover have "number_value (of_nat (nat k)) = Fin (of_int k)"
    using number_value_int [of k] assms(2) False by simp
  ultimately show ?thesis by (simp add: js_parse_int_nat_to_dec)
qed

text \<open>Rounding is symmetric: negating a rational negates its Number value.\<close>

lemma floor_neg_nonint:
  assumes "x \<noteq> of_int \<lfloor>x\<rfloor>"
  shows "\<lfloor>- x\<rfloor> = - \<lfloor>x\<rfloor> - 1"
proof -
  have "of_int \<lfloor>x\<rfloor> < x" using assms of_int_floor_le [of x] by linarith
  moreover have "x < of_int \<lfloor>x\<rfloor> + 1" by (rule floor_correct [THEN conjunct2, simplified])
  ultimately show ?thesis by (simp add: floor_eq_iff)
qed

lemma round_half_even_neg: "round_half_even (- x) = - round_half_even x"
proof (cases "x = of_int \<lfloor>x\<rfloor>")
  case True
  then show ?thesis by (metis round_half_even_of_int of_int_minus)
next
  case False
  have fl: "\<lfloor>- x\<rfloor> = - \<lfloor>x\<rfloor> - 1" using floor_neg_nonint [OF False] .
  have d: "- x - of_int (- \<lfloor>x\<rfloor> - 1) = 1 - (x - of_int \<lfloor>x\<rfloor>)" by simp
  show ?thesis
    unfolding round_half_even_def Let_def fl d
    by (auto simp: even_minus)
qed

lemma round_binary64_neg: "round_binary64 (- q) = - round_binary64 q"
  by (simp add: round_binary64_def quantum_exp_def Let_def round_half_even_neg)

lemma round_binary64_zero [simp]: "round_binary64 0 = 0"
  by (simp add: round_binary64_def)

lemma number_value_neg:
  "number_value (- q) =
     (case number_value q of Fin r \<Rightarrow> Fin (- r) | PosInf \<Rightarrow> NegInf | NegInf \<Rightarrow> PosInf | NaN \<Rightarrow> NaN)"
  by (cases "q = 0") (auto simp: number_value_def Let_def round_binary64_neg)

end
