(* ===== verification/Bn_Buffer.thy ===== *)
theory Bn_Buffer
  imports Js_Number
begin

text \<open>
  The byte-level library calls of the client and the test: the \<open>bn.js\<close>
  constructor from a JavaScript Number (\<open>new BN(n)\<close>, through
  \<open>_initNumber\<close> and its 26-bit words), \<open>BN.toArrayLike(Buffer, 'le', len)\<close>,
  the Borsh \<open>u64\<close> encoding Anchor applies to instruction arguments,
  \<open>new BN(buffer)\<close> (big endian), \<open>DataView.getBigUint64(0, true)\<close> and
  \<open>Buffer.from(string)\<close>.  Every failed assertion of these libraries is a
  value of \<open>lib_error\<close>.
\<close>

unbundle bit_operations_syntax

section \<open>Errors of the library calls\<close>

datatype lib_error =
    BnAssertion                  \<comment> \<open>\<open>assert(number < 0x20000000000000)\<close> in \<open>_initNumber\<close>\<close>
  | ByteArrayTooLong             \<comment> \<open>\<open>byte array longer than desired length\<close>\<close>
  | InvalidPublicKey string      \<comment> \<open>\<open>new PublicKey(s)\<close> on a string that is no key\<close>
  | NoViableBump                 \<comment> \<open>\<open>findProgramAddressSync\<close> found no off-curve address\<close>
  | TokenOwnerOffCurve           \<comment> \<open>\<open>getAssociatedTokenAddressSync\<close> on an off-curve owner\<close>

section \<open>new BN(number)\<close>

text \<open>\<open>ToInt32\<close>: truncate toward zero, then reduce into \<open>[-2\<^sup>3\<^sup>1, 2\<^sup>3\<^sup>1)\<close>.\<close>

definition js_trunc :: "rat \<Rightarrow> int" where
  "js_trunc x = (if 0 \<le> x then \<lfloor>x\<rfloor> else - \<lfloor>- x\<rfloor>)"

definition to_int32 :: "rat \<Rightarrow> int" where
  "to_int32 x = (let t = js_trunc x mod 2 ^ 32 in if 2 ^ 31 \<le> t then t - 2 ^ 32 else t)"

text \<open>
  \<open>_initNumber\<close> on a non-negative Number: one, two or three 26-bit words
  \<open>number & 0x3ffffff\<close>, \<open>(number / 0x4000000) & 0x3ffffff\<close> and \<open>1\<close>, guarded
  by \<open>number < 0x4000000\<close>, \<open>number < 0x10000000000000\<close> and the assertion
  \<open>number < 0x20000000000000\<close>.
\<close>

definition bn_words :: "rat \<Rightarrow> lib_error + int list" where
  "bn_words x =
     (if x < 67108864 then Inr [to_int32 x AND 67108863]
      else if x < 4503599627370496 then Inr [to_int32 x AND 67108863, to_int32 (x / 67108864) AND 67108863]
      else if x < 9007199254740992 then Inr [to_int32 x AND 67108863, to_int32 (x / 67108864) AND 67108863, 1]
      else Inl BnAssertion)"

text \<open>The magnitude the little-endian words denote, in base \<open>2\<^sup>2\<^sup>6\<close>.\<close>

definition words_value :: "int list \<Rightarrow> int" where
  "words_value ws = foldr (\<lambda>w acc. w + 67108864 * acc) ws 0"

text \<open>
  \<open>new BN(number)\<close>: \<open>number || 0\<close> sends \<open>NaN\<close> and zero to zero; a negative
  number sets the sign and continues with its magnitude; an infinity fails the
  assertion.  The BN is returned as the signed integer it denotes.
\<close>

definition bn_of_number :: "js_num \<Rightarrow> lib_error + int" where
  "bn_of_number v =
     (case v of
        NaN \<Rightarrow> Inr 0
      | PosInf \<Rightarrow> Inl BnAssertion
      | NegInf \<Rightarrow> Inl BnAssertion
      | Fin x \<Rightarrow>
          if x = 0 then Inr 0
          else (case bn_words \<bar>x\<bar> of
                  Inl e \<Rightarrow> Inl e
                | Inr ws \<Rightarrow> Inr (if x < 0 then - words_value ws else words_value ws)))"

section \<open>Byte buffers\<close>

text \<open>
  \<open>BN.byteLength()\<close> and \<open>BN.toArrayLike(Buffer, 'le', len)\<close>: the magnitude,
  least significant byte first, zero-padded to \<open>len\<close>; the sign is dropped.
\<close>

definition byte_length :: "int \<Rightarrow> nat" where
  "byte_length m = nat ((bitlen \<bar>m\<bar> + 7) div 8)"

definition le_bytes :: "nat \<Rightarrow> nat \<Rightarrow> byte list" where
  "le_bytes len m = map (\<lambda>i. of_nat (m div 256 ^ i mod 256)) [0..<len]"

definition to_array_like_le :: "nat \<Rightarrow> int \<Rightarrow> lib_error + byte list" where
  "to_array_like_le len n =
     (if len < byte_length n then Inl ByteArrayTooLong else Inr (le_bytes len (nat \<bar>n\<bar>)))"

text \<open>
  Borsh's \<open>u64\<close> layout, as Anchor encodes an instruction argument:
  \<open>src.toArrayLike(Buffer, 'le', 8)\<close>.
\<close>

definition borsh_u64 :: "int \<Rightarrow> lib_error + byte list" where
  "borsh_u64 n = to_array_like_le 8 n"

text \<open>Reading bytes back: little endian (\<open>getBigUint64(0, true)\<close>) and big endian (\<open>new BN(buffer)\<close>).\<close>

definition le_value :: "byte list \<Rightarrow> nat" where
  "le_value bs = foldr (\<lambda>b acc. unat b + 256 * acc) bs 0"

definition be_value :: "byte list \<Rightarrow> nat" where
  "be_value bs = foldl (\<lambda>acc b. 256 * acc + unat b) 0 bs"

definition get_big_uint64_le :: "byte list \<Rightarrow> nat" where
  "get_big_uint64_le bs = le_value (take 8 bs)"

text \<open>\<open>Buffer.from(s)\<close> is the UTF-8 encoding; a HOL string is a byte string already.\<close>

definition buffer_from :: "string \<Rightarrow> byte list" where
  "buffer_from s = map (\<lambda>c. of_nat (of_char c)) s"

section \<open>Properties of the library calls\<close>

lemma and_26_mask: "(k::int) AND 67108863 = k mod 67108864"
proof -
  have "k AND mask 26 = k mod 2 ^ 26" by (simp add: take_bit_eq_mask [symmetric] take_bit_eq_mod)
  moreover have "mask 26 = (67108863::int)" by (simp add: mask_eq_exp_minus_1)
  ultimately show ?thesis by simp
qed

lemma floor_div_pos: "0 < (n::int) \<Longrightarrow> \<lfloor>x / of_int n :: rat\<rfloor> = \<lfloor>x\<rfloor> div n"
proof -
  assume n: "0 < n"
  define k where "k = \<lfloor>x\<rfloor> div n"
  define r where "r = \<lfloor>x\<rfloor> mod n"
  have d: "\<lfloor>x\<rfloor> = k * n + r" by (simp add: k_def r_def)
  have r: "0 \<le> r" "r < n" using n by (simp_all add: r_def)
  have "of_int (k * n) \<le> x" using d r by linarith
  then have lo: "of_int k \<le> x / of_int n" using n by (simp add: le_divide_eq)
  have i: "\<lfloor>x\<rfloor> + 1 \<le> (k + 1) * n" using d r by (simp add: distrib_right)
  have "x < of_int (\<lfloor>x\<rfloor> + 1)" using floor_correct [of x] by blast
  also have "\<dots> \<le> of_int ((k + 1) * n)" using i by (simp only: of_int_le_iff)
  finally have "x < of_int ((k + 1) * n)" .
  then have hi: "x / of_int n < of_int k + 1" using n by (simp add: divide_less_eq)
  from lo hi show ?thesis by (simp add: floor_eq_iff k_def)
qed

lemma js_trunc_nonneg [simp]: "0 \<le> x \<Longrightarrow> js_trunc x = \<lfloor>x\<rfloor>"
  by (simp add: js_trunc_def)

lemma js_trunc_of_int [simp]: "js_trunc (of_int k) = k"
  by (simp add: js_trunc_def)

lemma to_int32_mask: "to_int32 x AND 67108863 = js_trunc x mod 67108864"
proof -
  define t where "t = js_trunc x mod 4294967296"
  have a: "t mod 67108864 = js_trunc x mod 67108864"
    unfolding t_def by (rule mod_mod_cancel) simp
  have "(t - 4294967296) mod 67108864 = (t mod 67108864 - 4294967296 mod 67108864) mod 67108864"
    by (rule mod_diff_eq [symmetric])
  then have b: "(t - 4294967296) mod 67108864 = t mod 67108864" by simp
  have "to_int32 x = (if 2147483648 \<le> t then t - 4294967296 else t)"
    by (simp add: to_int32_def Let_def t_def)
  then show ?thesis using a b by (simp add: and_26_mask)
qed

lemma bn_words_value:
  assumes "0 \<le> x"
  shows "map_sum id words_value (bn_words x) = (if x < 9007199254740992 then Inr \<lfloor>x\<rfloor> else Inl BnAssertion)"
proof -
  define f where "f = \<lfloor>x\<rfloor>"
  have f0: "0 \<le> f" using assms by (simp add: f_def)
  have w0: "to_int32 x AND 67108863 = f mod 67108864"
    using assms by (simp add: to_int32_mask f_def)
  have fd: "f div 67108864 = \<lfloor>x / 67108864\<rfloor>"
    using floor_div_pos [of 67108864 x] by (simp add: f_def)
  have w1: "to_int32 (x / 67108864) AND 67108863 = (f div 67108864) mod 67108864"
    using assms by (simp add: to_int32_mask fd)
  show ?thesis
  proof (cases "x < 67108864")
    case True
    then have "f < 67108864" by (simp add: f_def)
    then show ?thesis using True f0 w0 by (simp add: bn_words_def words_value_def f_def)
  next
    case c1: False
    show ?thesis
    proof (cases "x < 4503599627370496")
      case True
      then have "x / 67108864 < 67108864" by simp
      then have "f div 67108864 < 67108864" by (simp add: fd)
      then have "f mod 67108864 + 67108864 * (f div 67108864 mod 67108864) = f"
        using f0 by simp
      then show ?thesis using True c1 w0 w1 by (simp add: bn_words_def words_value_def f_def)
    next
      case c2: False
      show ?thesis
      proof (cases "x < 9007199254740992")
        case True
        then have "x / 67108864 < 2 * 67108864" "67108864 \<le> x / 67108864"
          using c2 by simp_all
        then have "f div 67108864 < 2 * 67108864" "67108864 \<le> f div 67108864"
          by (simp_all add: fd)
        then have "(f div 67108864 - 67108864) mod 67108864 = f div 67108864 - 67108864"
          by (intro mod_pos_pos_trivial) simp_all
        then have "f div 67108864 mod 67108864 = f div 67108864 - 67108864"
          by simp
        then have "f mod 67108864 + 67108864 * (f div 67108864 mod 67108864 + 67108864) = f"
          by simp
        then show ?thesis using True c1 c2 w0 w1 by (simp add: bn_words_def words_value_def f_def)
      next
        case False
        then show ?thesis using c1 c2 by (simp add: bn_words_def)
      qed
    qed
  qed
qed

lemma bn_of_number_Fin:
  "bn_of_number (Fin x) = (if \<bar>x\<bar> < 9007199254740992 then Inr (js_trunc x) else Inl BnAssertion)"
proof -
  have v: "map_sum id words_value (bn_words \<bar>x\<bar>) = (if \<bar>x\<bar> < 9007199254740992 then Inr \<lfloor>\<bar>x\<bar>\<rfloor> else Inl BnAssertion)"
    by (rule bn_words_value) simp
  show ?thesis
  proof (cases "bn_words \<bar>x\<bar>")
    case (Inl e) then show ?thesis using v by (auto simp: bn_of_number_def split: if_splits)
  next
    case (Inr ws) then show ?thesis using v by (auto simp: bn_of_number_def js_trunc_def split: if_splits)
  qed
qed


lemma le_bytes_Suc: "le_bytes (Suc len) m = of_nat (m mod 256) # le_bytes len (m div 256)"
proof -
  have "[0..<Suc len] = 0 # map Suc [0..<len]" by (simp add: upt_conv_Cons map_Suc_upt)
  then show ?thesis by (simp add: le_bytes_def div_mult2_eq)
qed

lemma length_le_bytes [simp]: "length (le_bytes len m) = len"
  by (simp add: le_bytes_def)

lemma le_value_le_bytes: "le_value (le_bytes len m) = m mod 256 ^ len"
proof (induction len arbitrary: m)
  case 0 then show ?case by (simp add: le_bytes_def le_value_def)
next
  case (Suc len)
  have "le_value (le_bytes (Suc len) m) = m mod 256 + 256 * (m div 256 mod 256 ^ len)"
    using Suc.IH [of "m div 256"] by (simp add: le_bytes_Suc le_value_def unat_of_nat)
  also have "\<dots> = m mod 256 ^ Suc len" by (simp add: mod_mult2_eq)
  finally show ?case .
qed

lemma byte_length_le_iff: "byte_length n \<le> len \<longleftrightarrow> \<bar>n\<bar> < 2 ^ (8 * len)"
proof -
  have "byte_length n \<le> len \<longleftrightarrow> bitlen \<bar>n\<bar> \<le> int (8 * len)"
    by (auto simp: byte_length_def nat_le_iff)
  also have "\<dots> \<longleftrightarrow> \<bar>n\<bar> < 2 ^ (8 * len)" by (simp add: bitlen_le_iff_power nat_mult_distrib)
  finally show ?thesis .
qed

lemma borsh_u64_roundtrip:
  assumes "\<bar>n\<bar> < 2 ^ 64"
  shows "\<exists>bs. borsh_u64 n = Inr bs \<and> length bs = 8 \<and> int (le_value bs) = \<bar>n\<bar>"
proof -
  have "\<not> 8 < byte_length n" using assms byte_length_le_iff [of n 8] by simp
  moreover have "nat \<bar>n\<bar> mod 256 ^ 8 = nat \<bar>n\<bar>" using assms by (simp add: nat_less_iff)
  ultimately show ?thesis
    by (simp add: borsh_u64_def to_array_like_le_def le_value_le_bytes)
qed

lemma bn_of_number_spec:
  "bn_of_number v =
     (case v of
        NaN \<Rightarrow> Inr 0
      | Fin x \<Rightarrow> if \<bar>x\<bar> < 9007199254740992 then Inr (js_trunc x) else Inl BnAssertion
      | _ \<Rightarrow> Inl BnAssertion)"
  by (cases v) (simp_all add: bn_of_number_Fin, simp_all add: bn_of_number_def)

lemma js_trunc_abs_le: "of_int \<bar>js_trunc x\<bar> \<le> \<bar>x\<bar>"
proof (cases "0 \<le> x")
  case True then show ?thesis by simp
next
  case False
  then have "0 \<le> \<lfloor>- x\<rfloor>" by simp
  then show ?thesis using False by (simp add: js_trunc_def)
qed

lemma bn_of_number_bound:
  assumes "bn_of_number v = Inr i"
  shows "\<bar>i\<bar> < 9007199254740992"
proof (cases v)
  case (Fin x)
  with assms have "\<bar>x\<bar> < 9007199254740992" "i = js_trunc x"
    by (simp_all add: bn_of_number_spec split: if_splits)
  then have "(of_int \<bar>i\<bar> :: rat) < 9007199254740992" using js_trunc_abs_le [of x] by linarith
  then show ?thesis by simp
qed (use assms in \<open>simp_all add: bn_of_number_spec\<close>)

lemma js_trunc_neg: "js_trunc (- x) = - js_trunc x"
  by (cases "0 < x") (auto simp: js_trunc_def)

lemma bn_of_number_neg: "bn_of_number (Fin (- r)) = map_sum id uminus (bn_of_number (Fin r))"
  by (simp add: bn_of_number_spec js_trunc_neg)

end
