(* ===== verification/Solana_Lib.thy ===== *)
theory Solana_Lib
  imports Bn_Buffer
begin

text \<open>
  The interface of \<open>@solana/web3.js\<close> and \<open>@solana/spl-token\<close> that the client
  and the test call.  Public keys are a type variable \<open>'pk\<close>; the record
  \<open>solana_lib\<close> holds the library functions the code uses (base-58 parsing,
  \<open>toBuffer\<close>, the curve test and \<open>createProgramAddressSync\<close>'s bump search)
  and the program ids it reads.  Lemmas over the record hold for every
  implementation of the library; witnesses pick a concrete one.
\<close>

record 'pk solana_lib =
  parse_pubkey :: "string \<Rightarrow> 'pk option"           \<comment> \<open>base-58 decoding of \<open>new PublicKey(s)\<close>\<close>
  pubkey_bytes :: "'pk \<Rightarrow> byte list"              \<comment> \<open>\<open>PublicKey.toBuffer()\<close>\<close>
  on_curve :: "'pk \<Rightarrow> bool"                       \<comment> \<open>\<open>PublicKey.isOnCurve\<close>\<close>
  find_pda :: "byte list list \<Rightarrow> 'pk \<Rightarrow> 'pk option" \<comment> \<open>the bump search; \<open>None\<close>: no bump works\<close>
  program_id :: 'pk                               \<comment> \<open>\<open>program.programId\<close> of the swap IDL\<close>
  token_2022_program :: 'pk                       \<comment> \<open>\<open>TOKEN_2022_PROGRAM_ID\<close>\<close>
  associated_token_program :: 'pk                 \<comment> \<open>\<open>ASSOCIATED_TOKEN_PROGRAM_ID\<close>\<close>

text \<open>\<open>new PublicKey(s)\<close> throws on a string that is no key.\<close>

definition new_public_key :: "'pk solana_lib \<Rightarrow> string \<Rightarrow> lib_error + 'pk" where
  "new_public_key lib s =
     (case parse_pubkey lib s of None \<Rightarrow> Inl (InvalidPublicKey s) | Some k \<Rightarrow> Inr k)"

text \<open>\<open>PublicKey.findProgramAddressSync(seeds, programId)[0]\<close>.\<close>

definition find_program_address :: "'pk solana_lib \<Rightarrow> byte list list \<Rightarrow> 'pk \<Rightarrow> lib_error + 'pk" where
  "find_program_address lib seeds pid =
     (case find_pda lib seeds pid of None \<Rightarrow> Inl NoViableBump | Some a \<Rightarrow> Inr a)"

text \<open>
  \<open>getAssociatedTokenAddressSync(mint, owner, allowOwnerOffCurve, programId)\<close>:
  an owner off the curve is refused unless allowed; the address is the PDA of
  the owner, the token program and the mint under the associated-token program.
\<close>

definition get_associated_token_address ::
  "'pk solana_lib \<Rightarrow> 'pk \<Rightarrow> 'pk \<Rightarrow> bool \<Rightarrow> 'pk \<Rightarrow> lib_error + 'pk" where
  "get_associated_token_address lib mint owner allow_off_curve token_program =
     (if \<not> allow_off_curve \<and> \<not> on_curve lib owner then Inl TokenOwnerOffCurve
      else find_program_address lib
             [pubkey_bytes lib owner, pubkey_bytes lib token_program, pubkey_bytes lib mint]
             (associated_token_program lib))"

text \<open>
  An instance of the interface used by the witnesses: keys are naturals
  written in decimal, 32 little-endian bytes each; every key is on the curve;
  a PDA is a fixed injective-enough mix of the seed bytes and the program.
\<close>

definition example_lib :: "nat solana_lib" where
  "example_lib =
     \<lparr>parse_pubkey = (\<lambda>s. if s \<noteq> [] \<and> list_all is_dec_digit s then Some (radix_value 10 s) else None),
      pubkey_bytes = le_bytes 32,
      on_curve = (\<lambda>k. True),
      find_pda = (\<lambda>seeds pid. Some (le_value (concat seeds) * 16 + pid)),
      program_id = 11,
      token_2022_program = 12,
      associated_token_program = 13\<rparr>"

end
