(* ===== verification/Swap_Form.thy ===== *)
theory Swap_Form
  imports Solana_Lib
begin

text \<open>
  The swap form, \<open>src/frontend/src/components/swap.tsx\<close>: the React state of
  \<open>SwapComponent\<close>, the mount effect that draws the session's offer id, the
  \<open>onChange\<close> setters of the inputs, the two submit handlers
  \<open>handleMakeOffer\<close> and \<open>handleTakeOffer\<close> up to the \<open>.rpc()\<close> call they
  await, and the page as a state machine over user, wallet and network events.
\<close>

section \<open>Component state\<close>

text \<open>\<open>activeTab\<close> only ever holds \<open>'make'\<close> or \<open>'take'\<close>.\<close>

datatype tab = Make | Take

record swap_state =
  activeTab :: tab
  tokenMintA :: string
  tokenMintB :: string
  tokenASwapAmount :: js_num
  tokenBSwapAmount :: js_num
  offerMakerAccount :: string
  offerId :: "js_num option"
  makerOfferId :: "js_num option"

definition initial_state :: swap_state where
  "initial_state =
     \<lparr>activeTab = Make, tokenMintA = [], tokenMintB = [],
      tokenASwapAmount = Fin 0, tokenBSwapAmount = Fin 0, offerMakerAccount = [],
      offerId = None, makerOfferId = None\<rparr>"

text \<open>\<open>LAMPORTS_PER_SOL\<close> of \<open>@solana/web3.js\<close>.\<close>

definition LAMPORTS_PER_SOL :: rat where
  "LAMPORTS_PER_SOL = 1000000000"

text \<open>
  \<open>generateRandomId\<close>: eight random bytes read as a little-endian \<open>u64\<close>,
  reduced modulo \<open>Number.MAX_SAFE_INTEGER\<close> as a BigInt, converted by
  \<open>Number(...)\<close>.
\<close>

definition generate_random_id :: "byte list \<Rightarrow> js_num" where
  "generate_random_id bytes =
     number_value (of_nat (get_big_uint64_le bytes mod MAX_SAFE_INTEGER))"

text \<open>
  An amount field scaled to base units, \<open>new BN(amount * factor)\<close>: the Number
  product is rounded to binary64 and the BN constructor truncates it.
\<close>

definition base_units :: "rat \<Rightarrow> js_num \<Rightarrow> lib_error + int" where
  "base_units factor amount = bn_of_number (js_mul amount (Fin factor))"

section \<open>Instructions\<close>

text \<open>The accounts each handler passes to \<open>.accounts({...})\<close>.\<close>

record 'pk make_accounts =
  mk_maker :: 'pk
  mk_token_mint_a :: 'pk
  mk_token_mint_b :: 'pk
  mk_token_program :: 'pk

record 'pk take_accounts =
  tk_taker :: 'pk
  tk_maker :: 'pk
  tk_token_mint_a :: 'pk
  tk_token_mint_b :: 'pk
  tk_token_program :: 'pk
  tk_offer :: 'pk
  tk_vault :: 'pk

text \<open>
  An instruction as the client builds it: \<open>makeOffer(id, amountA, amountB)\<close>
  with its three BN arguments (signed, as \<open>bn.js\<close> holds them), or
  \<open>takeOffer()\<close>.
\<close>

datatype 'pk instruction =
    MakeOffer int int int "'pk make_accounts"
  | TakeOffer "'pk take_accounts"

section \<open>The submit handlers\<close>

text \<open>
  What a handler does before it awaits: it alerts and returns (before
  \<open>e.preventDefault()\<close>), its promise rejects on an exception thrown after
  \<open>preventDefault\<close>, or it sends the instruction with \<open>.rpc()\<close>.
\<close>

datatype 'pk submit_outcome =
    Alerted string
  | Threw lib_error
  | Sent "'pk instruction"

definition connect_alert :: string where
  "connect_alert = ''Please connect your wallet''"

text \<open>
  \<open>handleMakeOffer\<close>: the guard \<open>!publicKey || !offerId\<close>, then the BN
  arguments and the account keys in the order JavaScript evaluates them.
\<close>

definition handle_make_offer :: "'pk solana_lib \<Rightarrow> 'pk option \<Rightarrow> swap_state \<Rightarrow> 'pk submit_outcome" where
  "handle_make_offer lib pk s =
     (case (pk, offerId s) of
        (Some maker, Some oid) \<Rightarrow>
          if \<not> js_truthy oid then Alerted connect_alert
          else
            (case sum_bind (bn_of_number oid) (\<lambda>id.
                  sum_bind (base_units 100 (tokenASwapAmount s)) (\<lambda>a.
                  sum_bind (base_units LAMPORTS_PER_SOL (tokenBSwapAmount s)) (\<lambda>b.
                  sum_bind (new_public_key lib (tokenMintA s)) (\<lambda>ma.
                  sum_bind (new_public_key lib (tokenMintB s)) (\<lambda>mb.
                  Inr (MakeOffer id a b
                        \<lparr>mk_maker = maker, mk_token_mint_a = ma, mk_token_mint_b = mb,
                         mk_token_program = token_2022_program lib\<rparr>))))))
             of Inl e \<Rightarrow> Threw e | Inr ix \<Rightarrow> Sent ix)
      | _ \<Rightarrow> Alerted connect_alert)"

text \<open>
  \<open>handleTakeOffer\<close>: the guard \<open>!publicKey || !makerOfferId\<close>; the offer PDA
  from the seeds \<open>'offer'\<close>, the maker's key and the id as eight little-endian
  bytes; the vault as the offer's associated Token-2022 account; then the
  account object, which parses the keys again.
\<close>

definition handle_take_offer :: "'pk solana_lib \<Rightarrow> 'pk option \<Rightarrow> swap_state \<Rightarrow> 'pk submit_outcome" where
  "handle_take_offer lib pk s =
     (case (pk, makerOfferId s) of
        (Some taker, Some oid) \<Rightarrow>
          if \<not> js_truthy oid then Alerted connect_alert
          else
            (case sum_bind (new_public_key lib (offerMakerAccount s)) (\<lambda>mk.
                  sum_bind (bn_of_number oid) (\<lambda>id.
                  sum_bind (to_array_like_le 8 id) (\<lambda>idb.
                  sum_bind (find_program_address lib
                              [buffer_from ''offer'', pubkey_bytes lib mk, idb] (program_id lib)) (\<lambda>offer.
                  sum_bind (new_public_key lib (tokenMintA s)) (\<lambda>ma.
                  sum_bind (get_associated_token_address lib ma offer True (token_2022_program lib)) (\<lambda>vault.
                  sum_bind (new_public_key lib (offerMakerAccount s)) (\<lambda>maker.
                  sum_bind (new_public_key lib (tokenMintA s)) (\<lambda>ma'.
                  sum_bind (new_public_key lib (tokenMintB s)) (\<lambda>mb.
                  Inr (TakeOffer
                        \<lparr>tk_taker = taker, tk_maker = maker, tk_token_mint_a = ma',
                         tk_token_mint_b = mb, tk_token_program = token_2022_program lib,
                         tk_offer = offer, tk_vault = vault\<rparr>))))))))))
             of Inl e \<Rightarrow> Threw e | Inr ix \<Rightarrow> Sent ix)
      | _ \<Rightarrow> Alerted connect_alert)"

definition default_prevented :: "'pk submit_outcome \<Rightarrow> bool" where
  "default_prevented out \<longleftrightarrow> (case out of Alerted _ \<Rightarrow> False | _ \<Rightarrow> True)"

section \<open>Inputs\<close>

text \<open>The inputs whose \<open>onChange\<close> writes the state (the two forms share the mint setters).\<close>

datatype field = FMintA | FMintB | FAmountA | FAmountB | FMaker | FOfferId

fun on_change :: "field \<Rightarrow> string \<Rightarrow> swap_state \<Rightarrow> swap_state" where
  "on_change FMintA v s = s\<lparr>tokenMintA := v\<rparr>"
| "on_change FMintB v s = s\<lparr>tokenMintB := v\<rparr>"
| "on_change FAmountA v s = s\<lparr>tokenASwapAmount := js_parse_float v\<rparr>"
| "on_change FAmountB v s = s\<lparr>tokenBSwapAmount := js_parse_float v\<rparr>"
| "on_change FMaker v s = s\<lparr>offerMakerAccount := v\<rparr>"
| "on_change FOfferId v s = s\<lparr>makerOfferId := Some (js_parse_int v)\<rparr>"

text \<open>
  Interactive validation of the make form on native submission: the amount
  inputs are \<open>type="number" min="0"\<close> with the default step 1, so a value must
  be empty (read as \<open>NaN\<close>) or a non-negative integer.  The take form has only
  text inputs and always validates.
\<close>

definition amount_input_valid :: "js_num \<Rightarrow> bool" where
  "amount_input_valid v =
     (case v of NaN \<Rightarrow> True | Fin x \<Rightarrow> 0 \<le> x \<and> x = of_int \<lfloor>x\<rfloor> | _ \<Rightarrow> False)"

definition form_valid :: "swap_state \<Rightarrow> bool" where
  "form_valid s =
     (activeTab s = Take \<or>
      amount_input_valid (tokenASwapAmount s) \<and> amount_input_valid (tokenBSwapAmount s))"

section \<open>The page as a state machine\<close>

text \<open>
  The page: the component state, the wallet's \<open>publicKey\<close>, whether the mount
  effect has run since the page loaded, the RPC calls awaiting their result,
  and what the user and the cluster have seen: alerts, toasts, unhandled
  rejections and every transaction sent.  Alerts, rejections and sent
  transactions are histories kept across reloads; toasts and pending calls
  belong to the loaded page.
\<close>

datatype rejection = LibError lib_error | RpcError

record 'pk page =
  ui :: swap_state
  wallet :: "'pk option"
  mounted :: bool
  inflight :: "'pk instruction list"
  toasts :: "string list"
  alerts :: "string list"
  rejections :: "rejection list"
  sent :: "'pk instruction list"

definition init_page :: "'pk option \<Rightarrow> 'pk page" where
  "init_page w =
     \<lparr>ui = initial_state, wallet = w, mounted = False, inflight = [], toasts = [],
      alerts = [], rejections = [], sent = []\<rparr>"

datatype 'pk event =
    MountEffect "byte list"
  | ClickTab tab
  | Change field string
  | SubmitMake
  | SubmitTake
  | RpcConfirmed nat string
  | RpcFailed nat
  | WalletConnected 'pk
  | WalletDisconnected

text \<open>
  A native form submission reloads the page: the component mounts afresh from
  its initial state, and the pending promises and toasts of the old page are gone.
\<close>

definition reload :: "'pk page \<Rightarrow> 'pk page" where
  "reload p = p\<lparr>ui := initial_state, mounted := False, inflight := [], toasts := []\<rparr>"

definition after_submit :: "'pk submit_outcome \<Rightarrow> 'pk page \<Rightarrow> 'pk page" where
  "after_submit out p =
     (let p' = (case out of
                  Alerted msg \<Rightarrow> p\<lparr>alerts := alerts p @ [msg]\<rparr>
                | Threw e \<Rightarrow> p\<lparr>rejections := rejections p @ [LibError e]\<rparr>
                | Sent ix \<Rightarrow> p\<lparr>inflight := inflight p @ [ix], sent := sent p @ [ix]\<rparr>)
      in if \<not> default_prevented out \<and> form_valid (ui p) then reload p' else p')"

definition toast_text :: "string \<Rightarrow> string" where
  "toast_text sig = ''Transaction Signature: '' @ sig"

fun page_step :: "'pk solana_lib \<Rightarrow> 'pk page \<Rightarrow> 'pk event \<Rightarrow> 'pk page" where
  "page_step lib p (MountEffect bytes) =
     p\<lparr>ui := (ui p)\<lparr>offerId := Some (generate_random_id bytes)\<rparr>, mounted := True\<rparr>"
| "page_step lib p (ClickTab t) = p\<lparr>ui := (ui p)\<lparr>activeTab := t\<rparr>\<rparr>"
| "page_step lib p (Change f v) = p\<lparr>ui := on_change f v (ui p)\<rparr>"
| "page_step lib p SubmitMake = after_submit (handle_make_offer lib (wallet p) (ui p)) p"
| "page_step lib p SubmitTake = after_submit (handle_take_offer lib (wallet p) (ui p)) p"
| "page_step lib p (RpcConfirmed i sig) =
     p\<lparr>toasts := toasts p @ [toast_text sig], inflight := take i (inflight p) @ drop (Suc i) (inflight p)\<rparr>"
| "page_step lib p (RpcFailed i) =
     p\<lparr>rejections := rejections p @ [RpcError], inflight := take i (inflight p) @ drop (Suc i) (inflight p)\<rparr>"
| "page_step lib p (WalletConnected k) = p\<lparr>wallet := Some k\<rparr>"
| "page_step lib p WalletDisconnected = p\<lparr>wallet := None\<rparr>"

text \<open>
  Which events can happen: the mount effect once per load, each submit button
  only on its tab, and a result only for a call still pending (in any order).
\<close>

fun enabled :: "'pk page \<Rightarrow> 'pk event \<Rightarrow> bool" where
  "enabled p (MountEffect bytes) = (\<not> mounted p \<and> length bytes = 8)"
| "enabled p SubmitMake = (activeTab (ui p) = Make)"
| "enabled p SubmitTake = (activeTab (ui p) = Take)"
| "enabled p (RpcConfirmed i sig) = (i < length (inflight p))"
| "enabled p (RpcFailed i) = (i < length (inflight p))"
| "enabled p e = True"

inductive reachable :: "'pk solana_lib \<Rightarrow> 'pk page \<Rightarrow> bool" for lib where
  init: "reachable lib (init_page w)"
| step: "reachable lib p \<Longrightarrow> enabled p e \<Longrightarrow> reachable lib (page_step lib p e)"

fun run :: "'pk solana_lib \<Rightarrow> 'pk page \<Rightarrow> 'pk event list \<Rightarrow> 'pk page" where
  "run lib p [] = p"
| "run lib p (e # es) = run lib (page_step lib p e) es"

fun run_enabled :: "'pk solana_lib \<Rightarrow> 'pk page \<Rightarrow> 'pk event list \<Rightarrow> bool" where
  "run_enabled lib p [] = True"
| "run_enabled lib p (e # es) = (enabled p e \<and> run_enabled lib (page_step lib p e) es)"

section \<open>Invariant of the page\<close>

definition offer_id_ok :: "js_num option \<Rightarrow> bool" where
  "offer_id_ok v =
     (case v of
        None \<Rightarrow> True
      | Some (Fin q) \<Rightarrow> q = of_int \<lfloor>q\<rfloor> \<and> 0 \<le> q \<and> q < of_nat MAX_SAFE_INTEGER
      | Some _ \<Rightarrow> False)"

definition make_id_ok :: "'pk instruction \<Rightarrow> bool" where
  "make_id_ok ix = (case ix of MakeOffer i a b acc \<Rightarrow> 0 < i \<and> i < int MAX_SAFE_INTEGER | TakeOffer acc \<Rightarrow> True)"

definition page_inv :: "'pk page \<Rightarrow> bool" where
  "page_inv p \<longleftrightarrow>
     offer_id_ok (offerId (ui p)) \<and> mset (inflight p) \<subseteq># mset (sent p) \<and> list_all make_id_ok (sent p)"

section \<open>Rendering\<close>

text \<open>
  What the page shows: the disconnect button when a wallet is connected, else
  the connect button; on the make tab the banner \<open>OfferId : {offerId}\<close>,
  where React renders \<open>null\<close> as nothing; and the form of the active tab.
\<close>

record view =
  disconnect_button :: bool
  banner :: "string option"
  shown_form :: tab

definition render_offer_id :: "js_num option \<Rightarrow> string option" where
  "render_offer_id v = (case v of None \<Rightarrow> Some [] | Some x \<Rightarrow> number_to_string x)"

definition render_page :: "'pk page \<Rightarrow> view" where
  "render_page p =
     \<lparr>disconnect_button = (wallet p \<noteq> None),
      banner = (if activeTab (ui p) = Make
                then map_option (\<lambda>t. ''OfferId : '' @ t) (render_offer_id (offerId (ui p)))
                else None),
      shown_form = activeTab (ui p)\<rparr>"

section \<open>Handlers\<close>

lemma bn_of_number_nat [simp]:
  "n < 2 ^ 53 \<Longrightarrow> bn_of_number (Fin (of_nat n)) = Inr (int n)"
  by (simp add: bn_of_number_Fin js_trunc_def)

lemma round_binary64_small:
  assumes "\<bar>q\<bar> \<le> 2 ^ 52"
  shows "\<bar>round_binary64 q\<bar> \<le> \<bar>q\<bar> + 1 / 2"
proof (cases "q = 0")
  case True then show ?thesis by (simp add: round_binary64_def)
next
  case False
  define L where "L = ilog2_rat \<bar>q\<bar>"
  have "power_int 2 L \<le> \<bar>q\<bar>" using ilog2_rat_bounds [of "\<bar>q\<bar>"] False by (simp add: L_def)
  also have "\<bar>q\<bar> \<le> power_int 2 52" using assms by simp
  finally have "L \<le> 52" by (simp only: pow2_le_iff)
  then have "quantum_exp q \<le> 0" by (simp add: quantum_exp_def L_def)
  then have "power_int (2::rat) (quantum_exp q) \<le> power_int 2 0" by (simp only: pow2_le_iff)
  then have "power_int (2::rat) (quantum_exp q) / 2 \<le> 1 / 2" by simp
  with round_binary64_err [of q] show ?thesis by linarith
qed

lemma number_value_small:
  assumes "\<bar>q\<bar> \<le> 2 ^ 52"
  shows "number_value q = Fin (round_binary64 q) \<and> \<bar>round_binary64 q\<bar> < 2 ^ 53"
proof -
  have r: "\<bar>round_binary64 q\<bar> \<le> \<bar>q\<bar> + 1 / 2" using assms by (rule round_binary64_small)
  have c: "(2::rat) ^ 52 + 1 / 2 < 2 ^ 53" "(2::rat) ^ 53 < 2 ^ 1024" by simp_all
  have "\<bar>round_binary64 q\<bar> < 2 ^ 53" using r assms c(1) by linarith
  moreover have "\<not> 2 ^ 1024 \<le> \<bar>round_binary64 q\<bar>" using calculation c(2) by linarith
  ultimately show ?thesis by (simp add: number_value_def Let_def)
qed

lemma base_units_Fin:
  assumes "\<bar>a * c\<bar> \<le> 2 ^ 52"
  shows "base_units c (Fin a) = Inr (js_trunc (round_binary64 (a * c)))"
  using number_value_small [OF assms] by (simp add: base_units_def bn_of_number_Fin)

lemma base_units_neg: "base_units f (Fin (- x)) = map_sum id uminus (base_units f (Fin x))"
proof -
  have "number_value (- x * f) = number_value (- (x * f))" by simp
  then show ?thesis
    by (cases "number_value (x * f)")
       (simp_all add: base_units_def number_value_neg bn_of_number_neg, simp_all add: bn_of_number_spec)
qed

text \<open>
  C1: with a wallet connected, a non-zero session offer id and amounts whose scaled values stay below \<open>2\<^sup>5\<^sup>2\<close>, \<open>handleMakeOffer\<close> sends exactly one \<open>makeOffer\<close> instruction, with the offer id, amount A times 100 and amount B times \<open>LAMPORTS_PER_SOL\<close>, each product rounded to binary64 and truncated by \<open>new BN\<close>, and the maker, both mints and the Token-2022 program as accounts.
\<close>

theorem handle_make_offer_sends:
  assumes "offerId s = Some (Fin (of_nat n))" "0 < n" "n < 2 ^ 53"
    and "tokenASwapAmount s = Fin a" "\<bar>a * 100\<bar> \<le> 2 ^ 52"
    and "tokenBSwapAmount s = Fin b" "\<bar>b * LAMPORTS_PER_SOL\<bar> \<le> 2 ^ 52"
    and "parse_pubkey lib (tokenMintA s) = Some ma" "parse_pubkey lib (tokenMintB s) = Some mb"
  shows "handle_make_offer lib (Some k) s =
           Sent (MakeOffer (int n) (js_trunc (round_binary64 (a * 100)))
                   (js_trunc (round_binary64 (b * LAMPORTS_PER_SOL)))
                   \<lparr>mk_maker = k, mk_token_mint_a = ma, mk_token_mint_b = mb,
                    mk_token_program = token_2022_program lib\<rparr>)"
  using assms base_units_Fin [OF assms(5)] base_units_Fin [OF assms(7)]
  by (simp add: handle_make_offer_def new_public_key_def)

text \<open>
  C3: with no wallet, or an offer id that is \<open>null\<close>, zero or \<open>NaN\<close>, \<open>handleMakeOffer\<close> shows the alert and returns before \<open>preventDefault\<close>; it sends nothing.
\<close>

theorem handle_make_offer_guard:
  assumes "pk = None \<or> \<not> nullable_truthy (offerId s)"
  shows "handle_make_offer lib pk s = Alerted connect_alert"
  using assms by (auto simp: handle_make_offer_def nullable_truthy_def split: option.splits)

theorem handle_make_offer_sends_witness:
  "handle_make_offer example_lib (Some 1)
     (initial_state\<lparr>offerId := Some (Fin 42), tokenMintA := ''7'', tokenMintB := ''8'',
                     tokenASwapAmount := Fin 5, tokenBSwapAmount := Fin 2\<rparr>) =
   Sent (MakeOffer 42 (js_trunc (round_binary64 (5 * 100))) (js_trunc (round_binary64 (2 * LAMPORTS_PER_SOL)))
          \<lparr>mk_maker = 1, mk_token_mint_a = 7, mk_token_mint_b = 8,
           mk_token_program = token_2022_program example_lib\<rparr>)"
  using handle_make_offer_sends
    [where s = "initial_state\<lparr>offerId := Some (Fin 42), tokenMintA := ''7'', tokenMintB := ''8'',
                     tokenASwapAmount := Fin 5, tokenBSwapAmount := Fin 2\<rparr>"
       and n = 42 and a = 5 and b = 2 and lib = example_lib and ma = 7 and mb = 8 and k = 1]
  by (simp add: initial_state_def example_lib_def LAMPORTS_PER_SOL_def is_dec_digit_def
      radix_value_def radix_digit_def)

theorem handle_make_offer_guard_witness:
  "handle_make_offer example_lib None initial_state = Alerted connect_alert"
  using handle_make_offer_guard [of None initial_state example_lib] by simp

text \<open>
  C4: with no wallet, or a maker offer id that is \<open>null\<close>, zero or \<open>NaN\<close> (an empty or non-numeric Offer Id field), \<open>handleTakeOffer\<close> shows the alert and sends nothing.
\<close>

theorem handle_take_offer_guard:
  assumes "pk = None \<or> \<not> nullable_truthy (makerOfferId s)"
  shows "handle_take_offer lib pk s = Alerted connect_alert"
  using assms by (auto simp: handle_take_offer_def nullable_truthy_def split: option.splits)

theorem handle_take_offer_guard_witness:
  "handle_take_offer example_lib (Some 1) initial_state = Alerted connect_alert"
  using handle_take_offer_guard [of "Some 1" initial_state example_lib]
  by (simp add: initial_state_def nullable_truthy_def)

text \<open>
  C6: an amount typed with at most two decimals, worth \<open>n\<close> hundredths with \<open>1 \<le> n \<le> 2\<^sup>5\<^sup>0\<close>, reaches the instruction as \<open>n\<close> or \<open>n - 1\<close> base units: the binary64 product \<open>amount * 100\<close> truncated by \<open>new BN\<close> loses at most one unit.
\<close>

theorem base_units_truncation:
  assumes "of_int n = d * 100" "1 \<le> n" "n \<le> 2 ^ 50"
  shows "base_units 100 (Fin (round_binary64 d)) \<in> {Inr (n - 1), Inr n}"
proof -
  have d: "1 / 100 \<le> d" "d \<le> 11258999068427"
    using assms by (simp_all add: field_simps)
  have tiny: "power_int (2::rat) (-1022) \<le> 1 / 200"
    by (simp add: power_int_minus_divide)
  define x where "x = round_binary64 d"
  have "\<bar>x - d\<bar> \<le> \<bar>d\<bar> / 2 ^ 53"
    using round_binary64_rel_err [of d] tiny d(1) by (simp add: x_def)
  then have ex: "d - d / 9007199254740992 \<le> x" "x \<le> d + d / 9007199254740992"
    using d(1) by (simp_all only: abs_diff_le_iff) simp_all
  have x_lo: "1 / 200 \<le> x * 100" using ex d(1) by linarith
  have x_hi: "\<bar>x * 100\<bar> \<le> 2 ^ 51" using ex d by simp
  define y where "y = round_binary64 (x * 100)"
  have "\<bar>y - x * 100\<bar> \<le> \<bar>x * 100\<bar> / 2 ^ 53"
    using round_binary64_rel_err [of "x * 100"] tiny x_lo by (simp add: y_def)
  then have ey: "x * 100 - x * 100 / 9007199254740992 \<le> y" "y \<le> x * 100 + x * 100 / 9007199254740992"
    using x_lo by (simp_all only: abs_diff_le_iff) simp_all
  have close: "of_int n - 1 < y \<and> y < of_int n + 1"
    using ex ey assms(1) d by linarith
  have y0: "0 \<le> y" using close assms(2) by linarith
  have "\<lfloor>y\<rfloor> = n - 1 \<or> \<lfloor>y\<rfloor> = n"
    using close by linarith
  moreover have "base_units 100 (Fin x) = Inr (js_trunc y)"
    using base_units_Fin [of x 100] x_hi by (simp add: y_def)
  ultimately show ?thesis using y0 by (auto simp: x_def)
qed

theorem base_units_truncation_witness:
  "base_units 100 (Fin (round_binary64 (29 / 100))) \<in> {Inr 28, Inr 29}"
  using base_units_truncation [of 29 "29 / 100"] by simp

text \<open>
  C7: with a wallet connected, Create Offer answers \<open>Please connect your wallet\<close>
  exactly when the mount effect drew bytes whose little-endian \<open>u64\<close> is a
  multiple of \<open>MAX_SAFE_INTEGER\<close>: then \<open>generateRandomId\<close> gives 0, which the
  guard \<open>!offerId\<close> takes for a missing id; every other draw passes the guard.
\<close>

theorem mounted_zero_id_alerts:
  "handle_make_offer lib (Some k) (s\<lparr>offerId := Some (generate_random_id bytes)\<rparr>) = Alerted connect_alert \<longleftrightarrow>
   get_big_uint64_le bytes mod MAX_SAFE_INTEGER = 0"
proof -
  let ?n = "get_big_uint64_le bytes mod MAX_SAFE_INTEGER"
  have "?n < MAX_SAFE_INTEGER" by (simp add: MAX_SAFE_INTEGER_def)
  then have "generate_random_id bytes = Fin (of_nat ?n)"
    by (simp add: generate_random_id_def number_value_nat MAX_SAFE_INTEGER_def)
  then show ?thesis
    by (simp add: handle_make_offer_def split: sum.split)
qed

section \<open>Reachable pages\<close>

lemma mset_remove_nth_subset: "mset (take i xs @ drop (Suc i) xs) \<subseteq># mset xs"
proof (induction xs arbitrary: i)
  case Nil then show ?case by simp
next
  case (Cons x xs)
  then show ?case
    by (cases i) (simp_all add: subset_mset.add_left_mono)
qed

lemma offer_id_ok_generate: "offer_id_ok (Some (generate_random_id bytes))"
proof -
  have "get_big_uint64_le bytes mod MAX_SAFE_INTEGER < MAX_SAFE_INTEGER"
    by (simp add: MAX_SAFE_INTEGER_def)
  then show ?thesis
    by (simp add: offer_id_ok_def generate_random_id_def number_value_nat MAX_SAFE_INTEGER_def)
qed

lemma handle_make_offer_Sent:
  "handle_make_offer lib pk s = Sent ix \<Longrightarrow>
   \<exists>oid i a b acc. offerId s = Some oid \<and> js_truthy oid \<and> bn_of_number oid = Inr i \<and> ix = MakeOffer i a b acc"
  by (auto simp: handle_make_offer_def sum_bind_def split: option.splits sum.splits if_splits)

lemma handle_take_offer_Sent:
  "handle_take_offer lib pk s = Sent ix \<Longrightarrow> \<exists>acc. ix = TakeOffer acc"
  by (auto simp: handle_take_offer_def sum_bind_def split: option.splits sum.splits if_splits)

lemma make_id_ok_of_offer_id:
  assumes "offer_id_ok (Some oid)" "js_truthy oid" "bn_of_number oid = Inr i"
  shows "0 < i \<and> i < int MAX_SAFE_INTEGER"
proof -
  obtain q where q: "oid = Fin q" "q = of_int \<lfloor>q\<rfloor>" "0 \<le> q" "q < of_nat MAX_SAFE_INTEGER"
    using assms(1) by (auto simp: offer_id_ok_def split: js_num.splits)
  have "\<bar>q\<bar> < 9007199254740992" using q(3,4) by (simp add: MAX_SAFE_INTEGER_def)
  then have "i = \<lfloor>q\<rfloor>" using assms(3) q by (simp add: bn_of_number_Fin)
  moreover have "\<lfloor>q\<rfloor> \<noteq> 0" using assms(2) q(1,2) by (metis js_truthy.simps(2) of_int_0)
  moreover have "0 \<le> \<lfloor>q\<rfloor>" "\<lfloor>q\<rfloor> < int MAX_SAFE_INTEGER"
    using q(3,4) by (simp_all add: MAX_SAFE_INTEGER_def)
  ultimately show ?thesis by linarith
qed

lemma after_submit_inv:
  assumes "page_inv p"
    and "\<And>ix. out = Sent ix \<Longrightarrow> make_id_ok ix"
  shows "page_inv (after_submit out p)"
  using assms by (auto simp: after_submit_def default_prevented_def Let_def page_inv_def reload_def initial_state_def offer_id_ok_def
      Let_def subset_mset.add_increasing2 split: submit_outcome.splits intro: subset_mset.add_right_mono)

lemma page_step_inv:
  assumes "page_inv p"
  shows "page_inv (page_step lib p e)"
proof (cases e)
  case SubmitMake
  have "make_id_ok ix" if "handle_make_offer lib (wallet p) (ui p) = Sent ix" for ix
    using handle_make_offer_Sent [OF that] assms make_id_ok_of_offer_id
    by (fastforce simp: page_inv_def make_id_ok_def)
  then show ?thesis using assms SubmitMake by (simp add: after_submit_inv)
next
  case SubmitTake
  have "make_id_ok ix" if "handle_take_offer lib (wallet p) (ui p) = Sent ix" for ix
    using handle_take_offer_Sent [OF that] by (auto simp: make_id_ok_def)
  then show ?thesis using assms SubmitTake by (simp add: after_submit_inv)
next
  case (RpcConfirmed i sig)
  then show ?thesis using assms mset_remove_nth_subset [of i "inflight p"]
    by (auto simp: page_inv_def intro: subset_mset.order_trans)
next
  case (RpcFailed i)
  then show ?thesis using assms mset_remove_nth_subset [of i "inflight p"]
    by (auto simp: page_inv_def intro: subset_mset.order_trans)
next
  case (Change f v)
  then show ?thesis using assms by (cases f) (simp_all add: page_inv_def)
qed (use assms offer_id_ok_generate in \<open>simp_all add: page_inv_def\<close>)

text \<open>
  C5: in every reachable page state the session offer id is absent or an integer in \<open>[0, MAX_SAFE_INTEGER)\<close>, every pending RPC call is one of the transactions sent, and every \<open>makeOffer\<close> ever sent carries an id in \<open>(0, MAX_SAFE_INTEGER)\<close>.
\<close>

theorem reachable_page_inv: "reachable lib p \<Longrightarrow> page_inv p"
proof (induction rule: reachable.induct)
  case (init w)
  show ?case by (simp add: page_inv_def init_page_def initial_state_def offer_id_ok_def)
next
  case (step p e)
  from step.IH show ?case by (rule page_step_inv)
qed

theorem reachable_page_inv_witness:
  "reachable example_lib (page_step example_lib (init_page None) (MountEffect [1, 2, 3, 4, 5, 6, 7, 8])) \<and>
   page_inv (page_step example_lib (init_page None) (MountEffect [1, 2, 3, 4, 5, 6, 7, 8]))"
proof -
  have r: "reachable example_lib (page_step example_lib (init_page None) (MountEffect [1, 2, 3, 4, 5, 6, 7, 8]))"
    by (rule reachable.step [OF reachable.init]) (simp add: init_page_def)
  show ?thesis using r reachable_page_inv [OF r] by simp
qed

text \<open>
  C8: nothing stops a second click on Create Offer while the first call is pending: two submits send the same \<open>makeOffer\<close> instruction twice, with the same offer id, and both await their results.
\<close>

theorem double_submit_make:
  assumes "handle_make_offer lib (wallet p) (ui p) = Sent ix"
  shows "run lib p [SubmitMake, SubmitMake] =
           p\<lparr>inflight := inflight p @ [ix, ix], sent := sent p @ [ix, ix]\<rparr>"
  using assms by (simp add: after_submit_def default_prevented_def Let_def)

theorem double_submit_make_witness:
  "run example_lib ((init_page (Some 1))\<lparr>ui := initial_state\<lparr>offerId := Some (Fin 42), tokenMintA := ''7'', tokenMintB := ''8''\<rparr>\<rparr> :: nat page) [SubmitMake, SubmitMake] =
     ((init_page (Some 1))\<lparr>ui := initial_state\<lparr>offerId := Some (Fin 42), tokenMintA := ''7'', tokenMintB := ''8''\<rparr>\<rparr> :: nat page)\<lparr>inflight := [MakeOffer 42 0 0 \<lparr>mk_maker = 1, mk_token_mint_a = 7, mk_token_mint_b = 8, mk_token_program = 12\<rparr>, MakeOffer 42 0 0 \<lparr>mk_maker = 1, mk_token_mint_a = 7, mk_token_mint_b = 8, mk_token_program = 12\<rparr>], sent := [MakeOffer 42 0 0 \<lparr>mk_maker = 1, mk_token_mint_a = 7, mk_token_mint_b = 8, mk_token_program = 12\<rparr>, MakeOffer 42 0 0 \<lparr>mk_maker = 1, mk_token_mint_a = 7, mk_token_mint_b = 8, mk_token_program = 12\<rparr>]\<rparr>"
proof -
  have h: "handle_make_offer example_lib (wallet ((init_page (Some 1))\<lparr>ui := initial_state\<lparr>offerId := Some (Fin 42), tokenMintA := ''7'', tokenMintB := ''8''\<rparr>\<rparr> :: nat page)) (ui ((init_page (Some 1))\<lparr>ui := initial_state\<lparr>offerId := Some (Fin 42), tokenMintA := ''7'', tokenMintB := ''8''\<rparr>\<rparr> :: nat page)) = Sent (MakeOffer 42 0 0 \<lparr>mk_maker = 1, mk_token_mint_a = 7, mk_token_mint_b = 8, mk_token_program = 12\<rparr>)"
    by (simp add: handle_make_offer_def init_page_def initial_state_def base_units_def example_lib_def
        new_public_key_def is_dec_digit_def radix_value_def radix_digit_def number_value_def round_binary64_def
        bn_of_number_Fin js_trunc_def)
  show ?thesis using double_submit_make [OF h] by (simp add: init_page_def)
qed

text \<open>
  C9: when \<open>handleMakeOffer\<close> alerts, the default form submission is not prevented, so a valid form reloads the page: the component state, pending calls and toasts are lost and the offer id is gone until the mount effect draws a new one.
\<close>

theorem alert_reloads_page:
  assumes "handle_make_offer lib (wallet p) (ui p) = Alerted msg" "form_valid (ui p)"
  shows "page_step lib p SubmitMake = (reload p)\<lparr>alerts := alerts p @ [msg]\<rparr> \<and>
         offerId (ui (page_step lib p SubmitMake)) = None"
  using assms by (simp add: after_submit_def default_prevented_def Let_def reload_def initial_state_def Let_def)

theorem alert_reloads_page_witness:
  "page_step example_lib (init_page None) SubmitMake =
     (reload (init_page None))\<lparr>alerts := [connect_alert]\<rparr> \<and>
   offerId (ui (page_step example_lib (init_page None) SubmitMake)) = None"
proof -
  have h: "handle_make_offer example_lib (wallet (init_page None)) (ui (init_page None)) = Alerted connect_alert"
    by (simp add: handle_make_offer_def init_page_def)
  have v: "form_valid (ui (init_page None))"
    by (simp add: form_valid_def init_page_def initial_state_def amount_input_valid_def)
  show ?thesis using alert_reloads_page [OF h v] by (simp add: init_page_def reload_def initial_state_def)
qed

end
