(* ===== verification/Escrow.thy ===== *)
theory Escrow
  imports Swap_Form
begin

text \<open>
  The on-chain swap program the client calls.  Its source is not part of this
  repository: the model follows the interface the spec describes (sections 3,
  4.2 and 6) and the balances the integration test asserts.  An offer lives at
  the program address derived from the tag \<open>offer\<close>, the maker's key and the
  id as eight little-endian bytes; its vault is the associated token account
  of the offer address for mint A.  Token accounts are keyed by owner and mint
  and hold \<open>u64\<close> balances; transfers follow the token program's checks.
\<close>

section \<open>Ledger\<close>

record 'pk offer =
  offer_maker :: 'pk
  offer_id :: nat
  offer_mint_a :: 'pk
  offer_mint_b :: 'pk
  offer_wanted :: nat

record 'pk ledger =
  token_balance :: "'pk \<times> 'pk \<Rightarrow> nat"
  offers :: "'pk \<rightharpoonup> 'pk offer"

datatype program_error =
    AddressDerivation
  | OfferInUse
  | OfferNotFound
  | AccountMismatch
  | InsufficientFunds
  | AmountOverflow

definition U64_MAX :: nat where
  "U64_MAX = 2 ^ 64 - 1"

text \<open>The seeds of the offer account: \<open>[b"offer", maker, id.to_le_bytes()]\<close>.\<close>

definition offer_seeds :: "'pk solana_lib \<Rightarrow> 'pk \<Rightarrow> nat \<Rightarrow> byte list list" where
  "offer_seeds lib maker i = [buffer_from ''offer'', pubkey_bytes lib maker, le_bytes 8 i]"

text \<open>
  A token transfer between two accounts of one mint: refused when the source
  holds too little or the destination would pass \<open>u64\<close>; a transfer to the
  source itself changes nothing.
\<close>

definition transfer :: "'pk \<times> 'pk \<Rightarrow> 'pk \<times> 'pk \<Rightarrow> nat \<Rightarrow> 'pk ledger \<Rightarrow> program_error + 'pk ledger" where
  "transfer src dst k l =
     (let bal = token_balance l in
      if bal src < k then Inl InsufficientFunds
      else if src = dst then Inr l
      else if U64_MAX < bal dst + k then Inl AmountOverflow
      else Inr (l\<lparr>token_balance := bal(src := bal src - k, dst := bal dst + k)\<rparr>))"

section \<open>Instructions of the program\<close>

text \<open>
  \<open>make_offer(id, token_a_offered_amount, token_b_wanted_amount)\<close>: create the
  offer account (refused if it exists) and move the offered amount of mint A
  from the maker into the vault.
\<close>

definition make_offer ::
  "'pk solana_lib \<Rightarrow> 'pk \<Rightarrow> nat \<Rightarrow> 'pk \<Rightarrow> 'pk \<Rightarrow> nat \<Rightarrow> nat \<Rightarrow> 'pk ledger \<Rightarrow> program_error + 'pk ledger" where
  "make_offer lib maker i mint_a mint_b amount_a wanted l =
     (case find_pda lib (offer_seeds lib maker i) (program_id lib) of
        None \<Rightarrow> Inl AddressDerivation
      | Some addr \<Rightarrow>
          if offers l addr \<noteq> None then Inl OfferInUse
          else sum_bind (transfer (maker, mint_a) (addr, mint_a) amount_a l) (\<lambda>l'.
                 Inr (l'\<lparr>offers := (offers l')(addr \<mapsto>
                        \<lparr>offer_maker = maker, offer_id = i, offer_mint_a = mint_a,
                         offer_mint_b = mint_b, offer_wanted = wanted\<rparr>)\<rparr>)))"

text \<open>
  \<open>take_offer()\<close>: the accounts passed must match the offer; the taker pays the
  wanted amount of mint B to the maker, the vault's whole balance goes to the
  taker, and the vault and the offer are closed.
\<close>

definition take_offer ::
  "'pk \<Rightarrow> 'pk \<Rightarrow> 'pk \<Rightarrow> 'pk \<Rightarrow> 'pk \<Rightarrow> 'pk ledger \<Rightarrow> program_error + 'pk ledger" where
  "take_offer taker addr maker mint_a mint_b l =
     (case offers l addr of
        None \<Rightarrow> Inl OfferNotFound
      | Some ofr \<Rightarrow>
          if offer_maker ofr \<noteq> maker \<or> offer_mint_a ofr \<noteq> mint_a \<or> offer_mint_b ofr \<noteq> mint_b
          then Inl AccountMismatch
          else sum_bind (transfer (taker, mint_b) (maker, mint_b) (offer_wanted ofr) l) (\<lambda>l1.
               sum_bind (transfer (addr, mint_a) (taker, mint_a) (token_balance l1 (addr, mint_a)) l1) (\<lambda>l2.
               Inr (l2\<lparr>offers := (offers l2)(addr := None)\<rparr>))))"

text \<open>
  An instruction the client sent, as the program receives it: the BN
  arguments arrive through Borsh's \<open>u64\<close> encoding, which keeps the magnitude.
\<close>

fun execute :: "'pk solana_lib \<Rightarrow> 'pk instruction \<Rightarrow> 'pk ledger \<Rightarrow> program_error + 'pk ledger" where
  "execute lib (MakeOffer i a b acc) l =
     make_offer lib (mk_maker acc) (nat \<bar>i\<bar>) (mk_token_mint_a acc) (mk_token_mint_b acc) (nat \<bar>a\<bar>) (nat \<bar>b\<bar>) l"
| "execute lib (TakeOffer acc) l =
     take_offer (tk_taker acc) (tk_offer acc) (tk_maker acc) (tk_token_mint_a acc) (tk_token_mint_b acc) l"

section \<open>Supply of a mint\<close>

definition mint_supply :: "'pk set \<Rightarrow> 'pk ledger \<Rightarrow> 'pk \<Rightarrow> nat" where
  "mint_supply S l m = (\<Sum>own\<in>S. token_balance l (own, m))"

text \<open>
  A step from \<open>l\<close> to \<open>l'\<close> is confined to the owners \<open>T\<close> when it changes no
  balance of another owner and keeps every mint's supply over any finite set
  of owners that holds \<open>T\<close>.
\<close>

definition confined :: "'pk set \<Rightarrow> 'pk ledger \<Rightarrow> 'pk ledger \<Rightarrow> bool" where
  "confined T l l' \<longleftrightarrow>
     (\<forall>own m. own \<notin> T \<longrightarrow> token_balance l' (own, m) = token_balance l (own, m)) \<and>
     (\<forall>S m. finite S \<longrightarrow> T \<subseteq> S \<longrightarrow> mint_supply S l' m = mint_supply S l m)"

lemma transfer_Inr:
  assumes "transfer src dst k l = Inr l'"
  shows "k \<le> token_balance l src" "offers l' = offers l"
    "token_balance l' = (if src = dst then token_balance l
       else (token_balance l)(src := token_balance l src - k, dst := token_balance l dst + k))"
  using assms by (auto simp: transfer_def Let_def split: if_splits)

lemma transfer_other:
  "transfer src dst k l = Inr l' \<Longrightarrow> a \<noteq> src \<Longrightarrow> a \<noteq> dst \<Longrightarrow> token_balance l' a = token_balance l a"
  by (simp add: transfer_Inr(3))

lemma supply_offers_upd [simp]: "mint_supply S (l\<lparr>offers := f\<rparr>) m = mint_supply S l m"
  by (simp add: mint_supply_def)

lemma supply_transfer:
  assumes t: "transfer (a, m0) (b, m0) k l = Inr l'" and S: "finite S" "a \<in> S" "b \<in> S"
  shows "mint_supply S l' m = mint_supply S l m"
proof (cases "a \<noteq> b \<and> m = m0")
  case True
  let ?f = "\<lambda>own. token_balance l (own, m)"
  have eq: "(\<lambda>own. token_balance l' (own, m)) = ?f(a := ?f a - k, b := ?f b + k)"
    using True by (auto simp: transfer_Inr(3) [OF t] fun_eq_iff)
  have "k \<le> ?f a" using True transfer_Inr(1) [OF t] by simp
  then show ?thesis unfolding mint_supply_def eq by (intro sum_move) (use S True in auto)
next
  case False
  then have "token_balance l' (own, m) = token_balance l (own, m)" for own
    by (auto simp: transfer_Inr(3) [OF t])
  then show ?thesis by (simp add: mint_supply_def)
qed

lemma make_offer_Inr:
  assumes "make_offer lib maker i ma mb amt w l = Inr l'"
  obtains addr l1 where "find_pda lib (offer_seeds lib maker i) (program_id lib) = Some addr"
    "offers l addr = None" "transfer (maker, ma) (addr, ma) amt l = Inr l1"
    "l' = l1\<lparr>offers := (offers l1)(addr \<mapsto>
            \<lparr>offer_maker = maker, offer_id = i, offer_mint_a = ma, offer_mint_b = mb, offer_wanted = w\<rparr>)\<rparr>"
  using assms by (auto simp: make_offer_def sum_bind_def split: option.splits sum.splits if_splits)

lemma take_offer_Inr:
  assumes "take_offer taker addr maker ma mb l = Inr l'"
  obtains ofr l1 l2 where "offers l addr = Some ofr"
    "offer_maker ofr = maker" "offer_mint_a ofr = ma" "offer_mint_b ofr = mb"
    "transfer (taker, mb) (maker, mb) (offer_wanted ofr) l = Inr l1"
    "transfer (addr, ma) (taker, ma) (token_balance l1 (addr, ma)) l1 = Inr l2"
    "l' = l2\<lparr>offers := (offers l2)(addr := None)\<rparr>"
  using assms by (auto simp: take_offer_def sum_bind_def split: option.splits sum.splits if_splits)

lemma confined_transfer:
  "transfer (a, m0) (b, m0) k l = Inr l' \<Longrightarrow> confined {a, b} l l'"
  by (auto simp: confined_def transfer_other supply_transfer)

lemma confined_offers_upd [simp]: "confined T l (l'\<lparr>offers := f\<rparr>) \<longleftrightarrow> confined T l l'"
  by (simp add: confined_def mint_supply_def)

lemma confined_trans:
  "confined T l1 l2 \<Longrightarrow> confined U l2 l3 \<Longrightarrow> confined (T \<union> U) l1 l3"
  unfolding confined_def by (metis Un_iff le_sup_iff)

text \<open>A made offer occupies its address: the same make again is refused, whatever its amounts.\<close>

lemma make_offer_replay:
  assumes "make_offer lib maker i ma mb amt w l = Inr l'"
  shows "make_offer lib maker i ma' mb' amt' w' l' = Inl OfferInUse"
proof -
  obtain addr l1 f where "find_pda lib (offer_seeds lib maker i) (program_id lib) = Some addr"
    "l' = l1\<lparr>offers := (offers l1)(addr \<mapsto> f)\<rparr>"
    using make_offer_Inr [OF assms] by blast
  then show ?thesis by (simp add: make_offer_def)
qed

lemma confined_witness:
  "confined T l l' \<Longrightarrow> finite T \<Longrightarrow> card T \<le> n \<Longrightarrow> \<exists>T. finite T \<and> card T \<le> n \<and> confined T l l'"
  by blast

text \<open>
  C10: every instruction the program executes changes the balances of at most
  three owners, and keeps each mint's total supply over any finite set of
  owners holding them: tokens move, none are created or destroyed.
\<close>

theorem execute_conserves_supply:
  assumes "execute lib ix l = Inr l'"
  shows "\<exists>T. finite T \<and> card T \<le> 3 \<and> confined T l l'"
proof (cases ix)
  case (MakeOffer i a b acc)
  with assms have h: "make_offer lib (mk_maker acc) (nat \<bar>i\<bar>) (mk_token_mint_a acc)
      (mk_token_mint_b acc) (nat \<bar>a\<bar>) (nat \<bar>b\<bar>) l = Inr l'" by simp
  then obtain addr l1 f where
    t: "transfer (mk_maker acc, mk_token_mint_a acc) (addr, mk_token_mint_a acc) (nat \<bar>a\<bar>) l = Inr l1"
    and l': "l' = l1\<lparr>offers := f\<rparr>"
    by (rule make_offer_Inr) blast
  have "confined {mk_maker acc, addr} l l'" using confined_transfer [OF t] by (simp add: l')
  then show ?thesis by (rule confined_witness) (simp_all add: card_insert_if)
next
  case (TakeOffer acc)
  with assms have h: "take_offer (tk_taker acc) (tk_offer acc) (tk_maker acc)
      (tk_token_mint_a acc) (tk_token_mint_b acc) l = Inr l'" by simp
  then obtain k1 k2 l1 l2 f where
    t1: "transfer (tk_taker acc, tk_token_mint_b acc) (tk_maker acc, tk_token_mint_b acc) k1 l = Inr l1"
    and t2: "transfer (tk_offer acc, tk_token_mint_a acc) (tk_taker acc, tk_token_mint_a acc) k2 l1 = Inr l2"
    and l': "l' = l2\<lparr>offers := f\<rparr>"
    by (rule take_offer_Inr) blast
  have "confined ({tk_taker acc, tk_maker acc} \<union> {tk_offer acc, tk_taker acc}) l l'"
    using confined_trans [OF confined_transfer [OF t1] confined_transfer [OF t2]] by (simp add: l')
  then show ?thesis by (rule confined_witness) (simp_all add: card_insert_if)
qed

theorem execute_conserves_supply_witness:
  "case execute example_lib
          (TakeOffer \<lparr>tk_taker = 2, tk_maker = 1, tk_token_mint_a = 3, tk_token_mint_b = 4,
                      tk_token_program = 12, tk_offer = 5, tk_vault = 6\<rparr>)
          \<lparr>token_balance = (\<lambda>_. 0)((2, 4) := 10, (5, 3) := 20),
           offers = [5 \<mapsto> \<lparr>offer_maker = 1, offer_id = 9, offer_mint_a = 3, offer_mint_b = 4, offer_wanted = 7\<rparr>]\<rparr> of
     Inl _ \<Rightarrow> False
   | Inr l' \<Rightarrow> \<exists>T. finite T \<and> card T \<le> 3 \<and>
              confined T \<lparr>token_balance = (\<lambda>_. 0)((2, 4) := 10, (5, 3) := 20),
                 offers = [5 \<mapsto> \<lparr>offer_maker = 1, offer_id = 9, offer_mint_a = 3, offer_mint_b = 4, offer_wanted = 7\<rparr>]\<rparr> l'"
proof -
  let ?ix = "TakeOffer \<lparr>tk_taker = 2, tk_maker = 1, tk_token_mint_a = 3, tk_token_mint_b = 4,
                      tk_token_program = 12, tk_offer = 5, tk_vault = 6\<rparr> :: nat instruction"
  let ?l = "\<lparr>token_balance = (\<lambda>_. 0)((2, 4) := 10, (5, 3) := 20),
           offers = [5 \<mapsto> \<lparr>offer_maker = 1, offer_id = 9, offer_mint_a = 3, offer_mint_b = 4, offer_wanted = 7\<rparr>]\<rparr> :: nat ledger"
  have "\<not> isl (execute example_lib ?ix ?l)" by (simp add: take_offer_def transfer_def U64_MAX_def)
  then obtain l' where h: "execute example_lib ?ix ?l = Inr l'" by (cases "execute example_lib ?ix ?l") auto
  show ?thesis using execute_conserves_supply [OF h] by (simp only: h sum.case)
qed

end
