(* ===== verification/Swap_Test.thy ===== *)
theory Swap_Test
  imports Escrow
begin

text \<open>
  The integration test \<open>src/tests/swap.ts\<close>: a \<open>before\<close> hook seeds Alice with
  \<open>10\<^sup>9\<close> units of mint A and Bob with \<open>10\<^sup>9\<close> of mint B, the first test
  makes an offer of \<open>10\<^sup>6\<close> A for \<open>10\<^sup>6\<close> B under a random id, the second takes
  it.  The program under test is a parameter (a function from instructions to
  ledger transitions), so the same run can be read against the escrow model
  of \<open>Escrow\<close> or against a faulty program.  The checks use \<open>assert\<close> from
  \<open>node:console\<close>, which prints a message and returns: a test fails only when
  its promise rejects (a thrown derivation, a rejected \<open>.rpc()\<close>, a failed
  \<open>fetch\<close>), and the run counts the failed assertions beside the verdicts.
\<close>

section \<open>The test's data\<close>

text \<open>The keypairs \<open>createAccountsMintsAndTokenAccounts\<close> returns: two users and two mints.\<close>

record 'pk test_users =
  alice :: 'pk
  bob :: 'pk
  token_mint_a :: 'pk
  token_mint_b :: 'pk

definition token_a_offered_amount :: int where
  "token_a_offered_amount = 1000000"

definition token_b_wanted_amount :: int where
  "token_b_wanted_amount = 1000000"

text \<open>
  The shared \<open>accounts\<close> object: the token program from the start, the users
  and mints from the \<open>before\<close> hook, the offer and its vault once the first
  test has derived them (\<open>None\<close>: the key is unset).
\<close>

record 'pk test_accounts =
  acc_maker :: 'pk
  acc_taker :: 'pk
  acc_mint_a :: 'pk
  acc_mint_b :: 'pk
  acc_token_program :: 'pk
  acc_offer :: "'pk option"
  acc_vault :: "'pk option"

text \<open>
  The \<open>before\<close> hook: fresh users and mints, Alice's A account and Bob's B
  account funded with \<open>10\<^sup>9\<close>, their other accounts empty, no offers; then the
  keys saved into \<open>accounts\<close>.
\<close>

definition seed_ledger :: "'pk test_users \<Rightarrow> 'pk ledger" where
  "seed_ledger u =
     \<lparr>token_balance = (\<lambda>_. 0)((alice u, token_mint_a u) := 1000000000, (bob u, token_mint_b u) := 1000000000),
      offers = Map.empty\<rparr>"

definition before_accounts :: "'pk solana_lib \<Rightarrow> 'pk test_users \<Rightarrow> 'pk test_accounts" where
  "before_accounts lib u =
     \<lparr>acc_maker = alice u, acc_taker = bob u, acc_mint_a = token_mint_a u, acc_mint_b = token_mint_b u,
      acc_token_program = token_2022_program lib, acc_offer = None, acc_vault = None\<rparr>"

text \<open>\<open>assert(c)\<close> of \<open>node:console\<close>: one failure more when \<open>c\<close> is false, and no exception.\<close>

definition console_assert :: "bool \<Rightarrow> nat" where
  "console_assert c = (if c then 0 else 1)"

section \<open>The two tests\<close>

text \<open>
  The outcome of one \<open>it\<close>: whether it passed, the failed assertions it
  printed, and the accounts and ledger it leaves for the next.
\<close>

type_synonym 'pk test_outcome = "bool \<times> nat \<times> 'pk test_accounts \<times> 'pk ledger"

type_synonym 'pk program = "'pk instruction \<Rightarrow> 'pk ledger \<Rightarrow> program_error + 'pk ledger"

text \<open>
  The first test: \<open>new BN(randomBytes(8))\<close> reads the bytes big-endian; the
  offer PDA from \<open>'offer'\<close>, the maker and the id as eight little-endian bytes;
  the vault as the offer's associated account (owner off the curve allowed);
  both saved into \<open>accounts\<close>; \<open>makeOffer\<close> sent and awaited; then the vault's
  balance checked, the offer account fetched (which throws if it does not
  exist) and its fields checked.
\<close>

definition make_test ::
  "'pk solana_lib \<Rightarrow> 'pk program \<Rightarrow> 'pk test_users \<Rightarrow> byte list \<Rightarrow> 'pk test_accounts \<Rightarrow> 'pk ledger \<Rightarrow> 'pk test_outcome" where
  "make_test lib prog u bytes acc l =
     (let offer_id = int (be_value bytes) in
      case sum_bind (to_array_like_le 8 offer_id) (\<lambda>idb.
             find_program_address lib [buffer_from ''offer'', pubkey_bytes lib (acc_maker acc), idb] (program_id lib)) of
        Inl e \<Rightarrow> (False, 0, acc, l)
      | Inr offer \<Rightarrow>
          (case get_associated_token_address lib (acc_mint_a acc) offer True (acc_token_program acc) of
             Inl e \<Rightarrow> (False, 0, acc, l)
           | Inr vault \<Rightarrow>
               (let acc' = acc\<lparr>acc_offer := Some offer, acc_vault := Some vault\<rparr> in
                case prog (MakeOffer offer_id token_a_offered_amount token_b_wanted_amount
                            \<lparr>mk_maker = acc_maker acc, mk_token_mint_a = acc_mint_a acc,
                             mk_token_mint_b = acc_mint_b acc, mk_token_program = acc_token_program acc\<rparr>) l of
                  Inl e \<Rightarrow> (False, 0, acc', l)
                | Inr l' \<Rightarrow>
                    (let f = console_assert (int (token_balance l' (offer, acc_mint_a acc)) = token_a_offered_amount) in
                     case offers l' offer of
                       None \<Rightarrow> (False, f, acc', l')
                     | Some ofr \<Rightarrow>
                         (True,
                          f + console_assert (offer_maker ofr = alice u)
                            + console_assert (int (offer_wanted ofr) = token_b_wanted_amount)
                            + console_assert (offer_mint_a ofr = token_mint_a u)
                            + console_assert (offer_mint_b ofr = token_mint_b u),
                          acc', l')))))"

text \<open>
  The second test: \<open>takeOffer\<close> with the shared accounts (an unset offer or
  vault cannot be resolved, and the call throws), then Alice's B balance and
  Bob's A balance checked.
\<close>

definition take_test ::
  "'pk program \<Rightarrow> 'pk test_accounts \<Rightarrow> 'pk ledger \<Rightarrow> 'pk test_outcome" where
  "take_test prog acc l =
     (case (acc_offer acc, acc_vault acc) of
        (Some offer, Some vault) \<Rightarrow>
          (case prog (TakeOffer
                        \<lparr>tk_taker = acc_taker acc, tk_maker = acc_maker acc, tk_token_mint_a = acc_mint_a acc,
                         tk_token_mint_b = acc_mint_b acc, tk_token_program = acc_token_program acc,
                         tk_offer = offer, tk_vault = vault\<rparr>) l of
             Inl e \<Rightarrow> (False, 0, acc, l)
           | Inr l' \<Rightarrow>
               (True,
                console_assert (int (token_balance l' (acc_maker acc, acc_mint_b acc)) = token_b_wanted_amount)
                  + console_assert (int (token_balance l' (acc_taker acc, acc_mint_a acc)) = token_a_offered_amount),
                acc, l'))
      | _ \<Rightarrow> (False, 0, acc, l))"

text \<open>What mocha reports for the suite, and the ledger it leaves.\<close>

record 'pk test_report =
  verdicts :: "bool list"
  assert_failures :: nat
  final_ledger :: "'pk ledger"

definition run_swap_test :: "'pk solana_lib \<Rightarrow> 'pk program \<Rightarrow> 'pk test_users \<Rightarrow> byte list \<Rightarrow> 'pk test_report" where
  "run_swap_test lib prog u bytes =
     (case make_test lib prog u bytes (before_accounts lib u) (seed_ledger u) of
        (p1, f1, acc1, l1) \<Rightarrow>
          (case take_test prog acc1 l1 of
             (p2, f2, acc2, l2) \<Rightarrow> \<lparr>verdicts = [p1, p2], assert_failures = f1 + f2, final_ledger = l2\<rparr>))"

section \<open>Lemmas\<close>

lemma be_value_snoc: "be_value (bs @ [b]) = 256 * be_value bs + unat b"
  by (simp add: be_value_def)

lemma be_value_bound: "be_value bs < 256 ^ length bs"
proof (induction bs rule: rev_induct)
  case Nil
  then show ?case by (simp add: be_value_def)
next
  case (snoc b bs)
  have "unat b < 256" using unsigned_less [of b, where ?'a = nat] by simp
  then show ?case using snoc.IH by (simp add: be_value_snoc)
qed

text \<open>An id read from eight random bytes always fits the eight little-endian bytes of the seed.\<close>

lemma to_array_like_le_be_value:
  assumes "length bytes = 8"
  shows "to_array_like_le 8 (int (be_value bytes)) = Inr (le_bytes 8 (be_value bytes))"
proof -
  have "be_value bytes < 2 ^ 64" using be_value_bound [of bytes] assms by simp
  then have "\<not> 8 < byte_length (int (be_value bytes))"
    using byte_length_le_iff [of "int (be_value bytes)" 8] by simp
  then show ?thesis by (simp add: to_array_like_le_def)
qed

section \<open>Properties\<close>

text \<open>
  C12: against the escrow program, with distinct users and mints and an offer
  address distinct from both users, both tests pass, no assertion fails, and
  the balances end as the spec's scenario says: Alice has given \<open>10\<^sup>6\<close> A and
  received \<open>10\<^sup>6\<close> B, Bob the converse, the vault is empty and no offer is left.
\<close>

theorem swap_test_passes:
  assumes users: "alice u \<noteq> bob u" "token_mint_a u \<noteq> token_mint_b u"
    and len: "length bytes = 8"
    and pda: "find_pda lib (offer_seeds lib (alice u) (be_value bytes)) (program_id lib) = Some offer"
    and fresh: "offer \<noteq> alice u" "offer \<noteq> bob u"
    and ata: "get_associated_token_address lib (token_mint_a u) offer True (token_2022_program lib) = Inr vault"
  shows "verdicts (run_swap_test lib (execute lib) u bytes) = [True, True] \<and>
         assert_failures (run_swap_test lib (execute lib) u bytes) = 0 \<and>
         token_balance (final_ledger (run_swap_test lib (execute lib) u bytes)) (alice u, token_mint_a u) = 999000000 \<and>
         token_balance (final_ledger (run_swap_test lib (execute lib) u bytes)) (alice u, token_mint_b u) = 1000000 \<and>
         token_balance (final_ledger (run_swap_test lib (execute lib) u bytes)) (bob u, token_mint_a u) = 1000000 \<and>
         token_balance (final_ledger (run_swap_test lib (execute lib) u bytes)) (bob u, token_mint_b u) = 999000000 \<and>
         token_balance (final_ledger (run_swap_test lib (execute lib) u bytes)) (offer, token_mint_a u) = 0 \<and>
         offers (final_ledger (run_swap_test lib (execute lib) u bytes)) = Map.empty"
  using users fresh users [symmetric] fresh [symmetric]
  by (simp add: run_swap_test_def make_test_def take_test_def before_accounts_def seed_ledger_def
      to_array_like_le_be_value [OF len] find_program_address_def pda [unfolded offer_seeds_def] ata
      make_offer_def take_offer_def transfer_def offer_seeds_def U64_MAX_def console_assert_def
      token_a_offered_amount_def token_b_wanted_amount_def)

theorem swap_test_passes_witness:
  "verdicts (run_swap_test example_lib (execute example_lib) (\<lparr>alice = 1, bob = 2, token_mint_a = 3, token_mint_b = 4\<rparr> :: nat test_users) [0, 0, 0, 0, 0, 0, 0, 42]) = [True, True] \<and>
   assert_failures (run_swap_test example_lib (execute example_lib) (\<lparr>alice = 1, bob = 2, token_mint_a = 3, token_mint_b = 4\<rparr> :: nat test_users) [0, 0, 0, 0, 0, 0, 0, 42]) = 0 \<and>
   token_balance (final_ledger (run_swap_test example_lib (execute example_lib) (\<lparr>alice = 1, bob = 2, token_mint_a = 3, token_mint_b = 4\<rparr> :: nat test_users) [0, 0, 0, 0, 0, 0, 0, 42])) (2, 3) = 1000000"
proof -
  have b: "be_value ([0, 0, 0, 0, 0, 0, 0, 42] :: byte list) = 42" by (simp add: be_value_def)
  have pda: "find_pda example_lib (offer_seeds example_lib (alice (\<lparr>alice = 1, bob = 2, token_mint_a = 3, token_mint_b = 4\<rparr> :: nat test_users)) (be_value [0, 0, 0, 0, 0, 0, 0, 42])) (program_id example_lib) = Some (le_value (concat (offer_seeds example_lib 1 42)) * 16 + 11)"
    by (simp add: b example_lib_def)
  have fresh: "(le_value (concat (offer_seeds example_lib 1 42)) * 16 + 11) \<noteq> alice (\<lparr>alice = 1, bob = 2, token_mint_a = 3, token_mint_b = 4\<rparr> :: nat test_users)" "(le_value (concat (offer_seeds example_lib 1 42)) * 16 + 11) \<noteq> bob (\<lparr>alice = 1, bob = 2, token_mint_a = 3, token_mint_b = 4\<rparr> :: nat test_users)" by simp_all
  have ata: "get_associated_token_address example_lib (token_mint_a (\<lparr>alice = 1, bob = 2, token_mint_a = 3, token_mint_b = 4\<rparr> :: nat test_users)) (le_value (concat (offer_seeds example_lib 1 42)) * 16 + 11) True (token_2022_program example_lib) =
      Inr (le_value (concat [pubkey_bytes example_lib (le_value (concat (offer_seeds example_lib 1 42)) * 16 + 11), le_bytes 32 12, le_bytes 32 3]) * 16 + 13)"
    by (simp add: get_associated_token_address_def find_program_address_def example_lib_def)
  have "alice (\<lparr>alice = 1, bob = 2, token_mint_a = 3, token_mint_b = 4\<rparr> :: nat test_users) \<noteq> bob (\<lparr>alice = 1, bob = 2, token_mint_a = 3, token_mint_b = 4\<rparr> :: nat test_users)" "token_mint_a (\<lparr>alice = 1, bob = 2, token_mint_a = 3, token_mint_b = 4\<rparr> :: nat test_users) \<noteq> token_mint_b (\<lparr>alice = 1, bob = 2, token_mint_a = 3, token_mint_b = 4\<rparr> :: nat test_users)" "length ([0, 0, 0, 0, 0, 0, 0, 42] :: byte list) = 8" by simp_all
  from swap_test_passes [OF this pda fresh ata] show ?thesis by simp
qed

text \<open>
  C13: the suite's verdicts ignore every balance check.  Whatever the program
  does to the balances, both tests pass as soon as the make and the take are
  accepted and the offer account can be fetched after the make: the
  assertions of \<open>node:console\<close> print and return.  The witness runs a program
  that records the offer but moves no tokens: both tests pass while three
  assertions fail.
\<close>

theorem swap_test_verdicts_ignore_asserts:
  assumes len: "length bytes = 8"
    and pda: "find_pda lib (offer_seeds lib (alice u) (be_value bytes)) (program_id lib) = Some offer"
    and ata: "get_associated_token_address lib (token_mint_a u) offer True (token_2022_program lib) = Inr vault"
    and mk: "prog (MakeOffer (int (be_value bytes)) token_a_offered_amount token_b_wanted_amount
                \<lparr>mk_maker = alice u, mk_token_mint_a = token_mint_a u, mk_token_mint_b = token_mint_b u,
                 mk_token_program = token_2022_program lib\<rparr>) (seed_ledger u) = Inr l1"
    and fetch: "offers l1 offer = Some ofr"
    and tk: "prog (TakeOffer \<lparr>tk_taker = bob u, tk_maker = alice u, tk_token_mint_a = token_mint_a u,
                tk_token_mint_b = token_mint_b u, tk_token_program = token_2022_program lib,
                tk_offer = offer, tk_vault = vault\<rparr>) l1 = Inr l2"
  shows "verdicts (run_swap_test lib prog u bytes) = [True, True] \<and> final_ledger (run_swap_test lib prog u bytes) = l2"
  using mk fetch tk
  by (simp add: run_swap_test_def make_test_def take_test_def before_accounts_def
      to_array_like_le_be_value [OF len] find_program_address_def pda [unfolded offer_seeds_def] ata)

theorem swap_test_verdicts_ignore_asserts_witness:
  "verdicts (run_swap_test example_lib (\<lambda>ix l. case ix of
              MakeOffer i a b acc \<Rightarrow>
                Inr (l\<lparr>offers := (offers l)((le_value (concat (offer_seeds example_lib 5 42)) * 16 + 11) \<mapsto> \<lparr>offer_maker = mk_maker acc, offer_id = nat \<bar>i\<bar>,
                        offer_mint_a = mk_token_mint_a acc, offer_mint_b = mk_token_mint_b acc, offer_wanted = nat \<bar>b\<bar>\<rparr>)\<rparr>)
            | TakeOffer acc \<Rightarrow> Inr (l\<lparr>offers := (offers l)(tk_offer acc := None)\<rparr>)) (\<lparr>alice = 5, bob = 2, token_mint_a = 3, token_mint_b = 4\<rparr> :: nat test_users) [0, 0, 0, 0, 0, 0, 0, 42]) = [True, True] \<and>
   assert_failures (run_swap_test example_lib (\<lambda>ix l. case ix of
              MakeOffer i a b acc \<Rightarrow>
                Inr (l\<lparr>offers := (offers l)((le_value (concat (offer_seeds example_lib 5 42)) * 16 + 11) \<mapsto> \<lparr>offer_maker = mk_maker acc, offer_id = nat \<bar>i\<bar>,
                        offer_mint_a = mk_token_mint_a acc, offer_mint_b = mk_token_mint_b acc, offer_wanted = nat \<bar>b\<bar>\<rparr>)\<rparr>)
            | TakeOffer acc \<Rightarrow> Inr (l\<lparr>offers := (offers l)(tk_offer acc := None)\<rparr>)) (\<lparr>alice = 5, bob = 2, token_mint_a = 3, token_mint_b = 4\<rparr> :: nat test_users) [0, 0, 0, 0, 0, 0, 0, 42]) = 3"
proof -
  have b: "be_value ([0, 0, 0, 0, 0, 0, 0, 42] :: byte list) = 42" by (simp add: be_value_def)
  have pda: "find_pda example_lib (offer_seeds example_lib (alice (\<lparr>alice = 5, bob = 2, token_mint_a = 3, token_mint_b = 4\<rparr> :: nat test_users)) (be_value [0, 0, 0, 0, 0, 0, 0, 42])) (program_id example_lib) = Some (le_value (concat (offer_seeds example_lib 5 42)) * 16 + 11)"
    by (simp add: b example_lib_def)
  have ata: "get_associated_token_address example_lib (token_mint_a (\<lparr>alice = 5, bob = 2, token_mint_a = 3, token_mint_b = 4\<rparr> :: nat test_users)) (le_value (concat (offer_seeds example_lib 5 42)) * 16 + 11) True (token_2022_program example_lib) = Inr (le_value (concat [pubkey_bytes example_lib (le_value (concat (offer_seeds example_lib 5 42)) * 16 + 11), le_bytes 32 12, le_bytes 32 3]) * 16 + 13)"
    by (simp add: get_associated_token_address_def find_program_address_def example_lib_def)
  have len: "length ([0, 0, 0, 0, 0, 0, 0, 42] :: byte list) = 8" by simp
  have v: "verdicts (run_swap_test example_lib (\<lambda>ix l. case ix of
              MakeOffer i a b acc \<Rightarrow>
                Inr (l\<lparr>offers := (offers l)((le_value (concat (offer_seeds example_lib 5 42)) * 16 + 11) \<mapsto> \<lparr>offer_maker = mk_maker acc, offer_id = nat \<bar>i\<bar>,
                        offer_mint_a = mk_token_mint_a acc, offer_mint_b = mk_token_mint_b acc, offer_wanted = nat \<bar>b\<bar>\<rparr>)\<rparr>)
            | TakeOffer acc \<Rightarrow> Inr (l\<lparr>offers := (offers l)(tk_offer acc := None)\<rparr>)) (\<lparr>alice = 5, bob = 2, token_mint_a = 3, token_mint_b = 4\<rparr> :: nat test_users) [0, 0, 0, 0, 0, 0, 0, 42]) = [True, True]"
    by (rule conjunct1 [OF swap_test_verdicts_ignore_asserts
          [OF len pda ata]]) (simp add: b seed_ledger_def)+
  have ta: "to_array_like_le 8 42 = Inr (le_bytes 8 42)" using to_array_like_le_be_value [OF len] by (simp add: b)
  have pda': "find_pda example_lib [buffer_from ''offer'', pubkey_bytes example_lib 5, le_bytes 8 42] (program_id example_lib) = Some (le_value (concat (offer_seeds example_lib 5 42)) * 16 + 11)"
    using pda by (simp add: b offer_seeds_def)
  have ata': "get_associated_token_address example_lib 3 (le_value (concat (offer_seeds example_lib 5 42)) * 16 + 11) True (token_2022_program example_lib) = Inr (le_value (concat [pubkey_bytes example_lib (le_value (concat (offer_seeds example_lib 5 42)) * 16 + 11), le_bytes 32 12, le_bytes 32 3]) * 16 + 13)"
    using ata by simp
  have f: "assert_failures (run_swap_test example_lib (\<lambda>ix l. case ix of
              MakeOffer i a b acc \<Rightarrow>
                Inr (l\<lparr>offers := (offers l)((le_value (concat (offer_seeds example_lib 5 42)) * 16 + 11) \<mapsto> \<lparr>offer_maker = mk_maker acc, offer_id = nat \<bar>i\<bar>,
                        offer_mint_a = mk_token_mint_a acc, offer_mint_b = mk_token_mint_b acc, offer_wanted = nat \<bar>b\<bar>\<rparr>)\<rparr>)
            | TakeOffer acc \<Rightarrow> Inr (l\<lparr>offers := (offers l)(tk_offer acc := None)\<rparr>)) (\<lparr>alice = 5, bob = 2, token_mint_a = 3, token_mint_b = 4\<rparr> :: nat test_users) [0, 0, 0, 0, 0, 0, 0, 42]) = 3"
    by (simp add: run_swap_test_def make_test_def take_test_def before_accounts_def seed_ledger_def
        ta find_program_address_def pda' ata' b Let_def
        console_assert_def token_a_offered_amount_def token_b_wanted_amount_def)
  from v f show ?thesis by simp
qed

end
