(* ===== verification/Escrow_Spec.thy ===== *)
theory Escrow_Spec
  imports Escrow
begin

text \<open>
  An abstract contract of the escrow: an offer made and then taken is an
  atomic swap of the two amounts between maker and taker, which happens when
  both hold their side and neither receiving account would pass \<open>u64\<close>.
  The \<open>makeOffer\<close> the make form sends, followed by the \<open>takeOffer\<close> the take
  form sends for that offer, executed by the program, refines it: the
  balances after the pair are those of the swap, the offer table is as
  before, and the pair fails exactly when the swap is refused.
\<close>

section \<open>The atomic swap\<close>

definition swap_balances ::
  "'pk \<Rightarrow> 'pk \<Rightarrow> 'pk \<Rightarrow> 'pk \<Rightarrow> nat \<Rightarrow> nat \<Rightarrow> ('pk \<times> 'pk \<Rightarrow> nat) \<Rightarrow> ('pk \<times> 'pk \<Rightarrow> nat)" where
  "swap_balances maker taker ma mb a b bal =
     bal((maker, ma) := bal (maker, ma) - a, (taker, ma) := bal (taker, ma) + a,
         (taker, mb) := bal (taker, mb) - b, (maker, mb) := bal (maker, mb) + b)"

definition atomic_swap ::
  "'pk \<Rightarrow> 'pk \<Rightarrow> 'pk \<Rightarrow> 'pk \<Rightarrow> nat \<Rightarrow> nat \<Rightarrow> ('pk \<times> 'pk \<Rightarrow> nat) \<Rightarrow> ('pk \<times> 'pk \<Rightarrow> nat) option" where
  "atomic_swap maker taker ma mb a b bal =
     (if bal (maker, ma) < a \<or> U64_MAX < a \<or> bal (taker, mb) < b \<or>
         U64_MAX < bal (maker, mb) + b \<or> U64_MAX < bal (taker, ma) + a
      then None else Some (swap_balances maker taker ma mb a b bal))"

section \<open>Refinement\<close>

text \<open>
  The program's pair: \<open>make_offer\<close>, then \<open>take_offer\<close> at the offer address
  the seeds of the maker and id derive, from a ledger where that address is
  free and its vault empty.
\<close>

lemma make_take_swap:
  assumes pda: "find_pda lib (offer_seeds lib maker i) (program_id lib) = Some addr"
    and free: "offers l addr = None" and vault: "token_balance l (addr, ma) = 0"
    and dist: "maker \<noteq> taker" "addr \<noteq> maker" "addr \<noteq> taker" "ma \<noteq> mb"
  shows "case_sum (\<lambda>_. None) (\<lambda>l2. Some (token_balance l2, offers l2))
           (sum_bind (make_offer lib maker i ma mb a b l) (\<lambda>l1. take_offer taker addr maker ma mb l1)) =
         map_option (\<lambda>bal. (bal, offers l)) (atomic_swap maker taker ma mb a b (token_balance l))"
  using assms
  by (auto simp: make_offer_def take_offer_def transfer_def atomic_swap_def swap_balances_def
      Let_def sum_bind_def fun_eq_iff U64_MAX_def split: if_splits)

lemma handle_make_offer_maker:
  "handle_make_offer lib (Some maker) s = Sent (MakeOffer i a b acc) \<Longrightarrow> mk_maker acc = maker"
  by (auto simp: handle_make_offer_def sum_bind_def split: option.splits sum.splits if_splits)

lemma handle_take_offer_taker:
  "handle_take_offer lib (Some taker) t = Sent (TakeOffer acc) \<Longrightarrow> tk_taker acc = taker"
  by (auto simp: handle_take_offer_def sum_bind_def split: option.splits sum.splits if_splits)

text \<open>The two forms of the concrete run the witness of C15 uses.\<close>

lemma demo_make_sent: "handle_make_offer example_lib (Some 1)
      (initial_state\<lparr>offerId := Some (Fin 42), tokenMintA := ''7'', tokenMintB := ''8'',
                     tokenASwapAmount := Fin 3, tokenBSwapAmount := Fin 2\<rparr>) =
    Sent (MakeOffer 42 300 2000000000 \<lparr>mk_maker = 1, mk_token_mint_a = 7, mk_token_mint_b = 8, mk_token_program = 12 :: nat\<rparr>)"
proof -
  have a: "base_units 100 (Fin 3) = Inr 300"
    using number_value_nat [of 300] by (simp add: base_units_def bn_of_number_Fin js_trunc_def)
  have b: "base_units LAMPORTS_PER_SOL (Fin 2) = Inr 2000000000"
    using number_value_nat [of 2000000000]
    by (simp add: base_units_def LAMPORTS_PER_SOL_def bn_of_number_Fin js_trunc_def)
  show ?thesis
    by (simp add: a b handle_make_offer_def initial_state_def example_lib_def
        new_public_key_def is_dec_digit_def radix_value_def radix_digit_def bn_of_number_Fin js_trunc_def)
qed

lemma demo_take_sent: "handle_take_offer example_lib (Some 2)
      (initial_state\<lparr>activeTab := Take, offerMakerAccount := ''1'', makerOfferId := Some (Fin 42),
                     tokenMintA := ''7'', tokenMintB := ''8''\<rparr>) =
    Sent (TakeOffer \<lparr>tk_taker = 2, tk_maker = 1, tk_token_mint_a = 7, tk_token_mint_b = 8, tk_token_program = 12,
       tk_offer = le_value (concat (offer_seeds example_lib 1 42)) * 16 + 11,
       tk_vault = le_value (concat [pubkey_bytes example_lib (le_value (concat (offer_seeds example_lib 1 42)) * 16 + 11),
                                    pubkey_bytes example_lib 12, pubkey_bytes example_lib 7]) * 16 + 13 :: nat\<rparr>)"
proof -
  have bl: "\<not> 8 < byte_length 42" using byte_length_le_iff [of 42 8] by simp
  show ?thesis
  by (simp add: bl handle_take_offer_def initial_state_def example_lib_def offer_seeds_def
        new_public_key_def is_dec_digit_def radix_value_def radix_digit_def bn_of_number_Fin js_trunc_def
        to_array_like_le_def find_program_address_def get_associated_token_address_def)
qed

text \<open>
  C15: when the make form of the maker's page has sent \<open>makeOffer\<close> and the
  take form of the taker's page has sent \<open>takeOffer\<close> naming that offer (its
  address, maker and mints, as C2 shows the forms produce), the program
  executing the two in order, from a ledger where the offer address is free
  and its vault empty, with maker, taker and offer address distinct and two
  distinct mints, yields exactly the balances of the atomic swap of the
  magnitudes of the BN amounts and the original offer table, and fails
  exactly when the atomic swap is refused.
\<close>

theorem sent_make_take_refines_swap:
  assumes make: "handle_make_offer lib (Some maker) s = Sent (MakeOffer i a b macc)"
    and take: "handle_take_offer lib (Some taker) t = Sent (TakeOffer tacc)"
    and pda: "find_pda lib (offer_seeds lib maker (nat \<bar>i\<bar>)) (program_id lib) = Some addr"
    and names: "tk_offer tacc = addr" "tk_maker tacc = maker"
      "tk_token_mint_a tacc = mk_token_mint_a macc" "tk_token_mint_b tacc = mk_token_mint_b macc"
    and free: "offers l addr = None" and vault: "token_balance l (addr, mk_token_mint_a macc) = 0"
    and dist: "maker \<noteq> taker" "addr \<noteq> maker" "addr \<noteq> taker"
      "mk_token_mint_a macc \<noteq> mk_token_mint_b macc"
  shows "case_sum (\<lambda>_. None) (\<lambda>l2. Some (token_balance l2, offers l2))
           (sum_bind (execute lib (MakeOffer i a b macc) l) (execute lib (TakeOffer tacc))) =
         map_option (\<lambda>bal. (bal, offers l))
           (atomic_swap maker taker (mk_token_mint_a macc) (mk_token_mint_b macc) (nat \<bar>a\<bar>) (nat \<bar>b\<bar>)
              (token_balance l))"
proof -
  have m: "mk_maker macc = maker" by (rule handle_make_offer_maker [OF make])
  have t: "tk_taker tacc = taker" by (rule handle_take_offer_taker [OF take])
  have e: "execute lib (TakeOffer tacc) =
            take_offer taker addr maker (mk_token_mint_a macc) (mk_token_mint_b macc)"
    by (simp add: fun_eq_iff t names)
  show ?thesis
    using make_take_swap [OF pda free vault dist, of "nat \<bar>a\<bar>" "nat \<bar>b\<bar>"]
    by (simp add: m e)
qed

theorem sent_make_take_refines_swap_witness:
  "case_sum (\<lambda>_. None) (\<lambda>l2. Some (token_balance l2, offers l2))
     (sum_bind (execute example_lib (MakeOffer 42 300 2000000000
                  \<lparr>mk_maker = 1, mk_token_mint_a = 7, mk_token_mint_b = 8, mk_token_program = 12 :: nat\<rparr>)
                  \<lparr>token_balance = (\<lambda>_. 0)((1, 7) := 500, (2, 8) := 3000000000), offers = Map.empty\<rparr>)
        (execute example_lib (TakeOffer \<lparr>tk_taker = 2, tk_maker = 1, tk_token_mint_a = 7, tk_token_mint_b = 8, tk_token_program = 12,
           tk_offer = le_value (concat (offer_seeds example_lib 1 42)) * 16 + 11,
           tk_vault = le_value (concat [pubkey_bytes example_lib (le_value (concat (offer_seeds example_lib 1 42)) * 16 + 11),
                                        pubkey_bytes example_lib 12, pubkey_bytes example_lib 7]) * 16 + 13\<rparr>))) =
   Some (swap_balances 1 2 7 8 300 2000000000 ((\<lambda>_. 0)((1, 7) := 500, (2, 8) := 3000000000)), Map.empty)"
proof -
  have pda: "find_pda example_lib (offer_seeds example_lib 1 (nat \<bar>42\<bar>)) (program_id example_lib) =
             Some (le_value (concat (offer_seeds example_lib 1 42)) * 16 + 11)"
    by (simp add: example_lib_def)
  show ?thesis
    using sent_make_take_refines_swap [OF demo_make_sent demo_take_sent pda, of
        "\<lparr>token_balance = (\<lambda>_. 0)((1, 7) := 500, (2, 8) := 3000000000), offers = Map.empty\<rparr>"]
    by (simp add: atomic_swap_def U64_MAX_def)
qed

end
