(* ===== verification/Provider.thy ===== *)
theory Provider
  imports Prelude
begin

text \<open>
  The wallet and connection context, \<open>src/frontend/src/components/solana/solana-provider.tsx\<close>:
  \<open>SolanaProvider\<close> fixes the network (devnet), derives the RPC endpoint with
  \<open>clusterApiUrl\<close>, passes no wallet adapters and \<open>autoConnect\<close>, and installs an
  \<open>onError\<close> callback that only logs; \<open>useAnchorProvider\<close> builds the Anchor
  provider from the connection and the wallet with \<open>confirmed\<close> commitment.
  \<open>WalletButton\<close> and \<open>WalletDisconnectButton\<close> are dynamic imports of the
  adapter's UI buttons that render only in the browser.
  The wallet adapter itself is a library: its state is the connected key, which
  its events set and clear, and an error reaches the page only through
  \<open>onError\<close>.
\<close>

section \<open>Network and endpoint\<close>

text \<open>\<open>WalletAdapterNetwork\<close> of \<open>@solana/wallet-adapter-base\<close>, with its string values.\<close>

datatype wallet_adapter_network = Mainnet | Testnet | Devnet

definition network_cluster :: "wallet_adapter_network \<Rightarrow> string" where
  "network_cluster n = (case n of Mainnet \<Rightarrow> ''mainnet-beta'' | Testnet \<Rightarrow> ''testnet'' | Devnet \<Rightarrow> ''devnet'')"

text \<open>
  \<open>clusterApiUrl(cluster)\<close> of \<open>@solana/web3.js\<close> with TLS (the default): the
  public endpoint of a known cluster; an unknown name throws.
\<close>

definition cluster_api_url :: "string \<Rightarrow> string + string" where
  "cluster_api_url c =
     (if c = ''devnet'' then Inr ''https://api.devnet.solana.com''
      else if c = ''testnet'' then Inr ''https://api.testnet.solana.com''
      else if c = ''mainnet-beta'' then Inr ''https://api.mainnet-beta.solana.com/''
      else Inl (''Unknown https cluster: '' @ c))"

section \<open>The provider tree\<close>

text \<open>The props \<open>SolanaProvider\<close> gives \<open>ConnectionProvider\<close> and \<open>WalletProvider\<close>.\<close>

record provider_props =
  endpoint :: string
  wallet_adapters :: "string list"
  auto_connect :: bool

text \<open>
  \<open>SolanaProvider\<close>: \<open>network = WalletAdapterNetwork.Devnet\<close>, the memoised
  endpoint, \<open>wallets={[]}\<close> and \<open>autoConnect={true}\<close>.  Rendering throws if
  \<open>clusterApiUrl\<close> does.
\<close>

definition solana_provider :: "string + provider_props" where
  "solana_provider =
     sum_bind (cluster_api_url (network_cluster Devnet)) (\<lambda>url.
       Inr \<lparr>endpoint = url, wallet_adapters = [], auto_connect = True\<rparr>)"

text \<open>
  What \<open>useWallet()\<close> exposes to the page (the connected key), and what the
  browser console holds: \<open>onError\<close> writes each wallet error there.
\<close>

record 'pk wallet_ctx =
  wc_public_key :: "'pk option"
  wc_console :: "string list"

definition on_error :: "string \<Rightarrow> 'pk wallet_ctx \<Rightarrow> 'pk wallet_ctx" where
  "on_error err c = c\<lparr>wc_console := wc_console c @ [err]\<rparr>"

text \<open>
  The adapter's events: a connection (by the user, or by \<open>autoConnect\<close> on
  load), a disconnection, and an error, which the adapter hands to \<open>onError\<close>
  without changing the connection.
\<close>

datatype 'pk wallet_event = Connected 'pk | Disconnected | WalletErr string

fun wallet_step :: "'pk wallet_ctx \<Rightarrow> 'pk wallet_event \<Rightarrow> 'pk wallet_ctx" where
  "wallet_step c (Connected k) = c\<lparr>wc_public_key := Some k\<rparr>"
| "wallet_step c Disconnected = c\<lparr>wc_public_key := None\<rparr>"
| "wallet_step c (WalletErr err) = on_error err c"

section \<open>The wallet buttons\<close>

text \<open>
  Where a component renders: in the server pass or in the browser, and there
  before or after the code-split chunk of a dynamic import has arrived.
\<close>

record render_env =
  on_server :: bool
  chunk_loaded :: bool

text \<open>
  \<open>dynamic(loader, {ssr})\<close> of \<open>next/dynamic\<close>: with \<open>ssr: false\<close> the
  server pass renders nothing; in the browser the default loading element
  (nothing) stands in until the loader's chunk resolves, then the component.
\<close>

definition dynamic_import :: "'a \<Rightarrow> bool \<Rightarrow> render_env \<Rightarrow> 'a option" where
  "dynamic_import w ssr env =
     (if on_server env then (if ssr then Some w else None)
      else if chunk_loaded env then Some w else None)"

text \<open>The two buttons of \<open>@solana/wallet-adapter-react-ui\<close> the provider re-exports.\<close>

datatype wallet_widget = MultiButton | DisconnectButton

definition wallet_button :: "render_env \<Rightarrow> wallet_widget option" where
  "wallet_button = dynamic_import MultiButton False"

definition wallet_disconnect_button :: "render_env \<Rightarrow> wallet_widget option" where
  "wallet_disconnect_button = dynamic_import DisconnectButton False"

section \<open>The Anchor provider\<close>

datatype commitment = Processed | Confirmed | Finalized

record 'pk anchor_provider =
  connection :: string
  provider_wallet :: "'pk option"
  provider_commitment :: commitment

text \<open>
  \<open>useAnchorProvider()\<close>: the context's connection, the wallet cast to
  \<open>AnchorWallet\<close> (its key may be \<open>null\<close>: the cast checks nothing), and
  \<open>{commitment: 'confirmed'}\<close>.
\<close>

definition use_anchor_provider :: "provider_props \<Rightarrow> 'pk wallet_ctx \<Rightarrow> 'pk anchor_provider" where
  "use_anchor_provider props c =
     \<lparr>connection = endpoint props, provider_wallet = wc_public_key c, provider_commitment = Confirmed\<rparr>"

end
