(* ===== verification/App.thy ===== *)
theory App
  imports Provider Escrow
begin

text \<open>
  The running application: the wallet context of \<open>SolanaProvider\<close>, the swap
  page, the transactions the page has submitted to the cluster and not yet
  seen processed, and the chain's ledger.  The page submits with \<open>.rpc()\<close>;
  the cluster processes or drops each submitted transaction in any order; the
  promise awaiting it, if the page still holds it (a reload drops the page's
  promises, not the transactions), resolves or rejects accordingly.
\<close>

section \<open>The application state\<close>

record 'pk app =
  app_wallet :: "'pk wallet_ctx"
  app_page :: "'pk page"
  app_pool :: "'pk instruction list"
  app_chain :: "'pk ledger"

definition init_app :: "'pk option \<Rightarrow> 'pk ledger \<Rightarrow> 'pk app" where
  "init_app w l0 =
     \<lparr>app_wallet = \<lparr>wc_public_key = w, wc_console = []\<rparr>, app_page = init_page w,
      app_pool = [], app_chain = l0\<rparr>"

text \<open>
  Events: the wallet adapter's, the user's (mount, tabs, inputs, submits), and
  the cluster's: a submitted transaction is processed (executed, its result
  confirmed) or dropped (it never lands, and its promise rejects).
\<close>

datatype 'pk app_event =
    WalletEv "'pk wallet_event"
  | UserEv "'pk event"
  | TxProcessed nat string
  | TxDropped nat

text \<open>How \<open>useWallet()\<close> re-renders the page on a wallet event.\<close>

fun page_wallet_event :: "'pk wallet_event \<Rightarrow> 'pk event option" where
  "page_wallet_event (Connected k) = Some (WalletConnected k)"
| "page_wallet_event Disconnected = Some WalletDisconnected"
| "page_wallet_event (WalletErr err) = None"

text \<open>The page's own events: the rest come from the wallet or the cluster.\<close>

fun user_event :: "'pk event \<Rightarrow> bool" where
  "user_event (WalletConnected k) = False"
| "user_event WalletDisconnected = False"
| "user_event (RpcConfirmed i sig) = False"
| "user_event (RpcFailed i) = False"
| "user_event e = True"

text \<open>The position of the first pending promise awaiting a transaction.\<close>

primrec index_of :: "'a \<Rightarrow> 'a list \<Rightarrow> nat" where
  "index_of x [] = 0"
| "index_of x (y # ys) = (if x = y then 0 else Suc (index_of x ys))"

definition remove_nth :: "nat \<Rightarrow> 'a list \<Rightarrow> 'a list" where
  "remove_nth i xs = take i xs @ drop (Suc i) xs"

text \<open>The page after the cluster's answer to \<open>ix\<close>: nothing, if no promise awaits it.\<close>

definition settle :: "'pk solana_lib \<Rightarrow> 'pk instruction \<Rightarrow> (nat \<Rightarrow> 'pk event) \<Rightarrow> 'pk page \<Rightarrow> 'pk page" where
  "settle lib ix ev p =
     (if ix \<in> set (inflight p) then page_step lib p (ev (index_of ix (inflight p))) else p)"

fun app_step :: "'pk solana_lib \<Rightarrow> 'pk app \<Rightarrow> 'pk app_event \<Rightarrow> 'pk app option" where
  "app_step lib a (WalletEv we) =
     Some (a\<lparr>app_wallet := wallet_step (app_wallet a) we,
             app_page := (case page_wallet_event we of
                            None \<Rightarrow> app_page a
                          | Some e \<Rightarrow> page_step lib (app_page a) e)\<rparr>)"
| "app_step lib a (UserEv e) =
     (if user_event e \<and> enabled (app_page a) e then
        (let p' = page_step lib (app_page a) e in
         Some (a\<lparr>app_page := p',
                 app_pool := app_pool a @ drop (length (sent (app_page a))) (sent p')\<rparr>))
      else None)"
| "app_step lib a (TxProcessed j sig) =
     (if j < length (app_pool a) then
        (let ix = app_pool a ! j in
         case execute lib ix (app_chain a) of
           Inl err \<Rightarrow>
             Some (a\<lparr>app_page := settle lib ix RpcFailed (app_page a),
                     app_pool := remove_nth j (app_pool a)\<rparr>)
         | Inr l' \<Rightarrow>
             Some (a\<lparr>app_page := settle lib ix (\<lambda>i. RpcConfirmed i sig) (app_page a),
                     app_pool := remove_nth j (app_pool a), app_chain := l'\<rparr>))
      else None)"
| "app_step lib a (TxDropped j) =
     (if j < length (app_pool a) then
        Some (a\<lparr>app_page := settle lib (app_pool a ! j) RpcFailed (app_page a),
                app_pool := remove_nth j (app_pool a)\<rparr>)
      else None)"

inductive app_reachable :: "'pk solana_lib \<Rightarrow> 'pk ledger \<Rightarrow> 'pk app \<Rightarrow> bool" for lib l0 where
  init: "app_reachable lib l0 (init_app w l0)"
| step: "app_reachable lib l0 a \<Longrightarrow> app_step lib a ev = Some a' \<Longrightarrow> app_reachable lib l0 a'"

fun app_run :: "'pk solana_lib \<Rightarrow> 'pk app \<Rightarrow> 'pk app_event list \<Rightarrow> 'pk app option" where
  "app_run lib a [] = Some a"
| "app_run lib a (ev # evs) = (case app_step lib a ev of None \<Rightarrow> None | Some a' \<Rightarrow> app_run lib a' evs)"

text \<open>
  The signer the program requires of an instruction (the IDL's \<open>signer\<close>
  account): the maker of a \<open>makeOffer\<close>, the taker of a \<open>takeOffer\<close>.
\<close>

fun ix_signer :: "'pk instruction \<Rightarrow> 'pk" where
  "ix_signer (MakeOffer i a b acc) = mk_maker acc"
| "ix_signer (TakeOffer acc) = tk_taker acc"

section \<open>Invariant\<close>

text \<open>
  The page sees the wallet's key; every promise the page awaits has its
  transaction in the pool; every offer on the chain was there at the start or
  comes from a \<open>makeOffer\<close> the page sent, with its maker and id.
\<close>

definition offer_from_sent :: "'pk instruction list \<Rightarrow> 'pk offer \<Rightarrow> bool" where
  "offer_from_sent ixs ofr \<longleftrightarrow>
     (\<exists>i a b acc. MakeOffer i a b acc \<in> set ixs \<and> offer_maker ofr = mk_maker acc \<and>
        offer_id ofr = nat \<bar>i\<bar> \<and> offer_mint_a ofr = mk_token_mint_a acc \<and>
        offer_mint_b ofr = mk_token_mint_b acc \<and> offer_wanted ofr = nat \<bar>b\<bar>)"

definition app_inv :: "'pk ledger \<Rightarrow> 'pk app \<Rightarrow> bool" where
  "app_inv l0 a \<longleftrightarrow>
     wallet (app_page a) = wc_public_key (app_wallet a) \<and>
     mset (inflight (app_page a)) \<subseteq># mset (app_pool a) \<and>
     set (app_pool a) \<subseteq> set (sent (app_page a)) \<and>
     (\<forall>addr ofr. offers (app_chain a) addr = Some ofr \<longrightarrow>
        offers l0 addr = Some ofr \<or> offer_from_sent (sent (app_page a)) ofr)"

text \<open>
  The wallet control in the page's corner (\<open>swap.tsx\<close>): the disconnect
  button while \<open>useWallet()\<close> has a key, the multi button otherwise.
\<close>

definition wallet_control :: "render_env \<Rightarrow> 'pk page \<Rightarrow> wallet_widget option" where
  "wallet_control env p =
     (if disconnect_button (render_page p) then wallet_disconnect_button env else wallet_button env)"

section \<open>Lemmas on the steps\<close>

lemma remove_nth_remove1:
  "x \<in> set xs \<Longrightarrow> remove_nth (index_of x xs) xs = remove1 x xs"
  by (induction xs) (auto simp: remove_nth_def)

lemma mset_remove_nth: "j < length xs \<Longrightarrow> mset (remove_nth j xs) = mset xs - {#xs ! j#}"
  by (metis remove_nth_def id_take_nth_drop mset_append mset.simps(2)
      add_mset_add_mset_same_iff add_mset_remove_trivial union_mset_add_mset_right)

lemma set_remove_nth: "set (remove_nth j xs) \<subseteq> set xs"
  by (auto simp: remove_nth_def dest: in_set_takeD in_set_dropD)

lemma subset_mset_remove:
  "A \<subseteq># B \<Longrightarrow> A - {#x#} \<subseteq># B - {#x#}"
  by (simp add: subseteq_mset_def) (metis diff_le_mono)

lemma subset_mset_remove_absent:
  "A \<subseteq># B \<Longrightarrow> x \<notin># A \<Longrightarrow> A \<subseteq># B - {#x#}"
  by (metis diff_single_trivial subset_mset_remove)

text \<open>A user event sends at most one instruction, pending and recorded at once, or drops pending calls.\<close>

lemma user_step_cases:
  assumes "user_event e"
  shows "wallet (page_step lib p e) = wallet p \<and>
         ((\<exists>ix. inflight (page_step lib p e) = inflight p @ [ix] \<and> sent (page_step lib p e) = sent p @ [ix]) \<or>
          (mset (inflight (page_step lib p e)) \<subseteq># mset (inflight p) \<and> sent (page_step lib p e) = sent p))"
  using assms
  by (cases e) (auto simp: after_submit_def default_prevented_def Let_def reload_def Let_def split: submit_outcome.split)

lemma settle_page:
  assumes "\<And>i. ev i = RpcFailed i \<or> (\<exists>sig. ev i = RpcConfirmed i sig)"
  shows "wallet (settle lib ix ev p) = wallet p" "sent (settle lib ix ev p) = sent p"
    "inflight (settle lib ix ev p) = remove1 ix (inflight p)"
  using assms [of "index_of ix (inflight p)"]
  by (auto simp: settle_def remove_nth_remove1 [unfolded remove_nth_def] remove1_idem)

text \<open>A make creates the only new offer, from its own arguments; a take only removes one.\<close>

lemma execute_offers:
  assumes "execute lib ix l = Inr l'" "offers l' addr = Some ofr"
  shows "offers l addr = Some ofr \<or> offer_from_sent [ix] ofr"
proof (cases ix)
  case (MakeOffer i a b acc)
  then have "make_offer lib (mk_maker acc) (nat \<bar>i\<bar>) (mk_token_mint_a acc)
      (mk_token_mint_b acc) (nat \<bar>a\<bar>) (nat \<bar>b\<bar>) l = Inr l'" using assms(1) by simp
  then show ?thesis
  proof (rule make_offer_Inr)
    fix pda l1
    assume t: "transfer (mk_maker acc, mk_token_mint_a acc) (pda, mk_token_mint_a acc) (nat \<bar>a\<bar>) l = Inr l1"
      and l': "l' = l1\<lparr>offers := (offers l1)(pda \<mapsto> \<lparr>offer_maker = mk_maker acc, offer_id = nat \<bar>i\<bar>,
                 offer_mint_a = mk_token_mint_a acc, offer_mint_b = mk_token_mint_b acc, offer_wanted = nat \<bar>b\<bar>\<rparr>)\<rparr>"
    show ?thesis using assms(2) transfer_Inr(2) [OF t] MakeOffer
      by (auto simp: l' offer_from_sent_def split: if_splits)
  qed
next
  case (TakeOffer acc)
  then have "take_offer (tk_taker acc) (tk_offer acc) (tk_maker acc)
      (tk_token_mint_a acc) (tk_token_mint_b acc) l = Inr l'" using assms(1) by simp
  then show ?thesis
  proof (rule take_offer_Inr)
    fix ofr0 l1 l2
    assume t1: "transfer (tk_taker acc, tk_token_mint_b acc) (tk_maker acc, tk_token_mint_b acc) (offer_wanted ofr0) l = Inr l1"
      and t2: "transfer (tk_offer acc, tk_token_mint_a acc) (tk_taker acc, tk_token_mint_a acc)
                 (token_balance l1 (tk_offer acc, tk_token_mint_a acc)) l1 = Inr l2"
      and l': "l' = l2\<lparr>offers := (offers l2)(tk_offer acc := None)\<rparr>"
    show ?thesis using assms(2) transfer_Inr(2) [OF t1] transfer_Inr(2) [OF t2]
      by (auto simp: l' split: if_splits)
  qed
qed

lemma offer_from_sent_mono:
  "offer_from_sent xs ofr \<Longrightarrow> set xs \<subseteq> set ys \<Longrightarrow> offer_from_sent ys ofr"
  unfolding offer_from_sent_def by blast

lemma offer_from_sent_append [simp]:
  "offer_from_sent (xs @ ys) ofr \<longleftrightarrow> offer_from_sent xs ofr \<or> offer_from_sent ys ofr"
  unfolding offer_from_sent_def set_append by blast

lemma pool_remove_inv:
  assumes "mset xs \<subseteq># mset pool" "j < length pool"
  shows "mset xs - {#pool ! j#} \<subseteq># mset (remove_nth j pool)"
  using assms
  by (cases "pool ! j \<in> set xs") (simp_all add: mset_remove_nth subset_mset_remove subset_mset_remove_absent)

lemmas settle_simps = settle_page [where ev = RpcFailed] settle_page [where ev = "\<lambda>i. RpcConfirmed i sig" for sig]

lemma app_step_inv:
  assumes inv: "app_inv l0 a" and st: "app_step lib a ev = Some a'"
  shows "app_inv l0 a'"
proof (cases ev)
  case (WalletEv we)
  then show ?thesis using inv st by (cases we) (clarsimp simp: app_inv_def on_error_def)+
next
  case (UserEv e)
  let ?p = "app_page a" and ?p' = "page_step lib (app_page a) e"
  have u: "user_event e" and a': "a' = a\<lparr>app_page := ?p', app_pool := app_pool a @ drop (length (sent ?p)) (sent ?p')\<rparr>"
    using st UserEv by (simp_all add: Let_def split: if_splits)
  from user_step_cases [OF u, of lib ?p] show ?thesis
  proof (elim conjE disjE exE)
    fix ix
    assume "wallet ?p' = wallet ?p" "inflight ?p' = inflight ?p @ [ix]" "sent ?p' = sent ?p @ [ix]"
    then show ?thesis using inv
      by (auto simp: a' app_inv_def)
  next
    assume "wallet ?p' = wallet ?p" "mset (inflight ?p') \<subseteq># mset (inflight ?p)" "sent ?p' = sent ?p"
    then show ?thesis using inv
      by (auto simp: a' app_inv_def intro: subset_mset.order_trans)
  qed
next
  case (TxProcessed j sig)
  let ?ix = "app_pool a ! j"
  have j: "j < length (app_pool a)" using st TxProcessed by (simp split: if_splits)
  have ix: "?ix \<in> set (sent (app_page a))" using inv j by (auto simp: app_inv_def)
  have pool: "mset (inflight (app_page a)) - {#?ix#} \<subseteq># mset (remove_nth j (app_pool a))"
    using inv j by (simp add: app_inv_def pool_remove_inv)
  have pset: "set (remove_nth j (app_pool a)) \<subseteq> set (sent (app_page a))"
    using inv set_remove_nth [of j "app_pool a"] by (auto simp: app_inv_def)
  show ?thesis
  proof (cases "execute lib ?ix (app_chain a)")
    case (Inl err)
    then show ?thesis using st TxProcessed j inv pool pset by (auto simp: app_inv_def settle_simps; blast)
  next
    case (Inr l')
    have "offers l0 addr = Some ofr \<or> offer_from_sent (sent (app_page a)) ofr"
      if "offers l' addr = Some ofr" for addr ofr
      using execute_offers [OF Inr that] inv ix offer_from_sent_mono [of "[?ix]" ofr "sent (app_page a)"]
      by (auto simp: app_inv_def)
    then show ?thesis using st TxProcessed j Inr inv pool pset by (auto simp: app_inv_def settle_simps; blast)
  qed
next
  case (TxDropped j)
  have j: "j < length (app_pool a)" using st TxDropped by (simp split: if_splits)
  have pool: "mset (inflight (app_page a)) - {#app_pool a ! j#} \<subseteq># mset (remove_nth j (app_pool a))"
    using inv j by (simp add: app_inv_def pool_remove_inv)
  have pset: "set (remove_nth j (app_pool a)) \<subseteq> set (sent (app_page a))"
    using inv set_remove_nth [of j "app_pool a"] by (auto simp: app_inv_def)
  show ?thesis using st TxDropped j inv pool pset by (auto simp: app_inv_def settle_simps; blast)
qed

lemma handle_make_offer_signer:
  "handle_make_offer lib pk s = Sent ix \<Longrightarrow> pk = Some (ix_signer ix)"
  by (auto simp: handle_make_offer_def sum_bind_def split: option.splits sum.splits if_splits)

lemma handle_take_offer_signer:
  "handle_take_offer lib pk s = Sent ix \<Longrightarrow> pk = Some (ix_signer ix)"
  by (auto simp: handle_take_offer_def sum_bind_def split: option.splits sum.splits if_splits)

text \<open>What a page step adds to the sent transactions comes from one of the two handlers, with the page's key.\<close>

lemma page_step_new_sent:
  assumes "ix \<in> set (drop (length (sent p)) (sent (page_step lib p e)))"
  shows "wallet p = Some (ix_signer ix)"
proof -
  have "handle_make_offer lib (wallet p) (ui p) = Sent ix \<or> handle_take_offer lib (wallet p) (ui p) = Sent ix"
    using assms
    by (cases e) (auto simp: after_submit_def default_prevented_def Let_def reload_def Let_def split: submit_outcome.splits)
  then show ?thesis using handle_make_offer_signer handle_take_offer_signer by blast
qed

lemma app_step_pool_new:
  assumes "app_inv l0 a" "app_step lib a ev = Some a'" "ix \<in> set (app_pool a')" "ix \<notin> set (app_pool a)"
  shows "wc_public_key (app_wallet a) = Some (ix_signer ix)"
proof (cases ev)
  case (UserEv e)
  then have "ix \<in> set (drop (length (sent (app_page a))) (sent (page_step lib (app_page a) e)))"
    using assms(2-4) by (auto simp: Let_def split: if_splits)
  then show ?thesis using assms(1) page_step_new_sent by (fastforce simp: app_inv_def)
next
  case (TxProcessed j sig)
  then show ?thesis using assms(2-4) set_remove_nth [of j "app_pool a"]
    by (auto simp: Let_def split: if_splits sum.splits)
next
  case (TxDropped j)
  then show ?thesis using assms(2-4) set_remove_nth [of j "app_pool a"] by (auto split: if_splits)
qed (use assms(2-4) in auto)

lemma app_inv_init: "app_inv l0 (init_app w l0)"
  by (simp add: app_inv_def init_app_def init_page_def)

lemma app_reachable_app_inv: "app_reachable lib l0 a \<Longrightarrow> app_inv l0 a"
  by (induction rule: app_reachable.induct) (auto intro: app_inv_init app_step_inv)

lemma app_run_reachable:
  "app_reachable lib l0 a \<Longrightarrow> app_run lib a evs = Some a' \<Longrightarrow> app_reachable lib l0 a'"
  by (induction evs arbitrary: a) (auto split: option.splits intro: app_reachable.step)

text \<open>
  A run used by the examples: with key 1 connected, the page mounts with the
  id 42 (bytes \<open>42, 0, ..., 0\<close>), mints 7 and 8 are typed, and Create Offer sends.
\<close>

lemma demo_submit:
  "\<exists>a a'. app_run example_lib (init_app (Some 1) (\<lparr>token_balance = (\<lambda>_. 0)((1, 7) := 100), offers = Map.empty\<rparr> :: nat ledger)) [UserEv (MountEffect [42, 0, 0, 0, 0, 0, 0, 0]), UserEv (Change FMintA ''7''), UserEv (Change FMintB ''8'')] = Some a \<and>
          app_step example_lib a (UserEv SubmitMake) = Some a' \<and>
          app_pool a = [] \<and> app_pool a' = [MakeOffer 42 0 0 \<lparr>mk_maker = 1, mk_token_mint_a = 7, mk_token_mint_b = 8, mk_token_program = 12\<rparr>] \<and> wc_public_key (app_wallet a) = Some 1"
proof -
  have nv: "number_value 42 = Fin 42" "number_value 0 = Fin 0"
    using number_value_nat [of 42] number_value_nat [of 0] by simp_all
  show ?thesis
    by (simp add: nv init_app_def init_page_def initial_state_def generate_random_id_def
        get_big_uint64_le_def le_value_def MAX_SAFE_INTEGER_def handle_make_offer_def base_units_def
        example_lib_def new_public_key_def is_dec_digit_def radix_value_def radix_digit_def
        bn_of_number_Fin js_trunc_def after_submit_def default_prevented_def Let_def)
qed

section \<open>Properties of the application\<close>

text \<open>
  C11: every transaction the application submits is signed by the key of the
  Anchor provider's wallet, and that key is the signer the program requires:
  the maker of a \<open>makeOffer\<close>, the taker of a \<open>takeOffer\<close>.
\<close>

theorem app_submits_signed:
  assumes "app_reachable lib l0 a" "app_step lib a ev = Some a'"
    and "ix \<in> set (app_pool a')" "ix \<notin> set (app_pool a)"
  shows "provider_wallet (use_anchor_provider props (app_wallet a)) = Some (ix_signer ix)"
  using app_step_pool_new [OF app_reachable_app_inv [OF assms(1)] assms(2-4)]
  by (simp add: use_anchor_provider_def)

theorem app_submits_signed_witness:
  "\<exists>a a'. app_reachable example_lib (\<lparr>token_balance = (\<lambda>_. 0)((1, 7) := 100), offers = Map.empty\<rparr> :: nat ledger) a \<and> app_step example_lib a (UserEv SubmitMake) = Some a' \<and>
     (MakeOffer 42 0 0 \<lparr>mk_maker = 1, mk_token_mint_a = 7, mk_token_mint_b = 8, mk_token_program = 12\<rparr>) \<in> set (app_pool a') \<and> (MakeOffer 42 0 0 \<lparr>mk_maker = 1, mk_token_mint_a = 7, mk_token_mint_b = 8, mk_token_program = 12\<rparr>) \<notin> set (app_pool a) \<and>
     provider_wallet (use_anchor_provider \<lparr>endpoint = ''https://api.devnet.solana.com'', wallet_adapters = [], auto_connect = True\<rparr> (app_wallet a)) =
       Some (ix_signer ((MakeOffer 42 0 0 \<lparr>mk_maker = 1, mk_token_mint_a = 7, mk_token_mint_b = 8, mk_token_program = 12\<rparr>)))"
proof -
  obtain a a' where r: "app_run example_lib (init_app (Some 1) (\<lparr>token_balance = (\<lambda>_. 0)((1, 7) := 100), offers = Map.empty\<rparr> :: nat ledger)) [UserEv (MountEffect [42, 0, 0, 0, 0, 0, 0, 0]), UserEv (Change FMintA ''7''), UserEv (Change FMintB ''8'')] = Some a"
    and s: "app_step example_lib a (UserEv SubmitMake) = Some a'" and p: "app_pool a = []" "app_pool a' = [(MakeOffer 42 0 0 \<lparr>mk_maker = 1, mk_token_mint_a = 7, mk_token_mint_b = 8, mk_token_program = 12\<rparr>)]"
    using demo_submit by blast
  have ra: "app_reachable example_lib (\<lparr>token_balance = (\<lambda>_. 0)((1, 7) := 100), offers = Map.empty\<rparr> :: nat ledger) a" using app_run_reachable [OF app_reachable.init r] .
  have "provider_wallet (use_anchor_provider \<lparr>endpoint = ''https://api.devnet.solana.com'', wallet_adapters = [], auto_connect = True\<rparr> (app_wallet a)) = Some (ix_signer (MakeOffer 42 0 0 \<lparr>mk_maker = 1, mk_token_mint_a = 7, mk_token_mint_b = 8, mk_token_program = 12\<rparr>))"
    by (rule app_submits_signed [OF ra s]) (simp_all add: p)
  moreover have "(MakeOffer 42 0 0 \<lparr>mk_maker = 1, mk_token_mint_a = 7, mk_token_mint_b = 8, mk_token_program = 12\<rparr>) \<in> set (app_pool a')" "(MakeOffer 42 0 0 \<lparr>mk_maker = 1, mk_token_mint_a = 7, mk_token_mint_b = 8, mk_token_program = 12\<rparr>) \<notin> set (app_pool a)" by (simp_all add: p)
  ultimately show ?thesis using ra s by blast
qed

text \<open>
  C16: in every reachable state the server pass renders no wallet control and
  neither does the browser before the wallet UI chunk loads; after it, the
  control is the disconnect button exactly when the wallet adapter holds a key.
\<close>

theorem wallet_control_follows_adapter:
  assumes "app_reachable lib l0 a"
  shows "wallet_control env (app_page a) =
           (if on_server env \<or> \<not> chunk_loaded env then None
            else Some (if wc_public_key (app_wallet a) = None then MultiButton else DisconnectButton))"
  using app_reachable_app_inv [OF assms]
  by (simp add: wallet_control_def render_page_def app_inv_def wallet_button_def
      wallet_disconnect_button_def dynamic_import_def)

theorem wallet_control_follows_adapter_witness:
  "wallet_control \<lparr>on_server = False, chunk_loaded = True\<rparr> (app_page (init_app (Some (1::nat)) \<lparr>token_balance = (\<lambda>_. 0), offers = Map.empty\<rparr>)) =
     Some DisconnectButton"
proof -
  have r: "app_reachable example_lib \<lparr>token_balance = (\<lambda>_. 0), offers = Map.empty\<rparr>
             (init_app (Some (1::nat)) \<lparr>token_balance = (\<lambda>_. 0), offers = Map.empty\<rparr>)"
    by (rule app_reachable.init)
  show ?thesis using wallet_control_follows_adapter [OF r, of "\<lparr>on_server = False, chunk_loaded = True\<rparr>"]
    by (simp add: init_app_def)
qed

end
