(* ===== verification/Custody.thy ===== *)
theory Custody
  imports App
begin

text \<open>
  Custody of the users' tokens in the running application: a token account
  whose balance falls below its initial value belongs to the signer of a
  transaction the page sent, or to an offer account (one on the chain at the
  start, or the address of a \<open>makeOffer\<close> the page sent).  No other owner
  loses tokens, whatever the order in which the cluster processes or drops
  the submitted transactions.
\<close>

section \<open>Who may be debited\<close>

text \<open>The offer account a \<open>makeOffer\<close> creates, at the address its seeds derive.\<close>

fun offer_address :: "'pk solana_lib \<Rightarrow> 'pk instruction \<Rightarrow> 'pk option" where
  "offer_address lib (MakeOffer i a b acc) = find_pda lib (offer_seeds lib (mk_maker acc) (nat \<bar>i\<bar>)) (program_id lib)"
| "offer_address lib (TakeOffer acc) = None"

definition debit_authorized :: "'pk solana_lib \<Rightarrow> 'pk ledger \<Rightarrow> 'pk instruction list \<Rightarrow> 'pk \<Rightarrow> bool" where
  "debit_authorized lib l0 ixs own \<longleftrightarrow>
     offers l0 own \<noteq> None \<or> (\<exists>ix\<in>set ixs. ix_signer ix = own \<or> offer_address lib ix = Some own)"

definition custody_inv :: "'pk solana_lib \<Rightarrow> 'pk ledger \<Rightarrow> 'pk app \<Rightarrow> bool" where
  "custody_inv lib l0 a \<longleftrightarrow>
     (\<forall>own m. token_balance (app_chain a) (own, m) < token_balance l0 (own, m) \<longrightarrow>
        debit_authorized lib l0 (sent (app_page a)) own) \<and>
     (\<forall>own. offers (app_chain a) own \<noteq> None \<longrightarrow>
        offers l0 own \<noteq> None \<or> (\<exists>ix\<in>set (sent (app_page a)). offer_address lib ix = Some own))"

section \<open>Lemmas\<close>

lemma transfer_debit:
  "transfer src dst k l = Inr l' \<Longrightarrow> token_balance l' x < token_balance l x \<Longrightarrow> x = src"
  by (auto simp: transfer_Inr(3) split: if_splits)

lemma execute_debit:
  assumes "execute lib ix l = Inr l'" "token_balance l' (own, m) < token_balance l (own, m)"
  shows "ix_signer ix = own \<or> offers l own \<noteq> None"
proof (cases ix)
  case (MakeOffer i a b acc)
  then have "make_offer lib (mk_maker acc) (nat \<bar>i\<bar>) (mk_token_mint_a acc)
      (mk_token_mint_b acc) (nat \<bar>a\<bar>) (nat \<bar>b\<bar>) l = Inr l'" using assms(1) by simp
  then obtain addr l1 f where t: "transfer (mk_maker acc, mk_token_mint_a acc) (addr, mk_token_mint_a acc) (nat \<bar>a\<bar>) l = Inr l1"
    and l': "l' = l1\<lparr>offers := f\<rparr>"
    by (rule make_offer_Inr) blast
  show ?thesis using transfer_debit [OF t, of "(own, m)"] assms(2) MakeOffer by (simp add: l')
next
  case (TakeOffer acc)
  then have "take_offer (tk_taker acc) (tk_offer acc) (tk_maker acc)
      (tk_token_mint_a acc) (tk_token_mint_b acc) l = Inr l'" using assms(1) by simp
  then show ?thesis
  proof (rule take_offer_Inr)
    fix ofr l1 l2
    assume ofr: "offers l (tk_offer acc) = Some ofr"
      and t1: "transfer (tk_taker acc, tk_token_mint_b acc) (tk_maker acc, tk_token_mint_b acc) (offer_wanted ofr) l = Inr l1"
      and t2: "transfer (tk_offer acc, tk_token_mint_a acc) (tk_taker acc, tk_token_mint_a acc)
                 (token_balance l1 (tk_offer acc, tk_token_mint_a acc)) l1 = Inr l2"
      and l': "l' = l2\<lparr>offers := (offers l2)(tk_offer acc := None)\<rparr>"
    have "token_balance l2 (own, m) < token_balance l1 (own, m) \<or> token_balance l1 (own, m) < token_balance l (own, m)"
    proof -
      have "token_balance l' (own, m) = token_balance l2 (own, m)" by (simp add: l')
      then show ?thesis using assms(2) by linarith
    qed
    then show ?thesis
      using transfer_debit [OF t1, of "(own, m)"] transfer_debit [OF t2, of "(own, m)"] ofr TakeOffer by auto
  qed
qed

lemma execute_new_offer:
  assumes "execute lib ix l = Inr l'" "offers l' own \<noteq> None"
  shows "offers l own \<noteq> None \<or> offer_address lib ix = Some own"
proof (cases ix)
  case (MakeOffer i a b acc)
  then have "make_offer lib (mk_maker acc) (nat \<bar>i\<bar>) (mk_token_mint_a acc)
      (mk_token_mint_b acc) (nat \<bar>a\<bar>) (nat \<bar>b\<bar>) l = Inr l'" using assms(1) by simp
  then show ?thesis
  proof (rule make_offer_Inr)
    fix addr l1
    assume "find_pda lib (offer_seeds lib (mk_maker acc) (nat \<bar>i\<bar>)) (program_id lib) = Some addr"
      and t: "transfer (mk_maker acc, mk_token_mint_a acc) (addr, mk_token_mint_a acc) (nat \<bar>a\<bar>) l = Inr l1"
      and "l' = l1\<lparr>offers := (offers l1)(addr \<mapsto>
            \<lparr>offer_maker = mk_maker acc, offer_id = nat \<bar>i\<bar>, offer_mint_a = mk_token_mint_a acc,
             offer_mint_b = mk_token_mint_b acc, offer_wanted = nat \<bar>b\<bar>\<rparr>)\<rparr>"
    then show ?thesis using assms(2) transfer_Inr(2) [OF t] MakeOffer by (auto split: if_splits)
  qed
next
  case (TakeOffer acc)
  then have "take_offer (tk_taker acc) (tk_offer acc) (tk_maker acc)
      (tk_token_mint_a acc) (tk_token_mint_b acc) l = Inr l'" using assms(1) by simp
  then show ?thesis
  proof (rule take_offer_Inr)
    fix ofr l1 l2
    assume t1: "transfer (tk_taker acc, tk_token_mint_b acc) (tk_maker acc, tk_token_mint_b acc) (offer_wanted ofr) l = Inr l1"
      and t2: "transfer (tk_offer acc, tk_token_mint_a acc) (tk_taker acc, tk_token_mint_a acc)
                 (token_balance l1 (tk_offer acc, tk_token_mint_a acc)) l1 = Inr l2"
      and "l' = l2\<lparr>offers := (offers l2)(tk_offer acc := None)\<rparr>"
    then show ?thesis using assms(2) transfer_Inr(2) [OF t1] transfer_Inr(2) [OF t2] by (auto split: if_splits)
  qed
qed

text \<open>A step of the application only adds sent transactions, and changes the chain only by executing a pooled one.\<close>

lemma app_step_sent_mono:
  assumes "app_step lib a ev = Some a'"
  shows "set (sent (app_page a)) \<subseteq> set (sent (app_page a'))"
proof (cases ev)
  case (WalletEv we)
  then show ?thesis using assms by (cases we) auto
next
  case (UserEv e)
  then show ?thesis using assms user_step_cases [of e lib "app_page a"] by (auto simp: Let_def split: if_splits)
qed (use assms in \<open>auto simp: Let_def settle_simps split: if_splits sum.splits\<close>)

lemma app_step_chain:
  assumes "app_step lib a ev = Some a'"
  shows "app_chain a' = app_chain a \<or> (\<exists>ix\<in>set (app_pool a). execute lib ix (app_chain a) = Inr (app_chain a'))"
proof (cases ev)
  case (TxProcessed j sig)
  then show ?thesis using assms by (auto simp: Let_def split: if_splits sum.splits)
qed (use assms in \<open>auto simp: Let_def split: if_splits\<close>)

lemma debit_authorized_mono:
  "debit_authorized lib l0 xs own \<Longrightarrow> set xs \<subseteq> set ys \<Longrightarrow> debit_authorized lib l0 ys own"
  unfolding debit_authorized_def by blast

lemma custody_inv_step:
  assumes inv: "custody_inv lib l0 a" and ainv: "app_inv l0 a" and st: "app_step lib a ev = Some a'"
  shows "custody_inv lib l0 a'"
proof -
  let ?s = "sent (app_page a)" and ?s' = "sent (app_page a')"
  have mono: "set ?s \<subseteq> set ?s'" by (rule app_step_sent_mono [OF st])
  have pool: "set (app_pool a) \<subseteq> set ?s" using ainv by (simp add: app_inv_def)
  have old_debit: "debit_authorized lib l0 ?s' own"
    if "token_balance (app_chain a) (own, m) < token_balance l0 (own, m)" for own m
  proof -
    have "debit_authorized lib l0 ?s own" using inv that unfolding custody_inv_def by blast
    then show ?thesis using mono by (rule debit_authorized_mono)
  qed
  have old_offer: "offers l0 own \<noteq> None \<or> (\<exists>ix\<in>set ?s'. offer_address lib ix = Some own)"
    if "offers (app_chain a) own \<noteq> None" for own
  proof -
    have "offers l0 own \<noteq> None \<or> (\<exists>ix\<in>set ?s. offer_address lib ix = Some own)"
      using inv that unfolding custody_inv_def by blast
    then show ?thesis using mono by blast
  qed
  from app_step_chain [OF st] show ?thesis
  proof (elim disjE bexE)
    assume "app_chain a' = app_chain a"
    then show ?thesis using old_debit old_offer unfolding custody_inv_def by simp
  next
    fix ix
    assume ix: "ix \<in> set (app_pool a)" and ex: "execute lib ix (app_chain a) = Inr (app_chain a')"
    have ixs: "ix \<in> set ?s'" using ix pool mono by blast
    have debit: "debit_authorized lib l0 ?s' own"
      if lt: "token_balance (app_chain a') (own, m) < token_balance l0 (own, m)" for own m
    proof (cases "token_balance (app_chain a') (own, m) < token_balance (app_chain a) (own, m)")
      case True
      then have "ix_signer ix = own \<or> offers (app_chain a) own \<noteq> None" by (rule execute_debit [OF ex])
      then show ?thesis
      proof
        assume "ix_signer ix = own"
        then show ?thesis using ixs unfolding debit_authorized_def by blast
      next
        assume "offers (app_chain a) own \<noteq> None"
        then show ?thesis using old_offer unfolding debit_authorized_def by blast
      qed
    next
      case False
      with lt have "token_balance (app_chain a) (own, m) < token_balance l0 (own, m)" by linarith
      then show ?thesis by (rule old_debit)
    qed
    have offer: "offers l0 own \<noteq> None \<or> (\<exists>ix\<in>set ?s'. offer_address lib ix = Some own)"
      if "offers (app_chain a') own \<noteq> None" for own
      using execute_new_offer [OF ex that] old_offer ixs by blast
    show ?thesis using debit offer unfolding custody_inv_def by blast
  qed
qed

lemma app_reachable_custody: "app_reachable lib l0 a \<Longrightarrow> custody_inv lib l0 a"
proof (induction rule: app_reachable.induct)
  case (init w)
  then show ?case by (simp add: custody_inv_def init_app_def)
next
  case (step a ev a')
  then show ?case using custody_inv_step app_reachable_app_inv by blast
qed

text \<open>A concrete run: the page makes an offer of 3 tokens (300 base units) and the cluster processes it.\<close>

lemma demo_make_processed:
  "\<exists>a. app_run example_lib (init_app (Some 1) (\<lparr>token_balance = (\<lambda>_. 0)((1, 7) := 1000), offers = Map.empty\<rparr> :: nat ledger))
         [UserEv (MountEffect [42, 0, 0, 0, 0, 0, 0, 0]), UserEv (Change FMintA ''7''), UserEv (Change FMintB ''8''),
          UserEv (Change FAmountA ''3''), UserEv SubmitMake, TxProcessed 0 ''sig''] = Some a \<and>
       token_balance (app_chain a) (1, 7) = 700"
proof -
  have pf: "js_parse_float ''3'' = Fin 3" by code_simp
  have nv: "number_value 42 = Fin 42" "number_value 300 = Fin 300" "number_value 0 = Fin 0"
    using number_value_nat [of 42] number_value_nat [of 300] number_value_nat [of 0] by simp_all
  show ?thesis
    by (simp add: pf nv init_app_def init_page_def initial_state_def generate_random_id_def
        get_big_uint64_le_def le_value_def MAX_SAFE_INTEGER_def handle_make_offer_def base_units_def
        example_lib_def new_public_key_def is_dec_digit_def radix_value_def radix_digit_def
        bn_of_number_Fin js_trunc_def after_submit_def default_prevented_def Let_def remove_nth_def settle_def make_offer_def transfer_def
        U64_MAX_def Let_def sum_bind_def)
qed

text \<open>
  C17: in every reachable state of the application, an owner whose balance of
  some mint is below its initial balance is the signer of a transaction the
  page sent, the offer account of a \<open>makeOffer\<close> the page sent, or an offer
  account present at the start: no other account is ever debited, whatever
  the wallet does and in whatever order the cluster processes or drops the
  submitted transactions.
\<close>

theorem debits_need_signature:
  assumes "app_reachable lib l0 a" "token_balance (app_chain a) (own, m) < token_balance l0 (own, m)"
  shows "debit_authorized lib l0 (sent (app_page a)) own"
  using app_reachable_custody [OF assms(1)] assms(2) unfolding custody_inv_def by blast

theorem debits_need_signature_witness:
  "\<exists>a. app_run example_lib (init_app (Some 1) (\<lparr>token_balance = (\<lambda>_. 0)((1, 7) := 1000), offers = Map.empty\<rparr> :: nat ledger))
         [UserEv (MountEffect [42, 0, 0, 0, 0, 0, 0, 0]), UserEv (Change FMintA ''7''), UserEv (Change FMintB ''8''),
          UserEv (Change FAmountA ''3''), UserEv SubmitMake, TxProcessed 0 ''sig''] = Some a \<and>
       token_balance (app_chain a) (1, 7) < 1000 \<and>
       debit_authorized example_lib \<lparr>token_balance = (\<lambda>_. 0)((1, 7) := 1000), offers = Map.empty\<rparr> (sent (app_page a)) 1"
proof -
  obtain a where run: "app_run example_lib (init_app (Some 1) (\<lparr>token_balance = (\<lambda>_. 0)((1, 7) := 1000), offers = Map.empty\<rparr> :: nat ledger))
         [UserEv (MountEffect [42, 0, 0, 0, 0, 0, 0, 0]), UserEv (Change FMintA ''7''), UserEv (Change FMintB ''8''),
          UserEv (Change FAmountA ''3''), UserEv SubmitMake, TxProcessed 0 ''sig''] = Some a"
    and bal: "token_balance (app_chain a) (1, 7) = 700"
    using demo_make_processed by blast
  have r: "app_reachable example_lib \<lparr>token_balance = (\<lambda>_. 0)((1, 7) := 1000), offers = Map.empty\<rparr> a"
    by (rule app_run_reachable [OF app_reachable.init run])
  have lt: "token_balance (app_chain a) (1, 7) <
            token_balance \<lparr>token_balance = (\<lambda>_. 0)((1, 7) := 1000), offers = Map.empty\<rparr> (1, 7)"
    using bal by simp
  show ?thesis using run bal debits_need_signature [OF r lt] by auto
qed

end
