(* ===== verification/Pda.thy ===== *)
theory Pda
  imports Solana_Lib
begin

text \<open>
  The program-derived-address search of \<open>@solana/web3.js\<close> that the record
  field \<^const>\<open>find_pda\<close> stands for (library code, modelled from its
  documented algorithm).  \<open>createProgramAddressSync\<close> hashes the seeds, the
  program id and the tag \<open>ProgramDerivedAddress\<close> with SHA-256 (a parameter
  \<open>h\<close> here) and refuses a hash on the curve; it throws a \<open>TypeError\<close> on a seed
  longer than 32 bytes.  \<open>findProgramAddressSync\<close> is a \<open>while\<close> loop over the
  nonce from 255 down, appending it as a one-byte seed: it returns the first
  address off the curve with its nonce, rethrows a \<open>TypeError\<close>, and gives up
  when the nonce reaches 0, which it never tries.
\<close>

datatype pda_error = MaxSeedLengthExceeded | InvalidSeeds | NoViableNonce

definition MAX_SEED_LENGTH :: nat where
  "MAX_SEED_LENGTH = 32"

definition create_program_address ::
  "'pk solana_lib \<Rightarrow> (byte list \<Rightarrow> 'pk) \<Rightarrow> byte list list \<Rightarrow> 'pk \<Rightarrow> pda_error + 'pk" where
  "create_program_address lib h seeds pid =
     (if list_ex (\<lambda>s. MAX_SEED_LENGTH < length s) seeds then Inl MaxSeedLengthExceeded
      else
        let k = h (concat seeds @ pubkey_bytes lib pid @ buffer_from ''ProgramDerivedAddress'') in
        if on_curve lib k then Inl InvalidSeeds else Inr k)"

text \<open>
  The loop of \<open>findProgramAddressSync\<close>, kept as the loop it is: \<open>None\<close> would
  be a search that never returns.
\<close>

partial_function (option) nonce_loop ::
  "'pk solana_lib \<Rightarrow> (byte list \<Rightarrow> 'pk) \<Rightarrow> byte list list \<Rightarrow> 'pk \<Rightarrow> nat \<Rightarrow> (pda_error + 'pk \<times> nat) option" where
  "nonce_loop lib h seeds pid nonce =
     (if nonce = 0 then Some (Inl NoViableNonce)
      else
        (case create_program_address lib h (seeds @ [[of_nat nonce]]) pid of
           Inl e \<Rightarrow> if e = MaxSeedLengthExceeded then Some (Inl e) else nonce_loop lib h seeds pid (nonce - 1)
         | Inr a \<Rightarrow> Some (Inr (a, nonce))))"

definition find_program_address_sync ::
  "'pk solana_lib \<Rightarrow> (byte list \<Rightarrow> 'pk) \<Rightarrow> byte list list \<Rightarrow> 'pk \<Rightarrow> (pda_error + 'pk \<times> nat) option" where
  "find_program_address_sync lib h seeds pid = nonce_loop lib h seeds pid 255"

text \<open>The library with its search in place: \<^const>\<open>find_pda\<close> is the address of a search that returns one.\<close>

definition web3_lib :: "'pk solana_lib \<Rightarrow> (byte list \<Rightarrow> 'pk) \<Rightarrow> 'pk solana_lib" where
  "web3_lib lib h =
     lib\<lparr>find_pda := (\<lambda>seeds pid.
           case find_program_address_sync lib h seeds pid of Some (Inr (a, n)) \<Rightarrow> Some a | _ \<Rightarrow> None)\<rparr>"

section \<open>Lemmas\<close>

lemma create_long_seed:
  "list_ex (\<lambda>s. MAX_SEED_LENGTH < length s) seeds \<Longrightarrow>
   create_program_address lib h (seeds @ [[x]]) pid = Inl MaxSeedLengthExceeded"
  by (simp add: create_program_address_def)

lemma create_not_long:
  "create_program_address lib h seeds pid \<noteq> Inl MaxSeedLengthExceeded \<longleftrightarrow>
   \<not> list_ex (\<lambda>s. MAX_SEED_LENGTH < length s) seeds"
  by (simp add: create_program_address_def Let_def)

lemma nonce_loop_Suc:
  "nonce_loop lib h seeds pid (Suc n) =
     (case create_program_address lib h (seeds @ [[of_nat (Suc n)]]) pid of
        Inl e \<Rightarrow> if e = MaxSeedLengthExceeded then Some (Inl e) else nonce_loop lib h seeds pid n
      | Inr a \<Rightarrow> Some (Inr (a, Suc n)))"
  by (simp add: nonce_loop.simps [of lib h seeds pid "Suc n"] split: sum.split)

lemma nonce_loop_0 [simp]: "nonce_loop lib h seeds pid 0 = Some (Inl NoViableNonce)"
  by (simp add: nonce_loop.simps)

lemma create_errors:
  "create_program_address lib h seeds pid = Inl e \<Longrightarrow> e = MaxSeedLengthExceeded \<or> e = InvalidSeeds"
  by (auto simp: create_program_address_def Let_def split: if_splits)

lemma top_nonce_refused:
  assumes "create_program_address lib h (seeds @ [[of_nat (Suc n)]]) pid = Inl MaxSeedLengthExceeded"
  shows "\<not> (0 < b \<and> b \<le> Suc n \<and> create_program_address lib h (seeds @ [[of_nat b]]) pid = Inr a \<and>
     (\<forall>c. b < c \<and> c \<le> Suc n \<longrightarrow> create_program_address lib h (seeds @ [[of_nat c]]) pid = Inl InvalidSeeds))"
proof
  assume R: "0 < b \<and> b \<le> Suc n \<and> create_program_address lib h (seeds @ [[of_nat b]]) pid = Inr a \<and>
     (\<forall>c. b < c \<and> c \<le> Suc n \<longrightarrow> create_program_address lib h (seeds @ [[of_nat c]]) pid = Inl InvalidSeeds)"
  show False
  proof (cases "b = Suc n")
    case True
    with R assms show False by (simp del: of_nat_Suc)
  next
    case False
    with R have "create_program_address lib h (seeds @ [[of_nat (Suc n)]]) pid = Inl InvalidSeeds" by (simp del: of_nat_Suc)
    with assms show False by (simp del: of_nat_Suc)
  qed
qed

lemma nonce_loop_Inr:
  "nonce_loop lib h seeds pid n = Some (Inr (a, b)) \<longleftrightarrow>
     0 < b \<and> b \<le> n \<and> create_program_address lib h (seeds @ [[of_nat b]]) pid = Inr a \<and>
     (\<forall>c. b < c \<and> c \<le> n \<longrightarrow> create_program_address lib h (seeds @ [[of_nat c]]) pid = Inl InvalidSeeds)"
proof (induction n)
  case 0
  then show ?case by auto
next
  case (Suc n)
  show ?case
  proof (cases "create_program_address lib h (seeds @ [[of_nat (Suc n)]]) pid")
    case (Inl e)
    consider "e = MaxSeedLengthExceeded" | "e = InvalidSeeds" using create_errors [OF Inl] by blast
    then show ?thesis
    proof cases
      case 1
      then have "nonce_loop lib h seeds pid (Suc n) = Some (Inl MaxSeedLengthExceeded)"
        using Inl by (simp del: of_nat_Suc add: nonce_loop_Suc)
      then show ?thesis using top_nonce_refused [of lib h seeds n pid b a] Inl 1 by (simp del: of_nat_Suc)
    next
      case 2
      then show ?thesis using Inl Suc.IH by (auto simp del: of_nat_Suc simp: nonce_loop_Suc le_Suc_eq)
    qed
  next
    case (Inr a')
    have l: "nonce_loop lib h seeds pid (Suc n) = Some (Inr (a', Suc n))" by (simp del: of_nat_Suc add: nonce_loop_Suc Inr)
    show ?thesis
    proof
      assume "nonce_loop lib h seeds pid (Suc n) = Some (Inr (a, b))"
      then have "a = a'" "b = Suc n" using l by (simp_all del: of_nat_Suc)
      then show "0 < b \<and> b \<le> Suc n \<and> create_program_address lib h (seeds @ [[of_nat b]]) pid = Inr a \<and>
        (\<forall>c. b < c \<and> c \<le> Suc n \<longrightarrow> create_program_address lib h (seeds @ [[of_nat c]]) pid = Inl InvalidSeeds)"
        using Inr by (auto simp del: of_nat_Suc)
    next
      assume R: "0 < b \<and> b \<le> Suc n \<and> create_program_address lib h (seeds @ [[of_nat b]]) pid = Inr a \<and>
        (\<forall>c. b < c \<and> c \<le> Suc n \<longrightarrow> create_program_address lib h (seeds @ [[of_nat c]]) pid = Inl InvalidSeeds)"
      have "b = Suc n"
      proof (rule ccontr)
        assume "b \<noteq> Suc n"
        with R have "create_program_address lib h (seeds @ [[of_nat (Suc n)]]) pid = Inl InvalidSeeds" by (simp del: of_nat_Suc)
        with Inr show False by (simp del: of_nat_Suc)
      qed
      then show "nonce_loop lib h seeds pid (Suc n) = Some (Inr (a, b))" using R Inr l by (simp del: of_nat_Suc)
    qed
  qed
qed

lemma nonce_loop_no_nonce:
  "nonce_loop lib h seeds pid n = Some (Inl NoViableNonce) \<longleftrightarrow>
     (0 < n \<longrightarrow> \<not> list_ex (\<lambda>s. MAX_SEED_LENGTH < length s) seeds) \<and>
     (\<forall>c. 0 < c \<and> c \<le> n \<longrightarrow> create_program_address lib h (seeds @ [[of_nat c]]) pid = Inl InvalidSeeds)"
proof (induction n)
  case 0
  then show ?case by (simp del: of_nat_Suc)
next
  case (Suc n)
  show ?case
  proof (cases "create_program_address lib h (seeds @ [[of_nat (Suc n)]]) pid")
    case (Inl e)
    consider "e = MaxSeedLengthExceeded" | "e = InvalidSeeds" using create_errors [OF Inl] by blast
    then show ?thesis
    proof cases
      case 1
      then show ?thesis using Inl by (auto simp del: of_nat_Suc simp: nonce_loop_Suc)
    next
      case 2
      then have nl: "\<not> list_ex (\<lambda>s. MAX_SEED_LENGTH < length s) seeds"
        using Inl create_long_seed [of seeds lib h "of_nat (Suc n)" pid] by auto
      show ?thesis using 2 Inl Suc.IH nl by (auto simp del: of_nat_Suc simp: nonce_loop_Suc le_Suc_eq)
    qed
  next
    case (Inr a')
    then show ?thesis by (auto simp del: of_nat_Suc simp: nonce_loop_Suc)
  qed
qed

lemma nonce_loop_long:
  "0 < n \<Longrightarrow> list_ex (\<lambda>s. MAX_SEED_LENGTH < length s) seeds \<Longrightarrow>
   nonce_loop lib h seeds pid n = Some (Inl MaxSeedLengthExceeded)"
  by (cases n) (simp_all add: nonce_loop_Suc create_long_seed)

text \<open>The loop returns from every start nonce: an address with its nonce, or an error.\<close>

lemma nonce_loop_some: "\<exists>r. nonce_loop lib h seeds pid n = Some r"
proof (induction n)
  case 0
  then show ?case by (simp del: of_nat_Suc)
next
  case (Suc n)
  then show ?case by (simp del: of_nat_Suc add: nonce_loop_Suc split: sum.split)
qed

text \<open>The search's result is the canonical (highest) nonce off the curve.\<close>

lemma find_program_address_sync_canonical:
  "find_program_address_sync lib h seeds pid = Some (Inr (a, b)) \<longleftrightarrow>
     0 < b \<and> b \<le> 255 \<and> create_program_address lib h (seeds @ [[of_nat b]]) pid = Inr a \<and>
     (\<forall>c. b < c \<and> c \<le> 255 \<longrightarrow> create_program_address lib h (seeds @ [[of_nat c]]) pid = Inl InvalidSeeds)"
  unfolding find_program_address_sync_def by (rule nonce_loop_Inr)

text \<open>A long seed throws at once; otherwise no nonce is viable exactly when all of 255 down to 1 are on the curve.\<close>

lemma find_program_address_sync_errors:
  "(list_ex (\<lambda>s. MAX_SEED_LENGTH < length s) seeds \<longrightarrow>
      find_program_address_sync lib h seeds pid = Some (Inl MaxSeedLengthExceeded)) \<and>
   (find_program_address_sync lib h seeds pid = Some (Inl NoViableNonce) \<longleftrightarrow>
      \<not> list_ex (\<lambda>s. MAX_SEED_LENGTH < length s) seeds \<and>
      (\<forall>c. 0 < c \<and> c \<le> 255 \<longrightarrow> create_program_address lib h (seeds @ [[of_nat c]]) pid = Inl InvalidSeeds))"
  unfolding find_program_address_sync_def using nonce_loop_long [of 255 seeds lib h pid] nonce_loop_no_nonce [of lib h seeds pid 255]
  by simp

text \<open>The loop throws only the seed-length error, for a long seed, or gives up.\<close>

lemma nonce_loop_Inl:
  "nonce_loop lib h seeds pid n = Some (Inl e) \<Longrightarrow>
   (e = MaxSeedLengthExceeded \<and> list_ex (\<lambda>s. MAX_SEED_LENGTH < length s) seeds) \<or> e = NoViableNonce"
proof (induction n)
  case 0
  then show ?case by simp
next
  case (Suc n)
  then show ?case
    by (auto simp del: of_nat_Suc simp: nonce_loop_Suc create_program_address_def MAX_SEED_LENGTH_def Let_def
        split: sum.splits if_splits)
qed

end
