(* ===== verification/Pda_Client.thy ===== *)
theory Pda_Client
  imports Pda Swap_Form
begin

text \<open>
  The take handler of \<open>swap.tsx\<close> run with the web3.js address search in
  place of the library parameter (\<^const>\<open>web3_lib\<close>): what its two
  derivations, the offer address and the vault, amount to.
\<close>

section \<open>The library with its search\<close>

text \<open>Every nonce the search tries, 255 down to 1, gives an address on the curve.\<close>

definition no_viable_nonce :: "'pk solana_lib \<Rightarrow> (byte list \<Rightarrow> 'pk) \<Rightarrow> byte list list \<Rightarrow> 'pk \<Rightarrow> bool" where
  "no_viable_nonce lib h seeds pid =
     list_all (\<lambda>c. create_program_address lib h (seeds @ [[of_nat c]]) pid = Inl InvalidSeeds) [1..<256]"

lemma no_viable_nonce_iff:
  "no_viable_nonce lib h seeds pid \<longleftrightarrow>
   (\<forall>c. 0 < c \<and> c \<le> 255 \<longrightarrow> create_program_address lib h (seeds @ [[of_nat c]]) pid = Inl InvalidSeeds)"
  by (auto simp: no_viable_nonce_def list_all_iff)

lemma web3_lib_fields [simp]:
  "parse_pubkey (web3_lib lib h) = parse_pubkey lib" "pubkey_bytes (web3_lib lib h) = pubkey_bytes lib"
  "on_curve (web3_lib lib h) = on_curve lib" "program_id (web3_lib lib h) = program_id lib"
  "token_2022_program (web3_lib lib h) = token_2022_program lib"
  "associated_token_program (web3_lib lib h) = associated_token_program lib"
  by (simp_all add: web3_lib_def)

lemma web3_find_pda_None:
  "find_pda (web3_lib lib h) seeds pid = None \<longleftrightarrow> (\<exists>e. find_program_address_sync lib h seeds pid = Some (Inl e))"
proof -
  obtain r where r: "find_program_address_sync lib h seeds pid = Some r"
    using nonce_loop_some [of lib h seeds pid 255] by (auto simp: find_program_address_sync_def)
  then show ?thesis by (cases r) (auto simp: web3_lib_def)
qed

lemma web3_find_pda_Some:
  "find_pda (web3_lib lib h) seeds pid = Some a \<longleftrightarrow> (\<exists>b. find_program_address_sync lib h seeds pid = Some (Inr (a, b)))"
  by (auto simp: web3_lib_def split: option.splits sum.splits)

lemma to_array_like_le_length: "to_array_like_le n i = Inr bs \<Longrightarrow> length bs = n"
  by (auto simp: to_array_like_le_def split: if_splits)

lemma bn_of_number_Inl: "bn_of_number v = Inl e \<Longrightarrow> e = BnAssertion"
  by (auto simp: bn_of_number_def bn_words_def split: js_num.splits if_splits sum.splits)

lemma to_array_like_le_Inl: "to_array_like_le n i = Inl e \<Longrightarrow> e = ByteArrayTooLong"
  by (auto simp: to_array_like_le_def split: if_splits)

text \<open>Where the take handler's \<open>NoViableBump\<close> comes from: one of its two address searches.\<close>

lemma handle_take_offer_no_bump:
  assumes "handle_take_offer lib pk s = Threw NoViableBump"
  shows "(\<exists>mk idb. length idb = 8 \<and> find_pda lib [buffer_from ''offer'', pubkey_bytes lib mk, idb] (program_id lib) = None) \<or>
         (\<exists>offer ma. find_pda lib [pubkey_bytes lib offer, pubkey_bytes lib (token_2022_program lib), pubkey_bytes lib ma]
                       (associated_token_program lib) = None)"
  using assms
  by (auto simp: handle_take_offer_def sum_bind_def find_program_address_def get_associated_token_address_def
      new_public_key_def dest: to_array_like_le_length bn_of_number_Inl to_array_like_le_Inl split: option.splits sum.splits if_splits)

text \<open>A sent take names the two addresses its searches found.\<close>

lemma handle_take_offer_Sent_pdas:
  assumes "handle_take_offer lib (Some taker) s = Sent (TakeOffer acc)"
  shows "\<exists>idb. length idb = 8 \<and>
           find_pda lib [buffer_from ''offer'', pubkey_bytes lib (tk_maker acc), idb] (program_id lib) = Some (tk_offer acc) \<and>
           find_pda lib [pubkey_bytes lib (tk_offer acc), pubkey_bytes lib (token_2022_program lib),
                         pubkey_bytes lib (tk_token_mint_a acc)] (associated_token_program lib) = Some (tk_vault acc)"
  using assms
  by (auto simp: handle_take_offer_def sum_bind_def find_program_address_def get_associated_token_address_def
      new_public_key_def dest: to_array_like_le_length split: option.splits sum.splits if_splits)

lemma short_offer_seeds:
  "\<forall>k. length (pubkey_bytes lib k) = 32 \<Longrightarrow> length idb = 8 \<Longrightarrow>
   \<not> list_ex (\<lambda>s. MAX_SEED_LENGTH < length s) [buffer_from ''offer'', pubkey_bytes lib mk, idb]"
  by (simp add: MAX_SEED_LENGTH_def buffer_from_def)

lemma short_ata_seeds:
  "\<forall>k. length (pubkey_bytes lib k) = 32 \<Longrightarrow>
   \<not> list_ex (\<lambda>s. MAX_SEED_LENGTH < length s) [pubkey_bytes lib a, pubkey_bytes lib b, pubkey_bytes lib c]"
  by (simp add: MAX_SEED_LENGTH_def)

lemma search_error_no_nonce:
  assumes "find_program_address_sync lib h seeds pid = Some (Inl e)"
    and "\<not> list_ex (\<lambda>s. MAX_SEED_LENGTH < length s) seeds"
  shows "\<forall>c. 0 < c \<and> c \<le> 255 \<longrightarrow> create_program_address lib h (seeds @ [[of_nat c]]) pid = Inl InvalidSeeds"
proof -
  have "nonce_loop lib h seeds pid 255 = Some (Inl e)" using assms(1) by (simp add: find_program_address_sync_def)
  from nonce_loop_Inl [OF this] assms(2) have "e = NoViableNonce" by blast
  then show ?thesis using assms find_program_address_sync_errors [of seeds lib h pid] by simp
qed

section \<open>The take handler's derivations\<close>

text \<open>Two runs of the take form (taker 2, maker 1, id 42, mints 7 and 8) used by the witnesses.\<close>

lemma all_curve_no_nonce:
  "find_program_address_sync example_lib h [buffer_from ''offer'', pubkey_bytes example_lib mk, le_bytes 8 i] pid =
     Some (Inl NoViableNonce)"
proof -
  have "\<forall>c. 0 < c \<and> c \<le> 255 \<longrightarrow>
     create_program_address example_lib h ([buffer_from ''offer'', pubkey_bytes example_lib mk, le_bytes 8 i] @ [[of_nat c]]) pid =
     Inl InvalidSeeds"
    by (simp add: create_program_address_def MAX_SEED_LENGTH_def example_lib_def buffer_from_def Let_def)
  moreover have "\<not> list_ex (\<lambda>s. MAX_SEED_LENGTH < length s) [buffer_from ''offer'', pubkey_bytes example_lib mk, le_bytes 8 i]"
    by (simp add: MAX_SEED_LENGTH_def example_lib_def buffer_from_def)
  ultimately show ?thesis using find_program_address_sync_errors [of _ example_lib h pid] by blast
qed

lemma demo_take_no_bump:
  "handle_take_offer (web3_lib example_lib h) (Some 2)
     (initial_state\<lparr>activeTab := Take, offerMakerAccount := ''1'', makerOfferId := Some (Fin 42),
                    tokenMintA := ''7'', tokenMintB := ''8''\<rparr>) = Threw NoViableBump"
proof -
  have bl: "\<not> 8 < byte_length 42" using byte_length_le_iff [of 42 8] by simp
  have nb: "find_pda (web3_lib example_lib h) [buffer_from ''offer'', pubkey_bytes example_lib 1, le_bytes 8 42] 11 = None"
    using all_curve_no_nonce [of h 1 42 11] by (simp add: web3_find_pda_None)
  show ?thesis
    using nb
    by (simp add: bl handle_take_offer_def initial_state_def new_public_key_def to_array_like_le_def find_program_address_def
        bn_of_number_Fin js_trunc_def, simp add: example_lib_def is_dec_digit_def radix_value_def radix_digit_def)
qed

lemma demo_curve_create:
  assumes "\<not> list_ex (\<lambda>s. MAX_SEED_LENGTH < length s) seeds"
  shows "create_program_address (example_lib\<lparr>on_curve := (\<lambda>k. k = 255)\<rparr>) (\<lambda>bs. unat (bs ! (length bs - 54)))
           (seeds @ [[x]]) pid = (if unat x = 255 then Inl InvalidSeeds else Inr (unat x))"
proof -
  have t: "length (buffer_from ''ProgramDerivedAddress'') = 21" by (simp add: buffer_from_def)
  have "(concat seeds @ [x] @ le_bytes 32 pid @ buffer_from ''ProgramDerivedAddress'') !
          (length (concat seeds @ [x] @ le_bytes 32 pid @ buffer_from ''ProgramDerivedAddress'') - 54) = x"
    using t by (simp add: nth_append)
  then show ?thesis using assms by (simp add: create_program_address_def example_lib_def MAX_SEED_LENGTH_def Let_def)
qed

lemma demo_curve_search:
  assumes "\<not> list_ex (\<lambda>s. MAX_SEED_LENGTH < length s) seeds"
  shows "find_program_address_sync (example_lib\<lparr>on_curve := (\<lambda>k. k = 255)\<rparr>) (\<lambda>bs. unat (bs ! (length bs - 54)))
           seeds pid = Some (Inr (254, 254))"
proof -
  have inv: "\<forall>c. 254 < c \<and> c \<le> 255 \<longrightarrow>
      create_program_address (example_lib\<lparr>on_curve := (\<lambda>k. k = 255)\<rparr>) (\<lambda>bs. unat (bs ! (length bs - 54)))
        (seeds @ [[of_nat c]]) pid = Inl InvalidSeeds"
  proof (intro allI impI)
    fix c :: nat
    assume "254 < c \<and> c \<le> 255"
    then have "c = 255" by simp
    then show "create_program_address (example_lib\<lparr>on_curve := (\<lambda>k. k = 255)\<rparr>) (\<lambda>bs. unat (bs ! (length bs - 54)))
        (seeds @ [[of_nat c]]) pid = Inl InvalidSeeds"
      using demo_curve_create [OF assms, of "of_nat c" pid] by simp
  qed
  have at: "create_program_address (example_lib\<lparr>on_curve := (\<lambda>k. k = 255)\<rparr>) (\<lambda>bs. unat (bs ! (length bs - 54)))
        (seeds @ [[of_nat 254]]) pid = Inr 254"
    using demo_curve_create [OF assms, of "of_nat 254" pid] by simp
  show ?thesis
    using find_program_address_sync_canonical [of "example_lib\<lparr>on_curve := (\<lambda>k. k = 255)\<rparr>"
        "\<lambda>bs. unat (bs ! (length bs - 54))" seeds pid 254 254] inv at by simp
qed

lemma demo_take_canonical:
  "handle_take_offer (web3_lib (example_lib\<lparr>on_curve := (\<lambda>k. k = 255)\<rparr>) (\<lambda>bs. unat (bs ! (length bs - 54)))) (Some 2)
     (initial_state\<lparr>activeTab := Take, offerMakerAccount := ''1'', makerOfferId := Some (Fin 42),
                    tokenMintA := ''7'', tokenMintB := ''8''\<rparr>) =
   Sent (TakeOffer \<lparr>tk_taker = 2, tk_maker = 1, tk_token_mint_a = 7, tk_token_mint_b = 8, tk_token_program = 12,
                    tk_offer = 254, tk_vault = 254\<rparr>)"
proof -
  let ?L = "example_lib\<lparr>on_curve := (\<lambda>k. k = 255)\<rparr>" and ?H = "\<lambda>bs. unat (bs ! (length bs - 54))"
  have bl: "\<not> 8 < byte_length 42" using byte_length_le_iff [of 42 8] by simp
  have keys: "\<forall>k. length (pubkey_bytes ?L k) = 32" by (simp add: example_lib_def)
  have f: "find_pda (web3_lib ?L ?H) seeds pid = Some 254"
    if "\<not> list_ex (\<lambda>s. MAX_SEED_LENGTH < length s) seeds" for seeds pid
    using demo_curve_search [OF that, of pid] by (simp add: web3_find_pda_Some)
  have o: "find_pda (web3_lib ?L ?H) [buffer_from ''offer'', pubkey_bytes ?L 1, le_bytes 8 42] 11 = Some 254"
    using f short_offer_seeds [OF keys, of "le_bytes 8 42" 1] by simp
  have v: "find_pda (web3_lib ?L ?H) [pubkey_bytes ?L 254, pubkey_bytes ?L 12, pubkey_bytes ?L 7] 13 = Some 254"
    using f short_ata_seeds [OF keys, of 254 12 7] by simp
  show ?thesis
    using o v
    by (simp add: bl handle_take_offer_def initial_state_def new_public_key_def to_array_like_le_def find_program_address_def
        get_associated_token_address_def bn_of_number_Fin js_trunc_def,
        simp add: example_lib_def is_dec_digit_def radix_value_def radix_digit_def)
qed

text \<open>
  C18: a take the handler sends, with the web3.js search as the library,
  names as offer account the canonical address of the seeds \<open>offer\<close>, the
  maker's key and the id's eight bytes (the highest nonce off the curve), and
  as vault the address the search finds for the offer, the Token-2022 program
  and mint A.
\<close>

theorem take_offer_canonical_address:
  assumes "handle_take_offer (web3_lib lib h) (Some taker) s = Sent (TakeOffer acc)"
  shows "\<exists>idb b. length idb = 8 \<and> 0 < b \<and> b \<le> 255 \<and>
           find_program_address_sync lib h [buffer_from ''offer'', pubkey_bytes lib (tk_maker acc), idb] (program_id lib) =
             Some (Inr (tk_offer acc, b)) \<and>
           (\<forall>c. b < c \<and> c \<le> 255 \<longrightarrow>
              create_program_address lib h ([buffer_from ''offer'', pubkey_bytes lib (tk_maker acc), idb] @ [[of_nat c]])
                (program_id lib) = Inl InvalidSeeds) \<and>
           (\<exists>b'. find_program_address_sync lib h
              [pubkey_bytes lib (tk_offer acc), pubkey_bytes lib (token_2022_program lib), pubkey_bytes lib (tk_token_mint_a acc)]
              (associated_token_program lib) = Some (Inr (tk_vault acc, b')))"
proof -
  obtain idb where idb: "length idb = 8"
    and o: "find_pda (web3_lib lib h) [buffer_from ''offer'', pubkey_bytes lib (tk_maker acc), idb] (program_id lib) = Some (tk_offer acc)"
    and v: "find_pda (web3_lib lib h) [pubkey_bytes lib (tk_offer acc), pubkey_bytes lib (token_2022_program lib),
              pubkey_bytes lib (tk_token_mint_a acc)] (associated_token_program lib) = Some (tk_vault acc)"
    using handle_take_offer_Sent_pdas [OF assms] by auto
  obtain b where b: "find_program_address_sync lib h [buffer_from ''offer'', pubkey_bytes lib (tk_maker acc), idb] (program_id lib) =
      Some (Inr (tk_offer acc, b))"
    using o by (auto simp: web3_find_pda_Some)
  show ?thesis
    using idb b find_program_address_sync_canonical [THEN iffD1, OF b] v by (auto simp: web3_find_pda_Some)
qed

theorem take_offer_canonical_address_witness:
  "\<exists>idb b. length idb = 8 \<and> 0 < b \<and> b \<le> 255 \<and>
     find_program_address_sync (example_lib\<lparr>on_curve := (\<lambda>k. k = 255)\<rparr>) (\<lambda>bs. unat (bs ! (length bs - 54)))
       [buffer_from ''offer'', pubkey_bytes example_lib 1, idb] 11 = Some (Inr (254, b)) \<and>
     (\<forall>c. b < c \<and> c \<le> 255 \<longrightarrow>
        create_program_address (example_lib\<lparr>on_curve := (\<lambda>k. k = 255)\<rparr>) (\<lambda>bs. unat (bs ! (length bs - 54)))
          ([buffer_from ''offer'', pubkey_bytes example_lib 1, idb] @ [[of_nat c]]) 11 = Inl InvalidSeeds) \<and>
     (\<exists>b'. find_program_address_sync (example_lib\<lparr>on_curve := (\<lambda>k. k = 255)\<rparr>) (\<lambda>bs. unat (bs ! (length bs - 54)))
        [pubkey_bytes example_lib 254, pubkey_bytes example_lib 12, pubkey_bytes example_lib 7] 13 = Some (Inr (254, b')))"
  using take_offer_canonical_address [OF demo_take_canonical] by (simp add: example_lib_def)

text \<open>
  C19: with 32-byte keys the take handler never meets the search's
  seed-length \<open>TypeError\<close>: its seeds are at most 32 bytes each, so a
  \<open>NoViableBump\<close> from it means that every nonce from 255 down to 1 put the
  offer address or the vault on the curve.
\<close>

theorem take_offer_no_viable_nonce:
  assumes "\<forall>k. length (pubkey_bytes lib k) = 32"
    and "handle_take_offer (web3_lib lib h) (Some taker) s = Threw NoViableBump"
  shows "(\<exists>mk idb. length idb = 8 \<and> no_viable_nonce lib h [buffer_from ''offer'', pubkey_bytes lib mk, idb] (program_id lib)) \<or>
         (\<exists>offer ma. no_viable_nonce lib h
            [pubkey_bytes lib offer, pubkey_bytes lib (token_2022_program lib), pubkey_bytes lib ma]
            (associated_token_program lib))"
proof -
  have "(\<exists>mk idb e. length idb = 8 \<and>
            find_program_address_sync lib h [buffer_from ''offer'', pubkey_bytes lib mk, idb] (program_id lib) = Some (Inl e)) \<or>
        (\<exists>offer ma e. find_program_address_sync lib h
            [pubkey_bytes lib offer, pubkey_bytes lib (token_2022_program lib), pubkey_bytes lib ma]
            (associated_token_program lib) = Some (Inl e))"
    using handle_take_offer_no_bump [OF assms(2)] by (simp add: web3_find_pda_None)
  then show ?thesis
  proof (elim disjE exE conjE)
    fix mk idb e
    assume idb: "length idb = 8"
      and f: "find_program_address_sync lib h [buffer_from ''offer'', pubkey_bytes lib mk, idb] (program_id lib) = Some (Inl e)"
    have "no_viable_nonce lib h [buffer_from ''offer'', pubkey_bytes lib mk, idb] (program_id lib)"
      unfolding no_viable_nonce_iff by (rule search_error_no_nonce [OF f short_offer_seeds [OF assms(1) idb]])
    then show ?thesis using idb by blast
  next
    fix offer ma e
    assume f: "find_program_address_sync lib h
        [pubkey_bytes lib offer, pubkey_bytes lib (token_2022_program lib), pubkey_bytes lib ma]
        (associated_token_program lib) = Some (Inl e)"
    have "no_viable_nonce lib h [pubkey_bytes lib offer, pubkey_bytes lib (token_2022_program lib), pubkey_bytes lib ma]
        (associated_token_program lib)"
      unfolding no_viable_nonce_iff by (rule search_error_no_nonce [OF f short_ata_seeds [OF assms(1)]])
    then show ?thesis by blast
  qed
qed

theorem take_offer_no_viable_nonce_witness:
  "(\<exists>mk idb. length idb = 8 \<and> no_viable_nonce example_lib (\<lambda>bs. 0) [buffer_from ''offer'', pubkey_bytes example_lib mk, idb]
      (program_id example_lib)) \<or>
   (\<exists>offer ma. no_viable_nonce example_lib (\<lambda>bs. 0)
      [pubkey_bytes example_lib offer, pubkey_bytes example_lib (token_2022_program example_lib), pubkey_bytes example_lib ma]
      (associated_token_program example_lib))"
proof -
  have keys: "\<forall>k. length (pubkey_bytes example_lib k) = 32" by (simp add: example_lib_def)
  show ?thesis by (rule take_offer_no_viable_nonce [OF keys demo_take_no_bump])
qed

end
