(* ===== verification/Spec2Isabelle.thy ===== *)
theory Spec2Isabelle
  imports Swap_Test Escrow_Spec Custody Pda_Client
begin

text \<open>
  \<^bold>\<open>SwapDApp: a verification development of the swap client.\<close>

  The repository is a browser client for an on-chain escrow program (not part
  of the repository) and an integration test of that program.  Its parts:
  \<^item> \<open>src/frontend/src/components/swap.tsx\<close>, \<open>SwapComponent\<close>: a React form
    with a Make and a Take tab.  On mount it draws a random offer id
    (\<open>generateRandomId\<close>); \<open>handleMakeOffer\<close> sends \<open>makeOffer(id, a * 100,
    b * LAMPORTS_PER_SOL)\<close>; \<open>handleTakeOffer\<close> derives the offer address and
    its vault and sends \<open>takeOffer()\<close>; each shows the signature in a toast.
  \<^item> \<open>src/frontend/src/components/solana/solana-provider.tsx\<close>: the wallet and
    connection providers; the form reads the wallet's \<open>publicKey\<close>.
  \<^item> \<open>src/tests/swap.ts\<close>: a mocha test that seeds two users and two mints and
    runs \<open>makeOffer\<close> then \<open>takeOffer\<close> against the deployed program.

  Theories, in import order:
  \<^item> \<open>Prelude\<close>: the byte type, \<open>sum_bind\<close> for code that may throw, rule
    collections, and list, character and sum lemmas shared by the components.
  \<^item> \<open>Js_Number\<close>: ECMAScript Numbers as the code uses them.  A finite Number
    is the exact rational it denotes; \<open>number_value\<close> rounds a rational to
    binary64 (round half to even, 53-bit mantissa, subnormals down to
    \<open>2\<^sup>-\<^sup>1\<^sup>0\<^sup>7\<^sup>4\<close>, overflow to infinity), and \<open>js_mul\<close>, \<open>js_truthy\<close>,
    \<open>js_parse_int\<close>, \<open>js_parse_float\<close> and \<open>number_to_string\<close> follow the
    ECMAScript algorithms.  Lemmas: the rounding error is at most half a unit in
    the last place, integers up to \<open>2\<^sup>5\<^sup>3\<close> are exact, and \<open>parseInt\<close> reads
    back the rendering of every such integer.
  \<^item> \<open>Bn_Buffer\<close>: \<open>new BN(number)\<close> at the level of bn.js's 26-bit words,
    \<open>toArrayLike(Buffer, 'le', n)\<close>, Borsh's \<open>u64\<close>, \<open>getBigUint64\<close> and
    \<open>Buffer.from\<close>.  Lemmas: the word-level constructor equals truncation below
    \<open>2\<^sup>5\<^sup>3\<close> (\<open>bn_of_number_spec\<close>), and little-endian encoding round-trips.
  \<^item> \<open>Solana_Lib\<close>: the SDK functions the code calls, as a record
    \<open>solana_lib\<close> over a key type \<open>'pk\<close> (base-58 parsing, \<open>toBuffer\<close>, the
    curve test and the PDA bump search are fields, the search modelled in
    \<open>Pda\<close>), with
    \<open>getAssociatedTokenAddressSync\<close> built on it.  Every lemma over the record
    holds for any SDK; \<open>example_lib\<close> is a concrete instance for witnesses.
  \<^item> \<open>Swap_Form\<close>: \<open>swap.tsx\<close>.  The record \<open>swap_state\<close> holds the
    \<open>useState\<close> hooks; \<open>handle_make_offer\<close> and \<open>handle_take_offer\<close> are the
    handlers up to the awaited \<open>.rpc()\<close>, each returning \<open>Alerted\<close> (alert and
    return before \<open>preventDefault\<close>), \<open>Threw\<close> (an exception: an unhandled
    rejection) or \<open>Sent\<close>; \<open>on_change\<close> is the inputs' setters.  The page is a
    state machine (\<open>page_step\<close>, \<open>enabled\<close>, \<open>reachable\<close>) over mount,
    tab, input, submit, wallet and RPC-completion events; completions arrive in
    any order.  \<open>after_submit\<close> records a handler's outcome and then lets the
    browser's default submission run: \<open>default_prevented\<close> says whether the
    handler reached \<open>e.preventDefault()\<close>, and an unprevented submission of
    a valid form reloads the page (\<open>reload\<close>).  The reload keeps the wallet's
    key because the provider's \<open>autoConnect\<close> reconnects the same wallet.
    \<open>render_page\<close> is what the JSX shows.  Lemmas: the handlers' results on
    every branch (C1, C3, C4), the amount scaling (C6), the id drawn on mount
    and the alert a zero id gives (C7), the page invariant by rule induction
    (C5), double submission (C8) and the reload after an alert (C9).
  \<^item> \<open>Escrow\<close>: the on-chain program, modelled from the spec and the test's
    assertions (it is not in the repository): a ledger of token balances keyed
    by owner and mint and a map of offers; \<open>make_offer\<close>, \<open>take_offer\<close>, the
    token \<open>transfer\<close>, the offer seeds, and \<open>execute\<close>, which runs an
    instruction the client built, its BN arguments read through Borsh's \<open>u64\<close>.
    Lemmas: each successful instruction decomposed into its transfers, the
    frame predicate \<open>confined\<close> composed across transfers, and conservation of
    every mint's supply (C10); a made offer refuses a second make with the same
    seeds (\<open>make_offer_replay\<close>).
  \<^item> \<open>Provider\<close>: \<open>solana-provider.tsx\<close>.  \<open>solana_provider\<close> is
    \<open>SolanaProvider\<close> (the devnet endpoint from \<open>clusterApiUrl\<close>, no adapters,
    \<open>autoConnect\<close>), \<open>on_error\<close> its logging callback, \<open>use_anchor_provider\<close>
    the hook; the wallet adapter library is \<open>wallet_step\<close> over
    connect, disconnect and error events.  \<open>wallet_button\<close> and
    \<open>wallet_disconnect_button\<close> are the exports \<open>WalletButton\<close> and
    \<open>WalletDisconnectButton\<close>, \<open>dynamic(..., {ssr: false})\<close> imports
    modelled by \<open>dynamic_import\<close> over a \<open>render_env\<close> (server pass or
    browser, chunk loaded or not).
  \<^item> \<open>App\<close>: the running application, composing the wallet context, the page
    of \<open>Swap_Form\<close>, the pool of transactions submitted with \<open>.rpc()\<close> and
    the chain of \<open>Escrow\<close>.  \<open>app_step\<close> takes wallet events, user events
    (whose new transactions enter the pool), and the cluster processing or
    dropping any pooled transaction in any order, settling the promise that
    awaits it if the page still holds one (a reload drops promises, not
    transactions).  Lemmas: the invariant \<open>app_inv\<close> (pool and page agree
    on what was sent) by rule induction, the signer of every submitted
    transaction (C11), and the wallet control of \<open>swap.tsx\<close>
    (\<open>wallet_control\<close>, the \<open>publicKey\<close> conditional), which follows the
    adapter's key in every reachable state (C16).
  \<^item> \<open>Escrow_Spec\<close>: an abstract contract, the atomic swap of two amounts
    between maker and taker (\<open>atomic_swap\<close>, \<open>swap_balances\<close>), refused when
    a side lacks the funds or a receiving account would pass \<open>u64\<close>.  The
    \<open>makeOffer\<close> the make form sends followed by the \<open>takeOffer\<close> the take
    form sends for that offer refines it: same balances, same offer table, and
    failure exactly when the swap is refused (C15).
  \<^item> \<open>Custody\<close>: who can lose tokens in the running application.
    \<open>debit_authorized\<close> names the owners a debit may hit: the signer of a
    sent transaction, the offer account of a sent \<open>makeOffer\<close>
    (\<open>offer_address\<close>), or an offer account present at the start.  The
    invariant \<open>custody_inv\<close>, proved by rule induction over
    \<open>app_reachable\<close>, shows that no other balance ever falls below its
    initial value, in any interleaving of wallet, user and cluster events
    (C17).
  \<^item> \<open>Pda\<close>: the address search of \<open>@solana/web3.js\<close> that the field
    \<open>find_pda\<close> stands for, modelled from its algorithm (library code):
    \<open>create_program_address\<close> is \<open>createProgramAddressSync\<close> (SHA-256 a
    parameter, a \<open>TypeError\<close> on a seed over 32 bytes, an on-curve hash
    refused), \<open>nonce_loop\<close> the \<open>while (nonce != 0)\<close> loop of
    \<open>findProgramAddressSync\<close> as a \<open>partial_function (option)\<close> (\<open>None\<close>
    would be a search that never returns), and \<open>web3_lib\<close> the library record
    with this search plugged in.  Lemmas: the loop returns from every nonce
    (\<open>nonce_loop_some\<close>), its result is the canonical (highest) nonce, and
    its errors.
  \<^item> \<open>Pda_Client\<close>: \<open>handleTakeOffer\<close> run with \<open>web3_lib\<close>.  A sent take
    names the canonical offer address and the vault the search finds (C18);
    with 32-byte keys its seeds never meet the seed-length error, so a
    \<open>NoViableBump\<close> means every nonce 255..1 hit the curve (C19).
  \<^item> \<open>Swap_Test\<close>: \<open>tests/swap.ts\<close>, with the program as a parameter:
    \<open>seed_ledger\<close> and \<open>before_accounts\<close> are the \<open>before\<close> hook,
    \<open>make_test\<close> and \<open>take_test\<close> the two \<open>it\<close> blocks, \<open>run_swap_test\<close> the
    suite, reporting mocha's verdicts and the failed \<open>console.assert\<close>s apart.
    Lemmas: the suite passes against the escrow model with the spec's final
    balances (C12), and its verdicts ignore the balance checks (C13).
  \<^item> \<open>Spec2Isabelle\<close> (this theory): properties across components.  C2: the
    id the make tab displays, typed into the take form, makes the take handler
    target the offer account the program derived for the make.  C14: a
    negative amount passes the handler and reaches the program as its
    magnitude.

  Bounds: amounts are proved exact up to \<open>2\<^sup>5\<^sup>2\<close> scaled units, where the
  binary64 product stays below bn.js's \<open>2\<^sup>5\<^sup>3\<close> assertion; ids are below
  \<open>MAX_SAFE_INTEGER\<close>, where Numbers are exact; the test's id is eight bytes,
  below \<open>2\<^sup>6\<^sup>4\<close>, so its little-endian encoding never overflows.  No loop of
  the code needs fuel: the only unbounded behaviour is the event sequence of
  the page and the application, modelled as reachability relations.

  Not modelled: console output other than wallet errors and assertion counts,
  CSS and toasts' timing; React's reuse of the uncontrolled input elements when
  the tab changes (the shown fields may then differ from the state); Anchor's
  account resolution beyond the accounts passed, and its instruction coder
  (the instruction's constructor and BN arguments stand for the serialised
  data, read by the program through Borsh's \<open>u64\<close>); confirmation timeouts of
  transactions that land, fees and blockhash expiry; other clients acting on
  the chain; base-58 and curve arithmetic and SHA-256 (parameters of
  \<open>solana_lib\<close> and of the search in \<open>Pda\<close>; the other claims hold for any
  search, the client claims C18 and C19 for the web3.js one); characters of
  \<open>StrWhiteSpaceChar\<close> beyond one byte; negative zero, which every use in the
  code treats as zero; the test's \<open>.slow()\<close> threshold, which only affects
  timing reports; the rendering of the wallet widgets themselves (library
  UI).  The escrow program itself is outside the repository and is modelled
  from the spec.
  Termination: the code has no loop of its own.  The loop it depends on is the
  nonce search of \<open>findProgramAddressSync\<close>, kept as a loop in \<open>Pda\<close> and
  proved to return from every nonce (\<open>nonce_loop_some\<close>, used by C18 and
  C19).  The nonce starts at 255 because web3.js starts there; no fuel is used.
\<close>

text \<open>
  C2: the offer id the make tab displays, typed with the maker's key into the
  take form, leads \<open>handleTakeOffer\<close> to the very account the program created
  for the \<open>makeOffer\<close> instruction the make form sent: the offer address of
  the seeds \<open>offer\<close>, the maker and the id's eight little-endian bytes, and its
  associated Token-2022 vault.
\<close>

theorem take_locates_made_offer:
  assumes make: "handle_make_offer lib (Some maker) s = Sent (MakeOffer i a b acc)"
    and shown: "render_offer_id (offerId s) = Some str"
    and key: "parse_pubkey lib (offerMakerAccount t) = Some maker"
    and typed: "makerOfferId t = Some (js_parse_int str)"
    and mints: "parse_pubkey lib (tokenMintA t) = Some ma" "parse_pubkey lib (tokenMintB t) = Some mb"
    and pda: "find_pda lib (offer_seeds lib maker (nat \<bar>i\<bar>)) (program_id lib) = Some addr"
    and ata: "find_pda lib [pubkey_bytes lib addr, pubkey_bytes lib (token_2022_program lib), pubkey_bytes lib ma]
                (associated_token_program lib) = Some vault"
  shows "handle_take_offer lib (Some taker) t =
           Sent (TakeOffer \<lparr>tk_taker = taker, tk_maker = maker, tk_token_mint_a = ma, tk_token_mint_b = mb,
                            tk_token_program = token_2022_program lib, tk_offer = addr, tk_vault = vault\<rparr>)"
proof -
  obtain oid where oid: "offerId s = Some oid" "js_truthy oid" "bn_of_number oid = Inr i"
    using make by (auto simp: handle_make_offer_def sum_bind_def split: option.splits sum.splits if_splits)
  obtain x where x: "oid = Fin x" "number_to_string (Fin x) = Some str"
    using shown oid by (cases oid) (auto simp: render_offer_id_def number_to_string_def bn_of_number_def)
  have xint: "x = of_int \<lfloor>x\<rfloor>"
    using x(2) by (auto simp: number_to_string_def split: if_splits)
  have small: "\<bar>x\<bar> < 9007199254740992" and ix: "i = js_trunc x"
    using oid(3) x(1) by (simp_all add: bn_of_number_Fin split: if_splits)
  have ik: "i = \<lfloor>x\<rfloor>" using ix xint by (simp add: js_trunc_def) (metis floor_of_int minus_minus of_int_minus)
  have ilt: "\<bar>(of_int i :: rat)\<bar> < 9007199254740992" using small xint ik by simp
  then have ibound: "\<bar>i\<bar> \<le> 2 ^ 53" by simp
  have parsed: "js_parse_int str = Fin (of_int i)"
    using parse_int_number_to_string [of i str] x(2) xint ik ibound by simp
  have truthy: "js_truthy (Fin (of_int i))" using oid(2) x(1) xint ik by simp
  have bn: "bn_of_number (Fin (of_int i)) = Inr i"
    using ilt by (simp add: bn_of_number_Fin)
  have bytes: "to_array_like_le 8 i = Inr (le_bytes 8 (nat \<bar>i\<bar>))"
    using ibound byte_length_le_iff [of i 8] by (simp add: to_array_like_le_def)
  have n1: "new_public_key lib (offerMakerAccount t) = Inr maker" using key by (simp add: new_public_key_def)
  have n2: "new_public_key lib (tokenMintA t) = Inr ma" using mints by (simp add: new_public_key_def)
  have n3: "new_public_key lib (tokenMintB t) = Inr mb" using mints by (simp add: new_public_key_def)
  have f1: "find_program_address lib [buffer_from ''offer'', pubkey_bytes lib maker, le_bytes 8 (nat \<bar>i\<bar>)]
              (program_id lib) = Inr addr"
    using pda by (simp add: find_program_address_def offer_seeds_def)
  have f2: "get_associated_token_address lib ma addr True (token_2022_program lib) = Inr vault"
    using ata by (simp add: get_associated_token_address_def find_program_address_def)
  show ?thesis
    unfolding handle_take_offer_def typed parsed using truthy
    by (simp only: n1 n2 n3 f1 f2 bn bytes sum_bind_Inr option.case prod.case sum.case if_False
        not_not simp_thms)
qed

theorem take_locates_made_offer_witness:
  "handle_take_offer example_lib (Some 2) (initial_state\<lparr>activeTab := Take, offerMakerAccount := ''1'', makerOfferId := Some (js_parse_int ''42''),
                   tokenMintA := ''7'', tokenMintB := ''8''\<rparr>) =
     Sent (TakeOffer \<lparr>tk_taker = 2, tk_maker = 1, tk_token_mint_a = 7, tk_token_mint_b = 8,
                      tk_token_program = token_2022_program example_lib, tk_offer = (le_value (concat (offer_seeds example_lib 1 42)) * 16 + 11), tk_vault = (le_value (concat [pubkey_bytes example_lib (le_value (concat (offer_seeds example_lib 1 42)) * 16 + 11), pubkey_bytes example_lib 12, pubkey_bytes example_lib 7]) * 16 + 13)\<rparr>)"
proof -
  have h1: "handle_make_offer example_lib (Some 1) (initial_state\<lparr>offerId := Some (Fin 42), tokenMintA := ''7'', tokenMintB := ''8''\<rparr>) = Sent (MakeOffer 42 0 0 \<lparr>mk_maker = 1, mk_token_mint_a = 7, mk_token_mint_b = 8, mk_token_program = 12\<rparr>)"
    by (simp add: handle_make_offer_def initial_state_def base_units_def example_lib_def
        new_public_key_def is_dec_digit_def radix_value_def radix_digit_def number_value_def
        round_binary64_def bn_of_number_Fin)
  have h2: "render_offer_id (offerId (initial_state\<lparr>offerId := Some (Fin 42), tokenMintA := ''7'', tokenMintB := ''8''\<rparr>)) = Some ''42''"
    by code_simp
  have h3: "parse_pubkey example_lib (offerMakerAccount (initial_state\<lparr>activeTab := Take, offerMakerAccount := ''1'', makerOfferId := Some (js_parse_int ''42''),
                   tokenMintA := ''7'', tokenMintB := ''8''\<rparr>)) = Some 1"
    by (simp add: example_lib_def is_dec_digit_def radix_value_def radix_digit_def)
  have h4: "makerOfferId (initial_state\<lparr>activeTab := Take, offerMakerAccount := ''1'', makerOfferId := Some (js_parse_int ''42''),
                   tokenMintA := ''7'', tokenMintB := ''8''\<rparr>) = Some (js_parse_int ''42'')" by simp
  have h5: "parse_pubkey example_lib (tokenMintA (initial_state\<lparr>activeTab := Take, offerMakerAccount := ''1'', makerOfferId := Some (js_parse_int ''42''),
                   tokenMintA := ''7'', tokenMintB := ''8''\<rparr>)) = Some 7" "parse_pubkey example_lib (tokenMintB (initial_state\<lparr>activeTab := Take, offerMakerAccount := ''1'', makerOfferId := Some (js_parse_int ''42''),
                   tokenMintA := ''7'', tokenMintB := ''8''\<rparr>)) = Some 8"
    by (simp_all add: example_lib_def is_dec_digit_def radix_value_def radix_digit_def)
  have h6: "find_pda example_lib (offer_seeds example_lib 1 (nat \<bar>42\<bar>)) (program_id example_lib) = Some (le_value (concat (offer_seeds example_lib 1 42)) * 16 + 11)"
    by (simp add: example_lib_def)
  have h7: "find_pda example_lib [pubkey_bytes example_lib (le_value (concat (offer_seeds example_lib 1 42)) * 16 + 11), pubkey_bytes example_lib (token_2022_program example_lib),
              pubkey_bytes example_lib 7] (associated_token_program example_lib) = Some (le_value (concat [pubkey_bytes example_lib (le_value (concat (offer_seeds example_lib 1 42)) * 16 + 11), pubkey_bytes example_lib 12, pubkey_bytes example_lib 7]) * 16 + 13)"
    by (simp add: example_lib_def)
  show ?thesis by (rule take_locates_made_offer [OF h1 h2 h3 h4 h5 h6 h7])
qed

text \<open>
  C14: the amount inputs carry \<open>min="0"\<close>, but \<open>handleMakeOffer\<close> is the
  button's click handler and runs before the browser validates the form, and
  Borsh's \<open>u64\<close> encodes a BN's magnitude: typing \<open>-x\<close> as the Token A amount
  sends \<open>makeOffer\<close> with the amount \<open>-100x\<close>, which reaches the program as the
  same bytes as \<open>100x\<close>.  The program escrows the absolute value of what was typed.
\<close>

theorem negative_amount_sent_as_magnitude:
  assumes "handle_make_offer lib pk (s\<lparr>tokenASwapAmount := Fin x\<rparr>) = Sent (MakeOffer i a b acc)"
  shows "handle_make_offer lib pk (s\<lparr>tokenASwapAmount := Fin (- x)\<rparr>) = Sent (MakeOffer i (- a) b acc) \<and>
         borsh_u64 (- a) = borsh_u64 a \<and>
         execute lib (MakeOffer i (- a) b acc) l = execute lib (MakeOffer i a b acc) l"
  using assms
  by (auto simp: handle_make_offer_def sum_bind_def base_units_neg borsh_u64_def to_array_like_le_def
      byte_length_def split: option.splits sum.splits if_splits)

theorem negative_amount_sent_as_magnitude_witness:
  "handle_make_offer example_lib (Some 1) ((initial_state\<lparr>offerId := Some (Fin 42), tokenMintA := ''7'', tokenMintB := ''8''\<rparr>)\<lparr>tokenASwapAmount := Fin (- 5)\<rparr>) =
     Sent (MakeOffer 42 (- 500) 0 \<lparr>mk_maker = 1, mk_token_mint_a = 7, mk_token_mint_b = 8, mk_token_program = 12\<rparr>) \<and>
   borsh_u64 (- 500) = borsh_u64 500 \<and>
   execute example_lib (MakeOffer 42 (- 500) 0 \<lparr>mk_maker = 1, mk_token_mint_a = 7, mk_token_mint_b = 8, mk_token_program = 12\<rparr>) (\<lparr>token_balance = (\<lambda>_. 0)((1, 7) := 1000), offers = Map.empty\<rparr> :: nat ledger) = execute example_lib (MakeOffer 42 500 0 \<lparr>mk_maker = 1, mk_token_mint_a = 7, mk_token_mint_b = 8, mk_token_program = 12\<rparr>) (\<lparr>token_balance = (\<lambda>_. 0)((1, 7) := 1000), offers = Map.empty\<rparr> :: nat ledger)"
proof -
  have nv: "number_value 500 = Fin 500" "number_value 0 = Fin 0"
    using number_value_nat [of 500] number_value_nat [of 0] by simp_all
  have h: "handle_make_offer example_lib (Some 1) ((initial_state\<lparr>offerId := Some (Fin 42), tokenMintA := ''7'', tokenMintB := ''8''\<rparr>)\<lparr>tokenASwapAmount := Fin 5\<rparr>) = Sent (MakeOffer 42 500 0 \<lparr>mk_maker = 1, mk_token_mint_a = 7, mk_token_mint_b = 8, mk_token_program = 12\<rparr>)"
    by (simp add: nv handle_make_offer_def initial_state_def base_units_def example_lib_def
        new_public_key_def is_dec_digit_def radix_value_def radix_digit_def bn_of_number_spec js_trunc_def)
  show ?thesis using negative_amount_sent_as_magnitude [OF h, of "(\<lparr>token_balance = (\<lambda>_. 0)((1, 7) := 1000), offers = Map.empty\<rparr> :: nat ledger)"] by simp
qed

end
